(* ===== verification/Prelude.thy ===== *)
theory Prelude
  imports Complex_Main "HOL-Library.AList"
begin

text \<open>
  The shared vocabulary of the development.  A method of the program is a `prog`: it takes
  the state of the world and returns either an exception or a value, together with the new state
  (what an exception leaves behind is part of the model: Python does not undo effects when it
  raises).  The combinators below are Python's control flow: `ret` is a return,
  `raise` raises, `bnd` is sequencing, `handle` is try/except.

  Two calculi carry the proofs.  `wp` turns a program with a postcondition for returns and
  one for exceptions into a predicate on the start state, by rewriting (collection
  `wp_simps`).  `keeps` says that a program preserves a predicate of the state however
  it ends; its introduction rules are the collection `keeps_rules`.
\<close>

named_theorems wp_simps \<open>weakest preconditions of the combinators and of the primitive effects\<close>
named_theorems keeps_rules \<open>how the combinators preserve a predicate of the state\<close>

section \<open>Programs with state and exceptions\<close>

type_synonym ('s, 'e, 'a) prog = "'s \<Rightarrow> ('e + 'a) \<times> 's"

definition ret :: "'a \<Rightarrow> ('s, 'e, 'a) prog" where
  "ret a = (\<lambda>s. (Inr a, s))"

definition raise :: "'e \<Rightarrow> ('s, 'e, 'a) prog" where
  "raise e = (\<lambda>s. (Inl e, s))"

definition bnd :: "('s, 'e, 'a) prog \<Rightarrow> ('a \<Rightarrow> ('s, 'e, 'b) prog) \<Rightarrow> ('s, 'e, 'b) prog" where
  "bnd m k = (\<lambda>s. case m s of (Inl e, s') \<Rightarrow> (Inl e, s') | (Inr a, s') \<Rightarrow> k a s')"

definition handle :: "('s, 'e, 'a) prog \<Rightarrow> ('e \<Rightarrow> ('s, 'e, 'a) prog) \<Rightarrow> ('s, 'e, 'a) prog" where
  "handle m h = (\<lambda>s. case m s of (Inl e, s') \<Rightarrow> h e s' | (Inr a, s') \<Rightarrow> (Inr a, s'))"

definition outcome_of :: "('s, 'e, 'a) prog \<Rightarrow> ('s, 'f, 'e + 'a) prog" where
  "outcome_of m = (\<lambda>s. case m s of (r, s') \<Rightarrow> (Inr r, s'))"

definition look :: "('s \<Rightarrow> 'a) \<Rightarrow> ('s, 'e, 'a) prog" where
  "look f = (\<lambda>s. (Inr (f s), s))"

definition update :: "('s \<Rightarrow> 's) \<Rightarrow> ('s, 'e, unit) prog" where
  "update f = (\<lambda>s. (Inr (), f s))"

definition lift_sum :: "'e + 'a \<Rightarrow> ('s, 'e, 'a) prog" where
  "lift_sum r = (\<lambda>s. (r, s))"

fun for_each :: "('a \<Rightarrow> ('s, 'e, unit) prog) \<Rightarrow> 'a list \<Rightarrow> ('s, 'e, unit) prog" where
  "for_each f [] = ret ()"
| "for_each f (x # xs) = bnd (f x) (\<lambda>_. for_each f xs)"

fun map_prog :: "('a \<Rightarrow> ('s, 'e, 'b) prog) \<Rightarrow> 'a list \<Rightarrow> ('s, 'e, 'b list) prog" where
  "map_prog f [] = ret []"
| "map_prog f (x # xs) = bnd (f x) (\<lambda>y. bnd (map_prog f xs) (\<lambda>ys. ret (y # ys)))"

text \<open>Pure code that can raise: the sum type with its own sequencing.\<close>

definition sbind :: "'e + 'a \<Rightarrow> ('a \<Rightarrow> 'e + 'b) \<Rightarrow> 'e + 'b" where
  "sbind r k = (case r of Inl e \<Rightarrow> Inl e | Inr a \<Rightarrow> k a)"

fun smap :: "('a \<Rightarrow> 'e + 'b) \<Rightarrow> 'a list \<Rightarrow> 'e + 'b list" where
  "smap f [] = Inr []"
| "smap f (x # xs) = sbind (f x) (\<lambda>y. sbind (smap f xs) (\<lambda>ys. Inr (y # ys)))"

fun sfold :: "('a \<Rightarrow> 'b \<Rightarrow> 'e + 'b) \<Rightarrow> 'a list \<Rightarrow> 'b \<Rightarrow> 'e + 'b" where
  "sfold f [] acc = Inr acc"
| "sfold f (x # xs) acc = sbind (f x acc) (sfold f xs)"

lemma sbind_simps [simp]:
  "sbind (Inl e) k = Inl e"
  "sbind (Inr a) k = k a"
  by (simp_all add: sbind_def)

lemma sbind_eq_Inr [simp]: "sbind r k = Inr b \<longleftrightarrow> (\<exists>a. r = Inr a \<and> k a = Inr b)"
  by (cases r) simp_all

lemma sbind_split: "P (sbind r k) \<longleftrightarrow> (\<forall>e. r = Inl e \<longrightarrow> P (Inl e)) \<and> (\<forall>a. r = Inr a \<longrightarrow> P (k a))"
  by (cases r) simp_all

lemma sbind_Inr_right [simp]: "sbind r Inr = r"
  by (cases r) simp_all

lemma sfold_inv:
  assumes "\<And>x a b. I a \<Longrightarrow> f x a = Inr b \<Longrightarrow> I b" and "I a" and "sfold f xs a = Inr b"
  shows "I b"
  using assms(2,3) by (induction xs arbitrary: a) (auto intro: assms(1))

lemma sfold_append: "sfold f (xs @ ys) a = sbind (sfold f xs a) (sfold f ys)"
  by (induction xs arbitrary: a) (auto simp: sbind_def split: sum.split)

lemma sfold_snoc: "sfold f (xs @ [x]) a = sbind (sfold f xs a) (f x)"
  by (simp add: sfold_append) (simp add: sbind_def split: sum.split)

lemma smap_eq_Inr: "smap f xs = Inr ys \<longleftrightarrow> list_all2 (\<lambda>x y. f x = Inr y) xs ys"
  by (induction xs arbitrary: ys) (auto simp: list_all2_Cons1)

subsection \<open>Evaluation\<close>

lemmas prog_defs = ret_def raise_def bnd_def handle_def outcome_of_def look_def update_def lift_sum_def

lemma bnd_ret [simp]: "bnd (ret a) k = k a"
  by (simp add: bnd_def ret_def)

lemma bnd_raise [simp]: "bnd (raise e) k = raise e"
  by (simp add: bnd_def raise_def)

lemma bnd_assoc: "bnd (bnd m f) g = bnd m (\<lambda>a. bnd (f a) g)"
  by (simp add: bnd_def fun_eq_iff split: prod.split sum.split)

lemma handle_ret [simp]: "handle (ret a) h = ret a"
  by (simp add: handle_def ret_def)

lemma handle_raise [simp]: "handle (raise e) h = h e"
  by (simp add: handle_def raise_def fun_eq_iff)

lemma bnd_Inr: "m s = (Inr a, s') \<Longrightarrow> bnd m k s = k a s'"
  by (simp add: bnd_def)

lemma bnd_Inl: "m s = (Inl e, s') \<Longrightarrow> bnd m k s = (Inl e, s')"
  by (simp add: bnd_def)

lemma bnd_eq_Inr:
  "bnd m k s = (Inr b, t) \<longleftrightarrow> (\<exists>a s'. m s = (Inr a, s') \<and> k a s' = (Inr b, t))"
  by (auto simp: bnd_def split: prod.split sum.split)

lemma bnd_eq_Inl:
  "bnd m k s = (Inl e, t) \<longleftrightarrow> m s = (Inl e, t) \<or> (\<exists>a s'. m s = (Inr a, s') \<and> k a s' = (Inl e, t))"
  by (auto simp: bnd_def split: prod.split sum.split)

lemma handle_eq_Inr:
  "handle m h s = (Inr b, t) \<longleftrightarrow> m s = (Inr b, t) \<or> (\<exists>e s'. m s = (Inl e, s') \<and> h e s' = (Inr b, t))"
  by (auto simp: handle_def split: prod.split sum.split)

lemma handle_eq_Inl:
  "handle m h s = (Inl e, t) \<longleftrightarrow> (\<exists>e' s'. m s = (Inl e', s') \<and> h e' s' = (Inl e, t))"
  by (auto simp: handle_def split: prod.split sum.split)

lemma ret_eq [simp]: "ret a s = (r, t) \<longleftrightarrow> r = Inr a \<and> t = s"
  by (auto simp: ret_def)

lemma raise_eq [simp]: "raise e s = (r, t) \<longleftrightarrow> r = Inl e \<and> t = s"
  by (auto simp: raise_def)

lemma look_eq [simp]: "look f s = (r, t) \<longleftrightarrow> r = Inr (f s) \<and> t = s"
  by (auto simp: look_def)

lemma update_eq [simp]: "update f s = (r, t) \<longleftrightarrow> r = Inr () \<and> t = f s"
  by (auto simp: update_def)

lemmas prog_eqs = bnd_eq_Inr bnd_eq_Inl handle_eq_Inr handle_eq_Inl

section \<open>Weakest preconditions\<close>

definition wp :: "('s, 'e, 'a) prog \<Rightarrow> ('a \<Rightarrow> 's \<Rightarrow> bool) \<Rightarrow> ('e \<Rightarrow> 's \<Rightarrow> bool) \<Rightarrow> 's \<Rightarrow> bool" where
  "wp m Q E s = (case m s of (Inr a, s') \<Rightarrow> Q a s' | (Inl e, s') \<Rightarrow> E e s')"

lemma wp_ret [wp_simps]: "wp (ret a) Q E = Q a"
  by (simp add: wp_def ret_def fun_eq_iff)

lemma wp_raise [wp_simps]: "wp (raise e) Q E = E e"
  by (simp add: wp_def raise_def fun_eq_iff)

lemma wp_bnd [wp_simps]: "wp (bnd m k) Q E s = wp m (\<lambda>a. wp (k a) Q E) E s"
  by (simp add: wp_def bnd_def split: prod.split sum.split)

lemma wp_handle [wp_simps]: "wp (handle m h) Q E s = wp m Q (\<lambda>e. wp (h e) Q E) s"
  by (simp add: wp_def handle_def split: prod.split sum.split)

lemma wp_outcome_of [wp_simps]:
  "wp (outcome_of m) Q E s = wp m (\<lambda>a. Q (Inr a)) (\<lambda>e. Q (Inl e)) s"
  by (simp add: wp_def outcome_of_def split: prod.split sum.split)

lemma wp_look [wp_simps]: "wp (look f) Q E s = Q (f s) s"
  by (simp add: wp_def look_def)

lemma wp_update [wp_simps]: "wp (update f) Q E s = Q () (f s)"
  by (simp add: wp_def update_def)

lemma wp_lift_sum [wp_simps]:
  "wp (lift_sum r) Q E s = (case r of Inl e \<Rightarrow> E e s | Inr a \<Rightarrow> Q a s)"
  by (simp add: wp_def lift_sum_def split: sum.split)

lemma wp_if [wp_simps]: "wp (if c then m else n) Q E s = (if c then wp m Q E s else wp n Q E s)"
  by simp

lemma wp_case_option [wp_simps]:
  "wp (case x of None \<Rightarrow> m | Some a \<Rightarrow> n a) Q E s
     = (case x of None \<Rightarrow> wp m Q E s | Some a \<Rightarrow> wp (n a) Q E s)"
  by (simp split: option.split)

lemma wp_case_sum [wp_simps]:
  "wp (case x of Inl a \<Rightarrow> m a | Inr b \<Rightarrow> n b) Q E s
     = (case x of Inl a \<Rightarrow> wp (m a) Q E s | Inr b \<Rightarrow> wp (n b) Q E s)"
  by (simp split: sum.split)

lemma wp_case_prod [wp_simps]:
  "wp (case x of (a, b) \<Rightarrow> m a b) Q E s = (case x of (a, b) \<Rightarrow> wp (m a b) Q E s)"
  by (simp split: prod.split)

lemma wp_let [wp_simps]: "wp (let x = a in m x) Q E s = (let x = a in wp (m x) Q E s)"
  by (simp add: Let_def)

lemma wp_mono:
  assumes "wp m Q E s"
    and "\<And>a t. m s = (Inr a, t) \<Longrightarrow> Q a t \<Longrightarrow> Q' a t"
    and "\<And>e t. m s = (Inl e, t) \<Longrightarrow> E e t \<Longrightarrow> E' e t"
  shows "wp m Q' E' s"
  using assms by (auto simp: wp_def split: prod.splits sum.splits)

lemma wp_conj: "wp m Q E s \<Longrightarrow> wp m Q' E' s \<Longrightarrow> wp m (\<lambda>a t. Q a t \<and> Q' a t) (\<lambda>e t. E e t \<and> E' e t) s"
  by (auto simp: wp_def split: prod.splits sum.splits)

lemma wp_Inr: "m s = (Inr a, t) \<Longrightarrow> wp m Q E s \<Longrightarrow> Q a t"
  by (simp add: wp_def)

lemma wp_Inl: "m s = (Inl e, t) \<Longrightarrow> wp m Q E s \<Longrightarrow> E e t"
  by (simp add: wp_def)

lemma wp_end: "wp m (\<lambda>_. P) (\<lambda>_. P) s \<longleftrightarrow> P (snd (m s))"
  by (simp add: wp_def split: prod.split sum.split)

lemma wpI:
  assumes "\<And>a t. m s = (Inr a, t) \<Longrightarrow> Q a t" and "\<And>e t. m s = (Inl e, t) \<Longrightarrow> E e t"
  shows "wp m Q E s"
  using assms by (simp add: wp_def split: prod.split sum.split)

section \<open>Preserved predicates\<close>

definition keeps :: "('s \<Rightarrow> bool) \<Rightarrow> ('s, 'e, 'a) prog \<Rightarrow> bool" where
  "keeps P m \<longleftrightarrow> (\<forall>s. P s \<longrightarrow> P (snd (m s)))"

lemma keepsD: "keeps P m \<Longrightarrow> m s = (r, t) \<Longrightarrow> P s \<Longrightarrow> P t"
  by (metis keeps_def snd_conv)

lemma keeps_wp: "keeps P m \<Longrightarrow> P s \<Longrightarrow> wp m (\<lambda>_. P) (\<lambda>_. P) s"
  by (simp add: wp_end keeps_def)

lemma keeps_wpI: "(\<And>s. P s \<Longrightarrow> wp m (\<lambda>_. P) (\<lambda>_. P) s) \<Longrightarrow> keeps P m"
  by (simp add: wp_end keeps_def)

lemma keeps_ret [keeps_rules, simp]: "keeps P (ret a)"
  by (simp add: keeps_def ret_def)

lemma keeps_raise [keeps_rules, simp]: "keeps P (raise e)"
  by (simp add: keeps_def raise_def)

lemma keeps_look [keeps_rules, simp]: "keeps P (look f)"
  by (simp add: keeps_def look_def)

lemma keeps_lift_sum [keeps_rules, simp]: "keeps P (lift_sum r)"
  by (simp add: keeps_def lift_sum_def)

lemma keeps_bnd [keeps_rules]:
  assumes "keeps P m" and "\<And>a. keeps P (k a)" shows "keeps P (bnd m k)"
  using assms by (simp add: keeps_def bnd_def split: prod.split sum.split) (metis snd_conv)

lemma keeps_handle [keeps_rules]:
  assumes "keeps P m" and "\<And>e. keeps P (h e)" shows "keeps P (handle m h)"
  using assms by (simp add: keeps_def handle_def split: prod.split sum.split) (metis snd_conv)

lemma keeps_outcome_of [keeps_rules]: "keeps P m \<Longrightarrow> keeps P (outcome_of m)"
  by (simp add: keeps_def outcome_of_def split: prod.split) (metis snd_conv)

lemma keeps_update [keeps_rules]: "(\<And>s. P s \<Longrightarrow> P (f s)) \<Longrightarrow> keeps P (update f)"
  by (simp add: keeps_def update_def)

lemma keeps_if [keeps_rules]:
  "(c \<Longrightarrow> keeps P m) \<Longrightarrow> (\<not> c \<Longrightarrow> keeps P n) \<Longrightarrow> keeps P (if c then m else n)"
  by simp

lemma keeps_case_option [keeps_rules]:
  "keeps P m \<Longrightarrow> (\<And>a. keeps P (n a)) \<Longrightarrow> keeps P (case x of None \<Rightarrow> m | Some a \<Rightarrow> n a)"
  by (simp split: option.split)

lemma keeps_case_sum [keeps_rules]:
  "(\<And>a. keeps P (m a)) \<Longrightarrow> (\<And>b. keeps P (n b)) \<Longrightarrow> keeps P (case x of Inl a \<Rightarrow> m a | Inr b \<Rightarrow> n b)"
  by (simp split: sum.split)

lemma keeps_case_prod [keeps_rules]:
  "(\<And>a b. keeps P (m a b)) \<Longrightarrow> keeps P (case x of (a, b) \<Rightarrow> m a b)"
  by (simp split: prod.split)

lemma keeps_let [keeps_rules]: "(\<And>x. keeps P (m x)) \<Longrightarrow> keeps P (let x = a in m x)"
  by (simp add: Let_def)

lemma keeps_for_each [keeps_rules]:
  assumes "\<And>x. keeps P (f x)" shows "keeps P (for_each f xs)"
  by (induction xs) (auto intro!: keeps_rules assms)

lemma keeps_map_prog [keeps_rules]:
  assumes "\<And>x. keeps P (f x)" shows "keeps P (map_prog f xs)"
  by (induction xs) (auto intro!: keeps_rules assms)

section \<open>Local variables\<close>

text \<open>
  A method whose local variables are still read after an exception (in its except clause) is a
  program on the pair of the world and the locals: `lifted` runs a program of the world inside it,
  `with_locals` runs it as a whole and hands out how it ended together with the locals.
\<close>

definition lifted :: "('s, 'e, 'a) prog \<Rightarrow> ('s \<times> 'l, 'e, 'a) prog" where
  "lifted m = (\<lambda>(w, l). case m w of (r, w') \<Rightarrow> (r, (w', l)))"

definition locals :: "('l \<Rightarrow> 'l) \<Rightarrow> ('s \<times> 'l, 'e, unit) prog" where
  "locals f = update (\<lambda>(w, l). (w, f l))"

definition local :: "('l \<Rightarrow> 'a) \<Rightarrow> ('s \<times> 'l, 'e, 'a) prog" where
  "local f = look (\<lambda>(w, l). f l)"

definition with_locals :: "'l \<Rightarrow> ('s \<times> 'l, 'e, 'a) prog \<Rightarrow> ('s, 'f, ('e + 'a) \<times> 'l) prog" where
  "with_locals l m = (\<lambda>w. case m (w, l) of (r, (w', l')) \<Rightarrow> (Inr (r, l'), w'))"

lemma wp_lifted [wp_simps]:
  "wp (lifted m) Q E (w, l) = wp m (\<lambda>a w'. Q a (w', l)) (\<lambda>e w'. E e (w', l)) w"
  by (simp add: wp_def lifted_def split: prod.split sum.split)

lemma wp_locals [wp_simps]: "wp (locals f) Q E (w, l) = Q () (w, f l)"
  by (simp add: locals_def wp_simps)

lemma wp_local [wp_simps]: "wp (local f) Q E (w, l) = Q (f l) (w, l)"
  by (simp add: local_def wp_simps)

lemma wp_with_locals [wp_simps]:
  "wp (with_locals l m) Q E w = wp m (\<lambda>a (w', l'). Q (Inr a, l') w') (\<lambda>e (w', l'). Q (Inl e, l') w') (w, l)"
  by (simp add: wp_def with_locals_def split: prod.split sum.split)

text \<open>A predicate of the world alone, seen in the pair.\<close>

definition of_world :: "('s \<Rightarrow> bool) \<Rightarrow> 's \<times> 'l \<Rightarrow> bool" where
  "of_world P = (\<lambda>(w, l). P w)"

lemma keeps_lifted [keeps_rules]: "keeps P m \<Longrightarrow> keeps (of_world P) (lifted m)"
  by (auto simp: keeps_def lifted_def of_world_def split: prod.splits)

lemma keeps_locals [keeps_rules]: "keeps (of_world P) (locals f)"
  by (auto simp: locals_def of_world_def intro!: keeps_update)

lemma keeps_local [keeps_rules]: "keeps P (local f)"
  by (simp add: local_def)

lemma keeps_with_locals [keeps_rules]:
  assumes "keeps (of_world P) m" shows "keeps P (with_locals l m)"
  unfolding keeps_def
proof (intro allI impI)
  fix w assume "P w"
  obtain r w' l' where m: "m (w, l) = (r, (w', l'))" by (metis prod.exhaust)
  have "of_world P (w', l')" using assms m by (rule keepsD) (simp add: of_world_def \<open>P w\<close>)
  with m show "P (snd (with_locals l m w))" by (simp add: with_locals_def of_world_def)
qed

section \<open>Which exceptions a program can raise\<close>

named_theorems raises_rules \<open>how the combinators bound the exceptions\<close>

definition raises :: "('e \<Rightarrow> bool) \<Rightarrow> ('s, 'e, 'a) prog \<Rightarrow> bool" where
  "raises X m \<longleftrightarrow> (\<forall>s e t. m s = (Inl e, t) \<longrightarrow> X e)"

lemma raisesD: "raises X m \<Longrightarrow> m s = (Inl e, t) \<Longrightarrow> X e"
  by (auto simp: raises_def)

lemma raises_ret [raises_rules]: "raises X (ret a)"
  by (simp add: raises_def ret_def)

lemma raises_raise [raises_rules]: "X e \<Longrightarrow> raises X (raise e)"
  by (simp add: raises_def raise_def)

lemma raises_look [raises_rules]: "raises X (look f)"
  by (simp add: raises_def look_def)

lemma raises_update [raises_rules]: "raises X (update f)"
  by (simp add: raises_def update_def)

lemma raises_bnd [raises_rules]: "raises X m \<Longrightarrow> (\<And>a. raises X (k a)) \<Longrightarrow> raises X (bnd m k)"
  unfolding raises_def by (metis bnd_eq_Inl)

lemma raises_if [raises_rules]:
  "(c \<Longrightarrow> raises X m) \<Longrightarrow> (\<not> c \<Longrightarrow> raises X n) \<Longrightarrow> raises X (if c then m else n)"
  by simp

lemma raises_case_option [raises_rules]:
  "raises X m \<Longrightarrow> (\<And>a. raises X (n a)) \<Longrightarrow> raises X (case x of None \<Rightarrow> m | Some a \<Rightarrow> n a)"
  by (simp split: option.split)

lemma raises_let [raises_rules]: "(\<And>x. raises X (m x)) \<Longrightarrow> raises X (let x = a in m x)"
  by (simp add: Let_def)

text \<open>A program that keeps `P` and raises only `X`: its weakest precondition.\<close>

lemma wp_keeps:
  assumes "keeps P m" and "raises X m" and "P s"
    and "\<And>a t. P t \<Longrightarrow> Q a t" and "\<And>e t. P t \<Longrightarrow> X e \<Longrightarrow> E e t"
  shows "wp m Q E s"
proof (rule wpI)
  fix a t assume "m s = (Inr a, t)"
  then show "Q a t" using assms(1,3,4) keepsD by metis
next
  fix e t assume m: "m s = (Inl e, t)"
  then have "X e" using assms(2) raisesD by metis
  moreover have "P t" using m assms(1,3) keepsD by metis
  ultimately show "E e t" using assms(5) by blast
qed

lemma wp_kept:
  assumes "keeps P m" and "P s" and "\<And>a t. P t \<Longrightarrow> Q a t" and "\<And>e t. P t \<Longrightarrow> E e t"
  shows "wp m Q E s"
  by (rule wp_keeps [where X = "\<lambda>_. True", OF assms(1) _ assms(2)]) (auto simp: raises_def intro: assms(3,4))

lemma wp_any: "(\<And>a t. Q a t) \<Longrightarrow> wp m Q (\<lambda>_ _. True) s"
  by (rule wpI) auto

section \<open>State machines run over a list of events\<close>

text \<open>
  A component whose operations are functions from state and event to state.  What one step keeps,
  every run keeps; what one step relates, a run relates.
\<close>

locale machine =
  fixes step :: "'s \<Rightarrow> 'e \<Rightarrow> 's"
    and inv :: "'s \<Rightarrow> bool"
  assumes step_inv: "inv s \<Longrightarrow> inv (step s e)"
begin

lemma run_inv: "inv s \<Longrightarrow> inv (foldl step s es)"
  by (induction es arbitrary: s) (auto intro: step_inv)

lemma run_prefix_inv: "inv s \<Longrightarrow> inv (foldl step s (take n es))"
  by (rule run_inv)

end

section \<open>Loops\<close>

text \<open>
  A `while True` whose body says whether it goes on (`Inl`, with the loop's new
  variables) or leaves (`Inr`).  The fuel bounds the iterations; None says that it ran out.
\<close>

fun loop :: "nat \<Rightarrow> ('a \<Rightarrow> ('s, 'e, 'a + 'b) prog) \<Rightarrow> 'a \<Rightarrow> ('s, 'e, 'b option) prog" where
  "loop 0 body a = ret None"
| "loop (Suc n) body a = bnd (body a) (\<lambda>r. case r of Inl a' \<Rightarrow> loop n body a' | Inr b \<Rightarrow> ret (Some b))"

lemma keeps_loop [keeps_rules]:
  assumes "\<And>a. keeps P (body a)" shows "keeps P (loop n body a)"
  by (induction n arbitrary: a) (auto intro!: keeps_rules assms)

text \<open>
  A loop whose every round uses up some of a finite stock: it never runs out of fuel that
  exceeds the stock, and more fuel changes nothing.
\<close>

locale draining =
  fixes body :: "'a \<Rightarrow> ('s, 'e, 'a + 'b) prog"
    and inv :: "'a \<Rightarrow> 's \<Rightarrow> bool"
    and stock :: "'a \<Rightarrow> 's \<Rightarrow> nat"
  assumes round: "inv a s \<Longrightarrow> body a s = (Inr (Inl a'), s') \<Longrightarrow> inv a' s' \<and> stock a' s' < stock a s"
begin

lemma never_dry: "inv a s \<Longrightarrow> stock a s < n \<Longrightarrow> loop n body a s \<noteq> (Inr None, t)"
proof (induction n arbitrary: a s)
  case 0
  then show ?case by simp
next
  case (Suc n)
  show ?case
  proof
    assume "loop (Suc n) body a s = (Inr None, t)"
    then obtain r s' where body: "body a s = (Inr r, s')"
      and rest: "(case r of Inl a' \<Rightarrow> loop n body a' | Inr b \<Rightarrow> ret (Some b)) s' = (Inr None, t)"
      by (auto simp: bnd_eq_Inr)
    from rest obtain a' where "r = Inl a'" "loop n body a' s' = (Inr None, t)"
      by (cases r) auto
    with body Suc round [of a s a' s'] show False by (metis less_Suc_eq_le order_less_le_trans)
  qed
qed

lemma fuel_enough: "inv a s \<Longrightarrow> stock a s < n \<Longrightarrow> n \<le> m \<Longrightarrow> loop m body a s = loop n body a s"
proof (induction n arbitrary: a s m)
  case 0
  then show ?case by simp
next
  case (Suc n)
  then obtain k where m: "m = Suc k" "n \<le> k" by (metis Suc_le_D Suc_le_mono)
  show ?case
  proof (cases "body a s")
    case (Pair r s')
    have "loop k body a' s' = loop n body a' s'" if "r = Inr (Inl a')" for a'
      using Suc round [of a s a' s'] m(2) Pair that by (metis less_Suc_eq_le order_less_le_trans)
    then show ?thesis using m(1) Pair by (auto simp: bnd_def split: sum.split)
  qed
qed

end

section \<open>Ordered dictionaries and lists\<close>

text \<open>
  A Python dict keeps its insertion order; it is an association list with distinct keys, written
  by `AList.update`: a key that is present keeps its place and takes the new value, a new
  key goes to the end.
\<close>

type_synonym ('k, 'v) dict = "('k \<times> 'v) list"

definition setdefault :: "'k \<Rightarrow> 'v \<Rightarrow> ('k, 'v) dict \<Rightarrow> ('k, 'v) dict" where
  "setdefault k v d = (if k \<in> fst ` set d then d else d @ [(k, v)])"

lemma distinct_setdefault: "distinct (map fst d) \<Longrightarrow> distinct (map fst (setdefault k v d))"
  by (auto simp: setdefault_def)

lemma map_of_setdefault:
  "map_of (setdefault k v d) j = (if j = k \<and> map_of d k = None then Some v else map_of d j)"
proof (cases "k \<in> fst ` set d")
  case True
  then have "map_of d k \<noteq> None" by (simp add: map_of_eq_None_iff)
  with True show ?thesis by (simp add: setdefault_def)
next
  case False
  then have "map_of d k = None" by (simp add: map_of_eq_None_iff)
  with False show ?thesis by (auto simp: setdefault_def map_add_def split: option.split)
qed

lemma keys_setdefault: "fst ` set (setdefault k v d) = insert k (fst ` set d)"
  by (auto simp: setdefault_def)

text \<open>`uniq` is `list(dict.fromkeys(xs))`: first occurrences, in order.\<close>

definition uniq :: "'a list \<Rightarrow> 'a list" where
  "uniq xs = rev (remdups (rev xs))"

lemma set_uniq [simp]: "set (uniq xs) = set xs"
  by (simp add: uniq_def)

lemma distinct_uniq [simp]: "distinct (uniq xs)"
  by (simp add: uniq_def)

lemma uniq_Nil [simp]: "uniq [] = []"
  by (simp add: uniq_def)

lemma uniq_snoc: "uniq (xs @ [x]) = (if x \<in> set xs then uniq xs else uniq xs @ [x])"
  by (simp add: uniq_def)

lemma uniq_distinct [simp]: "distinct xs \<Longrightarrow> uniq xs = xs"
  by (simp add: uniq_def distinct_remdups_id)

text \<open>`chunks` is the loop over `range(0, len(xs), n)` with the slices it takes.\<close>

function chunks :: "nat \<Rightarrow> 'a list \<Rightarrow> 'a list list" where
  "chunks n xs = (if n = 0 \<or> xs = [] then [] else take n xs # chunks n (drop n xs))"
  by pat_completeness auto
termination
  by (relation "measure (\<lambda>(n, xs). length xs)") auto

declare chunks.simps [simp del]

lemma chunks_Nil [simp]: "chunks n [] = []"
  by (subst chunks.simps) simp

lemma concat_chunks: "0 < n \<Longrightarrow> concat (chunks n xs) = xs"
proof (induction n xs rule: chunks.induct)
  case (1 n xs)
  then show ?case by (subst chunks.simps) auto
qed

lemma length_chunk: "c \<in> set (chunks n xs) \<Longrightarrow> length c \<le> n"
proof (induction n xs rule: chunks.induct)
  case (1 n xs)
  show ?case
  proof (cases "n = 0 \<or> xs = []")
    case True
    with "1.prems" show ?thesis by (simp add: chunks.simps [of n xs])
  next
    case False
    with "1" show ?thesis by (auto simp: chunks.simps [of n xs])
  qed
qed

lemma filter_eq_remove:
  "distinct (map f xs) \<Longrightarrow> x \<in> set xs \<Longrightarrow> filter (\<lambda>y. f y = f x) xs = [x]"
  by (induction xs) (auto simp: filter_empty_conv image_iff)

end
