(* ===== verification/Py_Values.thy ===== *)
theory Py_Values
  imports Prelude
begin

text \<open>
  The Python values the program computes with: the result of `json.loads`, strings, integers
  and their conversions.  A string is a list of characters of the Latin-1 range (Isabelle's
  `char`); the character classes below are Python's on that range.  A float is either a
  rational (the number its `repr` denotes), an infinity or NaN: `json.loads` accepts
  the last two, and reads a numeral such as `1e999` as an infinity.  Python's int is
  `int`.  Three functions of the standard library stay parameters, in the record
  `pylib`: the HTML entity table, the ISO date parser and SHA-256.
\<close>

datatype py_exn = TypeError | ValueError | OverflowError | AttributeError | ZeroDivisionError
  | UnboundLocalError | KeyError
  | LibraryError string  \<comment> \<open>any other exception of a library, by its class name\<close>

datatype pyfloat = FNum rat | FInf bool | FNaN

datatype json =
    JNull
  | JBool bool
  | JInt int
  | JFloat pyfloat
  | JStr string
  | JList "json list"
  | JObj "(string \<times> json) list"

type_synonym datetime = int  \<comment> \<open>microseconds since the epoch, UTC\<close>

record pylib =
  unescape :: "string \<Rightarrow> string"               \<comment> \<open>`html.unescape`\<close>
  fromisoformat :: "string \<Rightarrow> datetime option"  \<comment> \<open>None where the method raises ValueError\<close>
  sha256_hex :: "string \<Rightarrow> string"

section \<open>Truth, attribute access\<close>

fun truthy :: "json \<Rightarrow> bool" where
  "truthy JNull = False"
| "truthy (JBool b) = b"
| "truthy (JInt i) = (i \<noteq> 0)"
| "truthy (JFloat (FNum q)) = (q \<noteq> 0)"
| "truthy (JFloat _) = True"
| "truthy (JStr s) = (s \<noteq> [])"
| "truthy (JList xs) = (xs \<noteq> [])"
| "truthy (JObj kvs) = (kvs \<noteq> [])"

definition py_or :: "json \<Rightarrow> json \<Rightarrow> json" where
  "py_or a b = (if truthy a then a else b)"

fun is_dict :: "json \<Rightarrow> bool" where
  "is_dict (JObj _) = True"
| "is_dict _ = False"

fun is_list :: "json \<Rightarrow> bool" where
  "is_list (JList _) = True"
| "is_list _ = False"

text \<open>`value.get(key)`: None for a missing key, AttributeError on anything but a dict.\<close>

fun dget :: "json \<Rightarrow> string \<Rightarrow> py_exn + json" where
  "dget (JObj kvs) k = Inr (case map_of kvs k of None \<Rightarrow> JNull | Some v \<Rightarrow> v)"
| "dget _ k = Inl AttributeError"

text \<open>The same on a value already known to be a dict (after an `isinstance` test).\<close>

fun field :: "json \<Rightarrow> string \<Rightarrow> json" where
  "field (JObj kvs) k = (case map_of kvs k of None \<Rightarrow> JNull | Some v \<Rightarrow> v)"
| "field _ k = JNull"

text \<open>`items if isinstance(items, list) else []`\<close>

fun list_items :: "json \<Rightarrow> json list" where
  "list_items (JList xs) = xs"
| "list_items _ = []"

lemma dget_dict [simp]: "is_dict j \<Longrightarrow> dget j k = Inr (field j k)"
  by (cases j) simp_all

section \<open>Strings\<close>

definition is_space :: "char \<Rightarrow> bool" where
  "is_space c = (let n = (of_char c :: nat) in
     (9 \<le> n \<and> n \<le> 13) \<or> (28 \<le> n \<and> n \<le> 32) \<or> n = 133 \<or> n = 160)"

definition strip :: "string \<Rightarrow> string" where
  "strip s = rev (dropWhile is_space (rev (dropWhile is_space s)))"

definition lower_char :: "char \<Rightarrow> char" where
  "lower_char c = (let n = (of_char c :: nat) in
     if (65 \<le> n \<and> n \<le> 90) \<or> (192 \<le> n \<and> n \<le> 222 \<and> n \<noteq> 215) then char_of (n + 32) else c)"

definition lower :: "string \<Rightarrow> string" where
  "lower s = map lower_char s"

fun prefix_of :: "string \<Rightarrow> string \<Rightarrow> bool" where
  "prefix_of [] s = True"
| "prefix_of (p # ps) [] = False"
| "prefix_of (p # ps) (c # cs) = (p = c \<and> prefix_of ps cs)"

text \<open>`s.replace(p, '')`: occurrences from the left, not overlapping.\<close>

function remove_all :: "string \<Rightarrow> string \<Rightarrow> string" where
  "remove_all p s = (if p = [] then s else case s of [] \<Rightarrow> []
     | c # cs \<Rightarrow> if prefix_of p s then remove_all p (drop (length p) s) else c # remove_all p cs)"
  by pat_completeness auto
termination
  by (relation "measure (\<lambda>(p, s). length s)") (auto split: list.splits)

declare remove_all.simps [simp del]

lemma dropWhile_head: "dropWhile P xs = y # ys \<Longrightarrow> \<not> P y"
  by (induction xs) (auto split: if_splits)

lemma strip_head: "strip s = c # cs \<Longrightarrow> \<not> is_space c"
proof -
  assume s: "strip s = c # cs"
  let ?u = "dropWhile is_space s"
  from s have "dropWhile is_space (rev ?u) = rev cs @ [c]"
    by (metis strip_def rev.simps(2) rev_swap)
  then have "c \<in> set ?u" and suffix: "\<exists>zs. rev ?u = zs @ rev cs @ [c]"
    by (metis in_set_conv_decomp set_dropWhileD set_rev append_is_Nil_conv)
      (metis \<open>dropWhile is_space (rev ?u) = rev cs @ [c]\<close> takeWhile_dropWhile_id)
  from suffix obtain zs where "rev ?u = zs @ rev cs @ [c]" by blast
  then have "?u = c # cs @ rev zs"
    by (metis append.assoc rev.simps(2) rev_append rev_rev_ident append_Cons append_Nil rev_swap)
  then show "\<not> is_space c" by (rule dropWhile_head)
qed

lemma dropWhile_idem [simp]: "dropWhile P (dropWhile P xs) = dropWhile P xs"
  by (induction xs) auto

lemma dropWhile_id: "(xs \<noteq> [] \<longrightarrow> \<not> P (hd xs)) \<Longrightarrow> dropWhile P xs = xs"
  by (cases xs) auto

lemma strip_idem [simp]: "strip (strip s) = strip s"
proof -
  have "dropWhile is_space (strip s) = strip s"
    by (rule dropWhile_id) (metis strip_head hd_Cons_tl)
  then show ?thesis by (simp add: strip_def)
qed

lemma lower_char_idem: "lower_char (lower_char c) = lower_char c"
  by (auto simp: lower_char_def Let_def)

lemma lower_idem [simp]: "lower (lower s) = lower s"
  by (simp add: lower_def lower_char_idem)

section \<open>Integers as text\<close>

definition is_digit :: "char \<Rightarrow> bool" where
  "is_digit c = (let n = (of_char c :: nat) in 48 \<le> n \<and> n \<le> 57)"

definition digit_val :: "char \<Rightarrow> nat" where
  "digit_val c = of_char c - 48"

definition digit_char :: "nat \<Rightarrow> char" where
  "digit_char d = char_of (48 + d)"

fun digits :: "nat \<Rightarrow> string" where
  "digits n = (if n < 10 then [digit_char n] else digits (n div 10) @ [digit_char (n mod 10)])"

declare digits.simps [simp del]

text \<open>`str(i)`\<close>

definition str_int :: "int \<Rightarrow> string" where
  "str_int i = (if i < 0 then CHR ''-'' # digits (nat (- i)) else digits (nat i))"

text \<open>
  `int(s)`: spaces around, a sign, digits with single underscores between them.  None is a
  ValueError, which more than 4300 digits raise as well.
\<close>

fun scan_digits :: "nat \<Rightarrow> string \<Rightarrow> nat option" where
  "scan_digits acc [] = Some acc"
| "scan_digits acc (c # cs) =
     (if is_digit c then scan_digits (10 * acc + digit_val c) cs
      else if c = CHR ''_'' then
        (case cs of [] \<Rightarrow> None
         | d # ds \<Rightarrow> if is_digit d then scan_digits (10 * acc + digit_val d) ds else None)
      else None)"

definition parse_nat :: "string \<Rightarrow> nat option" where
  "parse_nat s = (case s of [] \<Rightarrow> None
     | c # cs \<Rightarrow> if is_digit c then scan_digits (digit_val c) cs else None)"

definition parse_signed :: "string \<Rightarrow> int option" where
  "parse_signed t = (case t of [] \<Rightarrow> None
     | c # cs \<Rightarrow> if c = CHR ''-'' then map_option (\<lambda>n. - int n) (parse_nat cs)
               else if c = CHR ''+'' then map_option int (parse_nat cs)
               else map_option int (parse_nat t))"

text \<open>
  `int(s)` drops the spaces of C's `isspace` around an ASCII text; in any other text every space of
  Unicode counts as one.
\<close>

definition int_space :: "string \<Rightarrow> char \<Rightarrow> bool" where
  "int_space s c = (let n = (of_char c :: nat) in
     (9 \<le> n \<and> n \<le> 13) \<or> n = 32 \<or> (list_ex (\<lambda>d. 128 \<le> (of_char d :: nat)) s \<and> is_space c))"

definition int_strip :: "string \<Rightarrow> string" where
  "int_strip s = rev (dropWhile (int_space s) (rev (dropWhile (int_space s) s)))"

lemma int_space_space: "int_space s c \<Longrightarrow> is_space c"
  by (auto simp: int_space_def is_space_def Let_def)

lemma int_strip_no_space:
  assumes "\<And>c. c \<in> set s \<Longrightarrow> \<not> is_space c" shows "int_strip s = s"
proof -
  have "dropWhile (int_space s) t = t" if "set t \<subseteq> set s" for t
    using that assms int_space_space [of s] by (cases t) auto
  then show ?thesis by (simp add: int_strip_def)
qed

definition py_int_of_str :: "string \<Rightarrow> int option" where
  "py_int_of_str s = (let t = int_strip s in
     if length (filter is_digit t) > 4300 then None else parse_signed t)"

lemma digit_char_props:
  assumes "d < 10"
  shows "is_digit (digit_char d)" and "digit_val (digit_char d) = d" and "digit_char d \<noteq> CHR ''-''"
    and "digit_char d \<noteq> CHR ''+''" and "\<not> is_space (digit_char d)"
proof -
  have d: "d \<in> {0, 1, 2, 3, 4, 5, 6, 7, 8, 9}" using assms by auto
  show "is_digit (digit_char d)" using assms by (simp add: is_digit_def digit_char_def)
  show "digit_val (digit_char d) = d" using assms by (simp add: digit_val_def digit_char_def)
  show "digit_char d \<noteq> CHR ''-''" "digit_char d \<noteq> CHR ''+''" "\<not> is_space (digit_char d)"
    using d by (auto simp: digit_char_def char_of_def is_space_def)
qed

lemma digits_cases: "\<exists>d ds. digits n = digit_char d # ds \<and> d < 10"
proof (induction n rule: digits.induct)
  case (1 n)
  then show ?case by (cases "n < 10") (auto simp: digits.simps [of n])
qed

lemma scan_digits_append:
  "d < 10 \<Longrightarrow> scan_digits acc s = Some v \<Longrightarrow> scan_digits acc (s @ [digit_char d]) = Some (10 * v + d)"
  by (induction acc s rule: scan_digits.induct)
    (auto simp: digit_char_props split: if_splits list.splits)

lemma parse_nat_snoc:
  "d < 10 \<Longrightarrow> parse_nat s = Some v \<Longrightarrow> parse_nat (s @ [digit_char d]) = Some (10 * v + d)"
  by (auto simp: parse_nat_def scan_digits_append split: list.splits if_splits)

lemma parse_nat_digits [simp]: "parse_nat (digits n) = Some n"
proof (induction n rule: digits.induct)
  case (1 n)
  show ?case
  proof (cases "n < 10")
    case True
    then show ?thesis by (simp add: digits.simps [of n] parse_nat_def digit_char_props)
  next
    case False
    with "1" have "parse_nat (digits (n div 10)) = Some (n div 10)" by simp
    then have "parse_nat (digits (n div 10) @ [digit_char (n mod 10)]) = Some (10 * (n div 10) + n mod 10)"
      by (intro parse_nat_snoc) simp_all
    with False show ?thesis by (simp add: digits.simps [of n])
  qed
qed

lemma parse_signed_str_int [simp]: "parse_signed (str_int i) = Some i"
proof (cases "i < 0")
  case True
  then show ?thesis by (simp add: str_int_def parse_signed_def)
next
  case False
  obtain d ds where d: "digits (nat i) = digit_char d # ds" "d < 10"
    using digits_cases by blast
  have "parse_nat (digit_char d # ds) = Some (nat i)"
    using parse_nat_digits [of "nat i"] d by simp
  with False d show ?thesis by (simp add: str_int_def parse_signed_def digit_char_props)
qed

lemma str_int_inj [simp]: "str_int i = str_int j \<longleftrightarrow> i = j"
  by (metis parse_signed_str_int option.inject)

lemma digits_no_slash: "c \<in> set (digits n) \<Longrightarrow> is_digit c"
proof (induction n rule: digits.induct)
  case (1 n)
  show ?case
  proof (cases "n < 10")
    case True
    with "1.prems" show ?thesis by (simp add: digits.simps [of n] digit_char_props)
  next
    case False
    with "1" show ?thesis by (auto simp: digits.simps [of n] digit_char_props)
  qed
qed

section \<open>Conversions of the parsers\<close>

definition trunc :: "rat \<Rightarrow> int" where
  "trunc q = (if 0 \<le> q then \<lfloor>q\<rfloor> else \<lceil>q\<rceil>)"

datatype decimal = DNum rat | DInf bool | DNaN | DSNaN

text \<open>
  `round(a / b)` for a positive `b`: to the nearest integer, ties to the even one.
\<close>

definition round_div :: "int \<Rightarrow> int \<Rightarrow> int" where
  "round_div a b = (let q = a div b; r = 2 * (a mod b) in
     if r < b then q else if b < r then q + 1 else if even q then q else q + 1)"

text \<open>`round(q)`, which is also what the format `.0f` shows.\<close>

definition py_round :: "rat \<Rightarrow> int" where
  "py_round q = (let f = \<lfloor>q\<rfloor>; r = q - of_int f in
     if r < 1 / 2 then f else if 1 / 2 < r then f + 1 else if even f then f else f + 1)"

lemma round_div_nearest:
  assumes "0 < b"
  shows "2 * \<bar>round_div a b * b - a\<bar> \<le> b"
proof -
  have down: "a div b * b - a = - (a mod b)"
    by (simp add: minus_mod_eq_div_mult [symmetric])
  have up: "(a div b + 1) * b - a = b - a mod b"
    using down by (simp add: algebra_simps)
  have "0 \<le> a mod b" "a mod b < b" using assms by simp_all
  with down up have abs: "\<bar>a div b * b - a\<bar> = a mod b" "\<bar>(a div b + 1) * b - a\<bar> = b - a mod b"
    by linarith+
  show ?thesis
    unfolding round_div_def Let_def by (simp add: abs del: distrib_right)
qed

end
