(* ===== verification/Ingest_Model.thy ===== *)
theory Ingest_Model
  imports Py_Values
begin

text \<open>
  The data of the ingestion pipeline: the enums of app/ingestion/enums, the exceptions of
  app/ingestion/exceptions.py, the rows of app/ingestion/models.py, and the world the jobs act on.

  The world holds two database sessions (the work session and the metrics session, each with its
  uncommitted and its committed state), the object store, the adapter's limiter, breaker and
  counters, and the counters of the fetch job.  What the program does not determine is a parameter
  in the record `env`: the clocks, which statement fails and how, what each HTTP request
  answers, the S3 client, gzip and JSON.  Every effect takes the next number of `steps`, and
  the parameters are functions of that number, so an `env` is one arbitrary behaviour of the
  surroundings and a theorem about every `env` is about all of them.
\<close>

section \<open>Enums\<close>

datatype resource = DETAILS | STATISTICS | REVIEWS | EPISODES | CHARACTERS

datatype task_status = PENDING | DONE | FAILED | DEAD | GONE

datatype run_status = RUNNING | RUN_SUCCEEDED | RUN_FAILED

fun resource_value :: "resource \<Rightarrow> string" where
  "resource_value DETAILS = ''details''"
| "resource_value STATISTICS = ''statistics''"
| "resource_value REVIEWS = ''reviews''"
| "resource_value EPISODES = ''episodes''"
| "resource_value CHARACTERS = ''characters''"

fun task_status_value :: "task_status \<Rightarrow> string" where
  "task_status_value PENDING = ''pending''"
| "task_status_value DONE = ''done''"
| "task_status_value FAILED = ''failed''"
| "task_status_value DEAD = ''dead''"
| "task_status_value GONE = ''gone''"

text \<open>`Resource(value)`; None is the ValueError of an unknown value.\<close>

definition all_resources :: "resource list" where
  "all_resources = [DETAILS, STATISTICS, REVIEWS, EPISODES, CHARACTERS]"

definition resource_of :: "string \<Rightarrow> resource option" where
  "resource_of s = find (\<lambda>r. resource_value r = s) all_resources"

lemma resource_of_value [simp]: "resource_of (resource_value r) = Some r"
  by (cases r) (simp_all add: resource_of_def all_resources_def)

lemma resource_value_inj [simp]: "resource_value r = resource_value s \<longleftrightarrow> r = s"
  by (metis option.inject resource_of_value)

text \<open>
  Postgres orders the VARCHAR column by its text; `alpha_rank` is the place of each value in
  that order.
\<close>

fun alpha_rank :: "resource \<Rightarrow> nat" where
  "alpha_rank CHARACTERS = 0"
| "alpha_rank DETAILS = 1"
| "alpha_rank EPISODES = 2"
| "alpha_rank REVIEWS = 3"
| "alpha_rank STATISTICS = 4"

lemma alpha_rank_inj [simp]: "alpha_rank r = alpha_rank s \<longleftrightarrow> r = s"
  by (cases r; cases s) simp_all

instantiation resource :: linorder
begin

definition less_eq_resource :: "resource \<Rightarrow> resource \<Rightarrow> bool" where
  "less_eq_resource r s = (alpha_rank r \<le> alpha_rank s)"

definition less_resource :: "resource \<Rightarrow> resource \<Rightarrow> bool" where
  "less_resource r s = (alpha_rank r < alpha_rank s)"

instance
  by standard (auto simp: less_eq_resource_def less_resource_def)

end

section \<open>Exceptions\<close>

text \<open>
  The classes of app/ingestion/exceptions.py with their message and status code, the database's
  errors, any other `Exception` of our own code, and `Interrupted` for
  KeyboardInterrupt and CancelledError, which are no `Exception`.
\<close>

datatype ingest_exn =
    GoneError string "int option"
  | PermanentError string "int option"
  | UntrustedSourceError string "int option"
  | DownloadTooLargeError string
  | CorruptDownloadError string
  | AccessDeniedError string "int option"
  | TransientError string "int option"
  | NetworkError string "int option"
  | CircuitOpenError rat
  | RawStoreError string
  | RepeatedUnexpectedErrors int
  | SQLAlchemyError string
  | OtherError py_exn
  | Interrupted

text \<open>`isinstance(exc, C)` for the classes the handlers name.\<close>

fun is_gone :: "ingest_exn \<Rightarrow> bool" where
  "is_gone (GoneError _ _) = True"
| "is_gone _ = False"

fun is_access_denied :: "ingest_exn \<Rightarrow> bool" where
  "is_access_denied (AccessDeniedError _ _) = True"
| "is_access_denied _ = False"

fun is_permanent :: "ingest_exn \<Rightarrow> bool" where
  "is_permanent (PermanentError _ _) = True"
| "is_permanent (UntrustedSourceError _ _) = True"
| "is_permanent (DownloadTooLargeError _) = True"
| "is_permanent (CorruptDownloadError _) = True"
| "is_permanent _ = False"

fun is_transient :: "ingest_exn \<Rightarrow> bool" where
  "is_transient (TransientError _ _) = True"
| "is_transient (NetworkError _ _) = True"
| "is_transient _ = False"

fun py_exn_name :: "py_exn \<Rightarrow> string" where
  "py_exn_name TypeError = ''TypeError''"
| "py_exn_name ValueError = ''ValueError''"
| "py_exn_name OverflowError = ''OverflowError''"
| "py_exn_name AttributeError = ''AttributeError''"
| "py_exn_name ZeroDivisionError = ''ZeroDivisionError''"
| "py_exn_name UnboundLocalError = ''UnboundLocalError''"
| "py_exn_name KeyError = ''KeyError''"
| "py_exn_name (LibraryError name) = name"

fun exn_name :: "ingest_exn \<Rightarrow> string" where
  "exn_name (GoneError _ _) = ''GoneError''"
| "exn_name (PermanentError _ _) = ''PermanentError''"
| "exn_name (UntrustedSourceError _ _) = ''UntrustedSourceError''"
| "exn_name (DownloadTooLargeError _) = ''DownloadTooLargeError''"
| "exn_name (CorruptDownloadError _) = ''CorruptDownloadError''"
| "exn_name (AccessDeniedError _ _) = ''AccessDeniedError''"
| "exn_name (TransientError _ _) = ''TransientError''"
| "exn_name (NetworkError _ _) = ''NetworkError''"
| "exn_name (CircuitOpenError _) = ''CircuitOpenError''"
| "exn_name (RawStoreError _) = ''RawStoreError''"
| "exn_name (RepeatedUnexpectedErrors _) = ''RepeatedUnexpectedErrors''"
| "exn_name (SQLAlchemyError _) = ''SQLAlchemyError''"
| "exn_name (OtherError x) = py_exn_name x"
| "exn_name Interrupted = ''CancelledError''"

text \<open>
  The message of an exception.  The texts Python itself gives (for our own bugs, for an
  interrupt) are left empty.
\<close>

fun exn_text :: "ingest_exn \<Rightarrow> string" where
  "exn_text (GoneError m _) = m"
| "exn_text (PermanentError m _) = m"
| "exn_text (UntrustedSourceError m _) = m"
| "exn_text (DownloadTooLargeError m) = m"
| "exn_text (CorruptDownloadError m) = m"
| "exn_text (AccessDeniedError m _) = m"
| "exn_text (TransientError m _) = m"
| "exn_text (NetworkError m _) = m"
| "exn_text (CircuitOpenError s) = ''circuit open, retry in '' @ str_int (py_round s) @ ''s''"
| "exn_text (RawStoreError m) = m"
| "exn_text (RepeatedUnexpectedErrors n) = str_int n @ '' unexpected errors in a row''"
| "exn_text (SQLAlchemyError m) = m"
| "exn_text (OtherError _) = []"
| "exn_text Interrupted = []"

section \<open>Rows\<close>

text \<open>An INTEGER column is 32 bits wide.\<close>

definition int32_ok :: "int \<Rightarrow> bool" where
  "int32_ok i \<longleftrightarrow> - 2147483648 \<le> i \<and> i \<le> 2147483647"

record ingestion_task =
  t_mal_id :: int
  t_resource :: resource
  t_status :: task_status
  t_attempts :: int
  t_next_attempt_at :: "datetime option"
  t_last_error :: "string option"
  t_created_at :: datetime
  t_updated_at :: datetime

record ingestion_run =
  r_id :: nat
  r_job :: string
  r_status :: run_status
  r_started_at :: datetime
  r_finished_at :: "datetime option"
  r_summary :: "json option"
  r_error :: "string option"

record raw_tenrai =
  w_mal_id :: int
  w_resource :: resource
  w_size_bytes :: int
  w_fetched_at :: datetime

text \<open>
  The catalogue's rows: a value per column, NULL where nothing was stored, and one list of rows
  per table of app/catalogue/models.py.
\<close>

datatype dbval = VNull | VInt int | VText string | VBool bool | VTime datetime | VNum decimal

type_synonym stored_row = "string \<Rightarrow> dbval"

datatype table = TAnime | TTag | TAnimeTag | TStudio | TAnimeStudio | TStatistics | TRelation
  | TEpisode | TReview

record db =
  tasks :: "ingestion_task list"
  raw_rows :: "raw_tenrai list"
  catalogue :: "table \<Rightarrow> stored_row list"

section \<open>Sessions\<close>

text \<open>
  A session works on its own view `cur`; a commit makes the view the committed state
  `saved`, a rollback returns to it.  `tx_time` is the start of the transaction, which
  is what `func.now()` means in it; after a failed statement the session refuses every
  statement until it is rolled back.
\<close>

record 'd session =
  cur :: 'd
  saved :: 'd
  tx_time :: "datetime option"
  broken :: bool

definition fresh_session :: "'d \<Rightarrow> 'd session" where
  "fresh_session d = \<lparr>cur = d, saved = d, tx_time = None, broken = False\<rparr>"

type_synonym ('d, 'a) stmt = "datetime \<Rightarrow> 'd \<Rightarrow> string + ('a \<times> 'd)"

definition pending_rollback :: ingest_exn where
  "pending_rollback = SQLAlchemyError ''PendingRollbackError''"

definition sess_exec :: "datetime \<Rightarrow> ingest_exn option \<Rightarrow> ('d, 'a) stmt \<Rightarrow> 'd session
    \<Rightarrow> (ingest_exn + 'a) \<times> 'd session" where
  "sess_exec now fault stmt s =
     (if broken s then (Inl pending_rollback, s)
      else let t0 = (case tx_time s of None \<Rightarrow> now | Some t \<Rightarrow> t); s' = s\<lparr>tx_time := Some t0\<rparr> in
        case fault of Some x \<Rightarrow> (Inl x, s'\<lparr>broken := True\<rparr>)
        | None \<Rightarrow> (case stmt t0 (cur s) of
              Inl m \<Rightarrow> (Inl (SQLAlchemyError m), s'\<lparr>broken := True\<rparr>)
            | Inr (a, d) \<Rightarrow> (Inr a, s'\<lparr>cur := d\<rparr>)))"

definition sess_commit :: "ingest_exn option \<Rightarrow> 'd session \<Rightarrow> (ingest_exn + unit) \<times> 'd session" where
  "sess_commit fault s =
     (if broken s then (Inl pending_rollback, s)
      else case fault of Some x \<Rightarrow> (Inl x, s\<lparr>broken := True\<rparr>)
      | None \<Rightarrow> (Inr (), s\<lparr>saved := cur s, tx_time := None\<rparr>))"

definition sess_rollback :: "'d session \<Rightarrow> 'd session" where
  "sess_rollback s = s\<lparr>cur := saved s, tx_time := None, broken := False\<rparr>"

section \<open>The surroundings and the world\<close>

datatype http_outcome =
    TransportError string                                 \<comment> \<open>httpx.TransportError, with its class name\<close>
  | HttpRaised py_exn                                      \<comment> \<open>any other exception of the client\<close>
  | HttpCancelled
  | Response int "string option" "json option"
    \<comment> \<open>status, Retry-After header, decoded body (None: not JSON)\<close>

datatype db_failure = DbError string | DbInterrupted  \<comment> \<open>an SQLAlchemyError with its text; an interrupt\<close>

fun db_exn :: "db_failure \<Rightarrow> ingest_exn" where
  "db_exn (DbError m) = SQLAlchemyError m"
| "db_exn DbInterrupted = Interrupted"

datatype s3_fault = S3Refused string | S3Cancelled  \<comment> \<open>a botocore error by its class name; an interrupt\<close>

record 's env =
  mclock :: "nat \<Rightarrow> rat"                    \<comment> \<open>time.monotonic\<close>
  utc :: "nat \<Rightarrow> datetime"                \<comment> \<open>datetime.now(UTC), and the database's clock\<close>
  db_fault :: "nat \<Rightarrow> db_failure option"  \<comment> \<open>what the statement at this step raises\<close>
  cancelled :: "nat \<Rightarrow> bool"              \<comment> \<open>the sleep at this step is interrupted\<close>
  http :: "nat \<Rightarrow> string \<Rightarrow> (string \<times> string) list \<Rightarrow> http_outcome"
  float_of :: "string \<Rightarrow> pyfloat option"  \<comment> \<open>float(text)\<close>
  s3_put :: "string \<Rightarrow> string \<Rightarrow> 's \<Rightarrow> (s3_fault + unit) \<times> 's"
  s3_get :: "string \<Rightarrow> 's \<Rightarrow> (s3_fault + string) \<times> 's"
  pack :: "json \<Rightarrow> string"                \<comment> \<open>gzip.compress(json.dumps(payload))\<close>
  unpack :: "string \<Rightarrow> py_exn + json"       \<comment> \<open>json.loads(gzip.decompress(body))\<close>
  raw_s3_bucket :: "string option"
  raw_s3_prefix :: string
  requests_per_minute :: rat
  lib :: pylib

record circuit_breaker =
  failure_threshold :: int
  cooldown_s :: rat
  consecutive_failures :: int
  opened_at :: "rat option"

record 's world =
  wsess :: "db session"
  msess :: "ingestion_run list session"
  run_seq :: nat                    \<comment> \<open>the sequence behind ingestion_run.id\<close>
  s3 :: 's
  last_request_time :: "rat option" \<comment> \<open>RateLimiter\<close>
  breaker :: circuit_breaker        \<comment> \<open>TenraiAdapter\<close>
  request_count :: int
  retry_count :: int
  rate_limited_count :: int
  j_raw_bytes :: int                \<comment> \<open>FetchAnimeJob\<close>
  j_unexpected_in_a_row :: int
  j_denied_in_a_row :: int
  stamps :: "rat list"              \<comment> \<open>the times at which the limiter let a request through, latest first\<close>
  steps :: nat
  slept :: rat

type_synonym ('s, 'a) io = "('s world, ingest_exn, 'a) prog"

section \<open>Primitive effects\<close>

definition tick :: "('s, nat) io" where
  "tick = (\<lambda>w. (Inr (steps w), w\<lparr>steps := Suc (steps w)\<rparr>))"

definition micros :: "rat \<Rightarrow> int" where
  "micros s = \<lfloor>s * 1000000\<rfloor>"

definition monotonic :: "'s env \<Rightarrow> ('s, rat) io" where
  "monotonic e = bnd tick (\<lambda>n. look (\<lambda>w. mclock e n + slept w))"

definition utc_now :: "'s env \<Rightarrow> ('s, datetime) io" where
  "utc_now e = bnd tick (\<lambda>n. look (\<lambda>w. utc e n + micros (slept w)))"

definition py_sleep :: "'s env \<Rightarrow> rat \<Rightarrow> ('s, unit) io" where
  "py_sleep e d = bnd tick (\<lambda>n. if cancelled e n then raise Interrupted
     else update (\<lambda>w. w\<lparr>slept := slept w + max 0 d\<rparr>))"

definition exec_work :: "'s env \<Rightarrow> (db, 'a) stmt \<Rightarrow> ('s, 'a) io" where
  "exec_work e stmt = bnd tick (\<lambda>n w.
     case sess_exec (utc e n + micros (slept w)) (map_option db_exn (db_fault e n)) stmt (wsess w) of
       (r, se) \<Rightarrow> (r, w\<lparr>wsess := se\<rparr>))"

definition commit_work :: "'s env \<Rightarrow> ('s, unit) io" where
  "commit_work e = bnd tick (\<lambda>n w.
     case sess_commit (map_option db_exn (db_fault e n)) (wsess w) of (r, se) \<Rightarrow> (r, w\<lparr>wsess := se\<rparr>))"

definition rollback_work :: "('s, unit) io" where
  "rollback_work = update (\<lambda>w. w\<lparr>wsess := sess_rollback (wsess w)\<rparr>)"

definition exec_metrics :: "'s env \<Rightarrow> (ingestion_run list, 'a) stmt \<Rightarrow> ('s, 'a) io" where
  "exec_metrics e stmt = bnd tick (\<lambda>n w.
     case sess_exec (utc e n + micros (slept w)) (map_option db_exn (db_fault e n)) stmt (msess w) of
       (r, se) \<Rightarrow> (r, w\<lparr>msess := se\<rparr>))"

definition commit_metrics :: "'s env \<Rightarrow> ('s, unit) io" where
  "commit_metrics e = bnd tick (\<lambda>n w.
     case sess_commit (map_option db_exn (db_fault e n)) (msess w) of (r, se) \<Rightarrow> (r, w\<lparr>msess := se\<rparr>))"

text \<open>Lifting a statement on one table to the database.\<close>

definition on_tasks :: "(ingestion_task list, 'a) stmt \<Rightarrow> (db, 'a) stmt" where
  "on_tasks f t d = (case f t (tasks d) of Inl m \<Rightarrow> Inl m | Inr (a, ts) \<Rightarrow> Inr (a, d\<lparr>tasks := ts\<rparr>))"

definition on_raw :: "(raw_tenrai list, 'a) stmt \<Rightarrow> (db, 'a) stmt" where
  "on_raw f t d = (case f t (raw_rows d) of Inl m \<Rightarrow> Inl m | Inr (a, rs) \<Rightarrow> Inr (a, d\<lparr>raw_rows := rs\<rparr>))"

lemma on_tasks_Inr:
  "on_tasks f t d = Inr (a, d') \<Longrightarrow>
     f t (tasks d) = Inr (a, tasks d') \<and> raw_rows d' = raw_rows d \<and> catalogue d' = catalogue d"
  by (auto simp: on_tasks_def split: sum.splits)

lemma on_raw_Inr:
  "on_raw f t d = Inr (a, d') \<Longrightarrow>
     f t (raw_rows d) = Inr (a, raw_rows d') \<and> tasks d' = tasks d \<and> catalogue d' = catalogue d"
  by (auto simp: on_raw_def split: sum.splits)

text \<open>A query reads and changes nothing.\<close>

definition query :: "('d \<Rightarrow> 'a) \<Rightarrow> ('d, 'a) stmt" where
  "query f t d = Inr (f d, d)"

subsection \<open>What a session keeps\<close>

lemma sess_exec_saved [simp]: "saved (snd (sess_exec now f stmt s)) = saved s"
  by (simp add: sess_exec_def Let_def split: option.split sum.split prod.split)

lemma sess_commit_cur [simp]: "cur (snd (sess_commit f s)) = cur s"
  by (simp add: sess_commit_def split: option.split)

lemma sess_commit_cases:
  "sess_commit f s = (Inr (), s\<lparr>saved := cur s, tx_time := None\<rparr>) \<and> \<not> broken s
   \<or> (\<exists>x. fst (sess_commit f s) = Inl x \<and> saved (snd (sess_commit f s)) = saved s)"
  by (simp add: sess_commit_def split: option.split)

lemma sess_rollback_simps [simp]:
  "cur (sess_rollback s) = saved s" "saved (sess_rollback s) = saved s"
  "broken (sess_rollback s) = False" "tx_time (sess_rollback s) = None"
  by (simp_all add: sess_rollback_def)

lemma wp_tick [wp_simps]: "wp tick Q E w = Q (steps w) (w\<lparr>steps := Suc (steps w)\<rparr>)"
  by (simp add: wp_def tick_def)

lemma wp_rollback_work [wp_simps]:
  "wp rollback_work Q E w = Q () (w\<lparr>wsess := sess_rollback (wsess w)\<rparr>)"
  by (simp add: rollback_work_def wp_simps)

text \<open>Every primitive effect leaves the fields it does not own alone.\<close>

lemma keeps_tick [keeps_rules]:
  "(\<And>w n. P w \<Longrightarrow> P (w\<lparr>steps := n\<rparr>)) \<Longrightarrow> keeps P tick"
  by (simp add: keeps_def tick_def)

lemma keeps_step_prog:
  assumes "\<And>w n. P w \<Longrightarrow> P (w\<lparr>steps := n\<rparr>)" and "\<And>n. keeps P (m n)"
  shows "keeps P (bnd tick m)"
  using assms by (intro keeps_bnd keeps_tick) auto

lemma keeps_monotonic [keeps_rules]:
  "(\<And>w n. P w \<Longrightarrow> P (w\<lparr>steps := n\<rparr>)) \<Longrightarrow> keeps P (monotonic e)"
  by (auto simp: monotonic_def intro!: keeps_step_prog)

lemma keeps_utc_now [keeps_rules]:
  "(\<And>w n. P w \<Longrightarrow> P (w\<lparr>steps := n\<rparr>)) \<Longrightarrow> keeps P (utc_now e)"
  by (auto simp: utc_now_def intro!: keeps_step_prog)

lemma keeps_py_sleep [keeps_rules]:
  "(\<And>w n. P w \<Longrightarrow> P (w\<lparr>steps := n\<rparr>)) \<Longrightarrow> (\<And>w d. P w \<Longrightarrow> P (w\<lparr>slept := d\<rparr>)) \<Longrightarrow> keeps P (py_sleep e d)"
  by (auto simp: py_sleep_def intro!: keeps_step_prog keeps_rules)

lemma keeps_exec_work [keeps_rules]:
  assumes "\<And>w n. P w \<Longrightarrow> P (w\<lparr>steps := n\<rparr>)"
    and "\<And>w now f. P w \<Longrightarrow> P (w\<lparr>wsess := snd (sess_exec now f stmt (wsess w))\<rparr>)"
  shows "keeps P (exec_work e stmt)"
  unfolding exec_work_def
proof (rule keeps_step_prog)
qed (use assms in \<open>simp_all add: keeps_def split_beta\<close>)

lemma keeps_commit_work [keeps_rules]:
  assumes "\<And>w n. P w \<Longrightarrow> P (w\<lparr>steps := n\<rparr>)"
    and "\<And>w f. P w \<Longrightarrow> P (w\<lparr>wsess := snd (sess_commit f (wsess w))\<rparr>)"
  shows "keeps P (commit_work e)"
  unfolding commit_work_def
proof (rule keeps_step_prog)
qed (use assms in \<open>simp_all add: keeps_def split_beta\<close>)

lemma keeps_rollback_work [keeps_rules]:
  "(\<And>w. P w \<Longrightarrow> P (w\<lparr>wsess := sess_rollback (wsess w)\<rparr>)) \<Longrightarrow> keeps P rollback_work"
  by (auto simp: rollback_work_def intro!: keeps_update)

lemma keeps_exec_metrics [keeps_rules]:
  assumes "\<And>w n. P w \<Longrightarrow> P (w\<lparr>steps := n\<rparr>)"
    and "\<And>w now f. P w \<Longrightarrow> P (w\<lparr>msess := snd (sess_exec now f stmt (msess w))\<rparr>)"
  shows "keeps P (exec_metrics e stmt)"
  unfolding exec_metrics_def
proof (rule keeps_step_prog)
qed (use assms in \<open>simp_all add: keeps_def split_beta\<close>)

lemma keeps_commit_metrics [keeps_rules]:
  assumes "\<And>w n. P w \<Longrightarrow> P (w\<lparr>steps := n\<rparr>)"
    and "\<And>w f. P w \<Longrightarrow> P (w\<lparr>msess := snd (sess_commit f (msess w))\<rparr>)"
  shows "keeps P (commit_metrics e)"
  unfolding commit_metrics_def
proof (rule keeps_step_prog)
qed (use assms in \<open>simp_all add: keeps_def split_beta\<close>)

section \<open>Invariants of the database\<close>

text \<open>
  What holds of both the session's view and the committed state, and what the committed state is.
  An invariant of the database is kept by a program when each of its statements keeps it.
\<close>

definition db_inv :: "(db \<Rightarrow> bool) \<Rightarrow> 's world \<Rightarrow> bool" where
  "db_inv I w \<longleftrightarrow> I (cur (wsess w)) \<and> I (saved (wsess w))"

definition saved_is :: "db \<Rightarrow> 's world \<Rightarrow> bool" where
  "saved_is d w \<longleftrightarrow> saved (wsess w) = d"

definition stmt_keeps :: "('d \<Rightarrow> bool) \<Rightarrow> ('d, 'a) stmt \<Rightarrow> bool" where
  "stmt_keeps I stmt \<longleftrightarrow> (\<forall>now d a d'. I d \<longrightarrow> stmt now d = Inr (a, d') \<longrightarrow> I d')"

lemma stmt_keepsD: "stmt_keeps I stmt \<Longrightarrow> I d \<Longrightarrow> stmt now d = Inr (a, d') \<Longrightarrow> I d'"
  by (auto simp: stmt_keeps_def)

lemma stmt_keeps_query [simp]: "stmt_keeps I (query f)"
  by (simp add: stmt_keeps_def query_def)

lemma stmt_keeps_on_tasks:
  assumes "\<And>now d a ts. I d \<Longrightarrow> f now (tasks d) = Inr (a, ts) \<Longrightarrow> I (d\<lparr>tasks := ts\<rparr>)"
  shows "stmt_keeps I (on_tasks f)"
  using assms by (auto simp: stmt_keeps_def on_tasks_def split: sum.splits)

lemma stmt_keeps_on_raw:
  assumes "\<And>now d a rs. I d \<Longrightarrow> f now (raw_rows d) = Inr (a, rs) \<Longrightarrow> I (d\<lparr>raw_rows := rs\<rparr>)"
  shows "stmt_keeps I (on_raw f)"
  using assms by (auto simp: stmt_keeps_def on_raw_def split: sum.splits)

lemma on_tasks_query [simp]: "stmt_keeps I (on_tasks (query f))"
  by (auto intro!: stmt_keeps_on_tasks simp: query_def)

lemma on_raw_query [simp]: "stmt_keeps I (on_raw (query f))"
  by (auto intro!: stmt_keeps_on_raw simp: query_def)

lemma db_inv_frame [simp]:
  "db_inv I (w\<lparr>steps := n\<rparr>) = db_inv I w" "db_inv I (w\<lparr>slept := d\<rparr>) = db_inv I w"
  "db_inv I (w\<lparr>msess := x2\<rparr>) = db_inv I w" "db_inv I (w\<lparr>run_seq := x3\<rparr>) = db_inv I w"
  "db_inv I (w\<lparr>s3 := x4\<rparr>) = db_inv I w" "db_inv I (w\<lparr>breaker := x5\<rparr>) = db_inv I w"
  "db_inv I (w\<lparr>request_count := c\<rparr>) = db_inv I w" "db_inv I (w\<lparr>retry_count := c\<rparr>) = db_inv I w"
  "db_inv I (w\<lparr>rate_limited_count := c\<rparr>) = db_inv I w" "db_inv I (w\<lparr>j_raw_bytes := c\<rparr>) = db_inv I w"
  "db_inv I (w\<lparr>j_unexpected_in_a_row := c\<rparr>) = db_inv I w" "db_inv I (w\<lparr>j_denied_in_a_row := c\<rparr>) = db_inv I w"
  "db_inv I (w\<lparr>last_request_time := lt\<rparr>) = db_inv I w" "db_inv I (w\<lparr>stamps := ts\<rparr>) = db_inv I w"
  by (simp_all add: db_inv_def)

lemma saved_is_frame [simp]:
  "saved_is I (w\<lparr>steps := n\<rparr>) = saved_is I w" "saved_is I (w\<lparr>slept := d\<rparr>) = saved_is I w"
  "saved_is I (w\<lparr>msess := x2\<rparr>) = saved_is I w" "saved_is I (w\<lparr>run_seq := x3\<rparr>) = saved_is I w"
  "saved_is I (w\<lparr>s3 := x4\<rparr>) = saved_is I w" "saved_is I (w\<lparr>breaker := x5\<rparr>) = saved_is I w"
  "saved_is I (w\<lparr>request_count := c\<rparr>) = saved_is I w" "saved_is I (w\<lparr>retry_count := c\<rparr>) = saved_is I w"
  "saved_is I (w\<lparr>rate_limited_count := c\<rparr>) = saved_is I w" "saved_is I (w\<lparr>j_raw_bytes := c\<rparr>) = saved_is I w"
  "saved_is I (w\<lparr>j_unexpected_in_a_row := c\<rparr>) = saved_is I w" "saved_is I (w\<lparr>j_denied_in_a_row := c\<rparr>) = saved_is I w"
  "saved_is I (w\<lparr>last_request_time := lt\<rparr>) = saved_is I w" "saved_is I (w\<lparr>stamps := ts\<rparr>) = saved_is I w"
  by (simp_all add: saved_is_def)

text \<open>A program that does not touch the work session keeps every predicate of it.\<close>

definition session_is :: "db session \<Rightarrow> 's world \<Rightarrow> bool" where
  "session_is se w \<longleftrightarrow> wsess w = se"

definition of_session :: "('s world \<Rightarrow> bool) \<Rightarrow> bool" where
  "of_session P \<longleftrightarrow> (\<forall>w v. wsess w = wsess v \<longrightarrow> P w = P v)"

lemma session_is_frame [simp]:
  "session_is I (w\<lparr>steps := n\<rparr>) = session_is I w" "session_is I (w\<lparr>slept := d\<rparr>) = session_is I w"
  "session_is I (w\<lparr>msess := x2\<rparr>) = session_is I w" "session_is I (w\<lparr>run_seq := x3\<rparr>) = session_is I w"
  "session_is I (w\<lparr>s3 := x4\<rparr>) = session_is I w" "session_is I (w\<lparr>breaker := x5\<rparr>) = session_is I w"
  "session_is I (w\<lparr>request_count := c\<rparr>) = session_is I w" "session_is I (w\<lparr>retry_count := c\<rparr>) = session_is I w"
  "session_is I (w\<lparr>rate_limited_count := c\<rparr>) = session_is I w" "session_is I (w\<lparr>j_raw_bytes := c\<rparr>) = session_is I w"
  "session_is I (w\<lparr>j_unexpected_in_a_row := c\<rparr>) = session_is I w" "session_is I (w\<lparr>j_denied_in_a_row := c\<rparr>) = session_is I w"
  "session_is I (w\<lparr>last_request_time := lt\<rparr>) = session_is I w" "session_is I (w\<lparr>stamps := ts\<rparr>) = session_is I w"
  by (simp_all add: session_is_def)

lemma of_session_simps [simp]: "of_session (db_inv I)" "of_session (saved_is d)" "of_session (session_is se)"
  by (simp_all add: of_session_def db_inv_def saved_is_def session_is_def)

lemma keeps_of_session:
  assumes "\<And>se. keeps (session_is se) m" and "of_session P"
  shows "keeps P m"
  unfolding keeps_def
proof (intro allI impI)
  fix w assume "P w"
  have "wsess (snd (m w)) = wsess w"
    using assms(1) [of "wsess w"] by (simp add: keeps_def session_is_def)
  with assms(2) \<open>P w\<close> show "P (snd (m w))" unfolding of_session_def by metis
qed

lemma of_sessionD: "of_session P \<Longrightarrow> P w \<Longrightarrow> wsess v = wsess w \<Longrightarrow> P v"
  unfolding of_session_def by metis

lemma keeps_db_inv_exec [keeps_rules]: "stmt_keeps I stmt \<Longrightarrow> keeps (db_inv I) (exec_work e stmt)"
  by (rule keeps_exec_work)
    (auto simp: db_inv_def sess_exec_def Let_def split: option.splits sum.splits dest: stmt_keepsD)

lemma keeps_db_inv_commit [keeps_rules]: "keeps (db_inv I) (commit_work e)"
  by (rule keeps_commit_work) (auto simp: db_inv_def sess_commit_def split: option.splits)

lemma keeps_db_inv_rollback [keeps_rules]: "keeps (db_inv I) rollback_work"
  by (rule keeps_rollback_work) (simp add: db_inv_def)

lemma keeps_saved_exec [keeps_rules]: "keeps (saved_is d) (exec_work e stmt)"
  by (rule keeps_exec_work) (auto simp: saved_is_def)

lemma keeps_saved_rollback [keeps_rules]: "keeps (saved_is d) rollback_work"
  by (rule keeps_rollback_work) (simp add: saved_is_def)

text \<open>A statement that raises leaves the view alone.\<close>

lemma sess_exec_Inr:
  "sess_exec now f stmt s = (Inr a, s') \<Longrightarrow> \<exists>t. stmt t (cur s) = Inr (a, cur s') \<and> saved s' = saved s"
  by (auto simp: sess_exec_def Let_def split: if_splits option.splits sum.splits prod.splits)

lemma sess_exec_Inl:
  "sess_exec now f stmt s = (Inl x, s') \<Longrightarrow> cur s' = cur s \<and> saved s' = saved s
     \<and> (f = Some x \<or> (\<exists>m. x = SQLAlchemyError m))"
  by (auto simp: sess_exec_def Let_def pending_rollback_def split: if_splits option.splits sum.splits prod.splits)

lemma db_exn_cases: "db_exn f = Interrupted \<or> (\<exists>m. db_exn f = SQLAlchemyError m)"
  by (cases f) simp_all

lemma wp_exec_work:
  assumes "\<And>now a d n se. stmt now (cur (wsess w)) = Inr (a, d) \<Longrightarrow> cur se = d \<Longrightarrow> saved se = saved (wsess w)
      \<Longrightarrow> Q a (w\<lparr>steps := n, wsess := se\<rparr>)"
    and "\<And>x n se. cur se = cur (wsess w) \<Longrightarrow> saved se = saved (wsess w) \<Longrightarrow> x = Interrupted \<or> (\<exists>m. x = SQLAlchemyError m)
      \<Longrightarrow> E x (w\<lparr>steps := n, wsess := se\<rparr>)"
  shows "wp (exec_work e stmt) Q E w"
proof -
  have db: "x = Interrupted \<or> (\<exists>m. x = SQLAlchemyError m)" if "map_option db_exn f = Some x" for f x
    using that db_exn_cases by auto
  show ?thesis
    unfolding exec_work_def wp_bnd wp_tick
  proof (rule wpI, goal_cases)
    case (1 a t)
    then show ?case using assms(1) by (auto split: prod.splits dest!: sess_exec_Inr)
  next
    case (2 x t)
    then show ?case by (auto split: prod.splits dest!: sess_exec_Inl db intro!: assms(2))
  qed
qed

lemma raises_exec_work [raises_rules]:
  assumes "X Interrupted" and "\<And>m. X (SQLAlchemyError m)" shows "raises X (exec_work e stmt)"
  unfolding raises_def
proof (intro allI impI)
  fix s x t assume "exec_work e stmt s = (Inl x, t)"
  moreover have "wp (exec_work e stmt) (\<lambda>_ _. True) (\<lambda>x _. X x) s"
    by (rule wp_exec_work) (use assms in auto)
  ultimately show "X x" by (rule wp_Inl)
qed

lemma raises_commit_work [raises_rules]:
  assumes "X Interrupted" and "\<And>m. X (SQLAlchemyError m)" shows "raises X (commit_work e)"
proof -
  have db: "X (db_exn f)" for f using assms by (cases f) simp_all
  show ?thesis
    using assms db
    by (auto simp: raises_def commit_work_def tick_def bnd_def sess_commit_def pending_rollback_def
        split: prod.splits option.splits)
qed

section \<open>Example surroundings\<close>

text \<open>
  Surroundings in which nothing fails and every request is answered with the payload
  `{}`: the object store is a list of the objects, the clock is the step number.  The
  concrete instances of the theorems start here.
\<close>

definition calm_env :: "(string \<times> string) list env" where
  "calm_env = \<lparr>mclock = (\<lambda>n. of_nat n), utc = (\<lambda>n. int n), db_fault = (\<lambda>_. None), cancelled = (\<lambda>_. False),
     http = (\<lambda>_ _ _. Response 200 None (Some (JObj []))), float_of = (\<lambda>_. None),
     s3_put = (\<lambda>k b objs. (Inr (), (k, b) # objs)),
     s3_get = (\<lambda>k objs. (case map_of objs k of None \<Rightarrow> Inl (S3Refused ''NoSuchKey'') | Some b \<Rightarrow> Inr b, objs)),
     pack = (\<lambda>_. ''{}''), unpack = (\<lambda>_. Inr (JObj [])), raw_s3_bucket = Some ''bucket'',
     raw_s3_prefix = ''raw'', requests_per_minute = 50,
     lib = \<lparr>unescape = id, fromisoformat = (\<lambda>_. None), sha256_hex = id\<rparr>\<rparr>"

definition start_world :: "'s \<Rightarrow> db \<Rightarrow> 's world" where
  "start_world objects d = \<lparr>wsess = fresh_session d, msess = fresh_session [], run_seq = 1, s3 = objects,
     last_request_time = None,
     breaker = \<lparr>failure_threshold = 5, cooldown_s = 300, consecutive_failures = 0, opened_at = None\<rparr>,
     request_count = 0, retry_count = 0, rate_limited_count = 0, j_raw_bytes = 0,
     j_unexpected_in_a_row = 0, j_denied_in_a_row = 0, stamps = [], steps = 0, slept = 0\<rparr>"

definition empty_db :: db where
  "empty_db = \<lparr>tasks = [], raw_rows = [], catalogue = (\<lambda>_. [])\<rparr>"

end
