(* ===== verification/Catalogue.thy ===== *)
theory Catalogue
  imports Ingest_Model "HOL-Library.Product_Lexorder" "HOL-Library.List_Lexorder" "HOL-Library.Char_ord"
begin

text \<open>
  app/catalogue: the tables of models.py as column lists with their types, NOT NULLs, defaults and
  foreign keys, and the repository's reads and idempotent writes as statements on their rows.  A
  row dict is a list of (column, value) pairs in the order the attributes were set.  What Postgres
  does with a value that does not fit its column, with a missing parent and with a row proposed
  twice is part of the statements.
\<close>

section \<open>Tables\<close>

datatype coltype = CInt | CText | CBool | CTime | CNumeric

type_synonym column = "string \<times> coltype \<times> bool"  \<comment> \<open>name, type, nullable\<close>

fun table_columns :: "table \<Rightarrow> column list" where
  "table_columns TAnime = [(''mal_id'', CInt, False), (''title'', CText, False), (''title_english'', CText, True),
     (''title_japanese'', CText, True), (''type'', CText, True), (''status'', CText, True),
     (''rating'', CText, True), (''source_material'', CText, True), (''season'', CText, True),
     (''year'', CInt, True), (''episodes'', CInt, True), (''duration_minutes'', CInt, True),
     (''aired_from'', CTime, True), (''aired_to'', CTime, True), (''mal_score'', CNumeric, True),
     (''anilist_score'', CNumeric, True), (''imdb_score'', CNumeric, True), (''scored_by_mal'', CInt, True),
     (''members_mal'', CInt, True), (''favorites_mal'', CInt, True), (''rank_mal'', CInt, True),
     (''popularity_mal'', CInt, True), (''synopsis'', CText, True), (''synopsis_hash'', CText, True),
     (''background'', CText, True), (''image_url'', CText, True), (''created_at'', CTime, False),
     (''updated_at'', CTime, False)]"
| "table_columns TTag = [(''mal_id'', CInt, False), (''name'', CText, False)]"
| "table_columns TAnimeTag = [(''anime_id'', CInt, False), (''tag_id'', CInt, False)]"
| "table_columns TStudio = [(''mal_id'', CInt, False), (''name'', CText, False)]"
| "table_columns TAnimeStudio = [(''anime_id'', CInt, False), (''studio_id'', CInt, False)]"
| "table_columns TStatistics = [(''anime_id'', CInt, False), (''watching'', CInt, False),
     (''completed'', CInt, False), (''on_hold'', CInt, False), (''dropped'', CInt, False),
     (''plan_to_watch'', CInt, False), (''total'', CInt, False), (''votes_1'', CInt, True),
     (''votes_2'', CInt, True), (''votes_3'', CInt, True), (''votes_4'', CInt, True), (''votes_5'', CInt, True),
     (''votes_6'', CInt, True), (''votes_7'', CInt, True), (''votes_8'', CInt, True), (''votes_9'', CInt, True),
     (''votes_10'', CInt, True), (''updated_at'', CTime, False)]"
| "table_columns TRelation = [(''anime_id'', CInt, False), (''relation'', CText, False),
     (''related_mal_id'', CInt, False)]"
| "table_columns TEpisode = [(''anime_id'', CInt, False), (''episode_number'', CInt, False),
     (''title'', CText, True), (''title_japanese'', CText, True), (''title_romanji'', CText, True),
     (''aired'', CTime, True), (''duration_seconds'', CInt, True), (''synopsis'', CText, True),
     (''synopsis_hash'', CText, True), (''filler'', CBool, False), (''recap'', CBool, False),
     (''mal_score'', CNumeric, True), (''anilist_score'', CNumeric, True), (''imdb_score'', CNumeric, True)]"
| "table_columns TReview = [(''mal_id'', CInt, False), (''anime_id'', CInt, False), (''score'', CInt, True),
     (''review'', CText, False), (''review_url'', CText, True), (''username'', CText, True),
     (''username_url'', CText, True), (''date'', CTime, True), (''is_spoiler'', CBool, False),
     (''is_preliminary'', CBool, False), (''episodes_watched'', CInt, True), (''reaction_overall'', CInt, True),
     (''reaction_nice'', CInt, True), (''reaction_love_it'', CInt, True), (''reaction_funny'', CInt, True),
     (''reaction_confusing'', CInt, True), (''reaction_informative'', CInt, True),
     (''reaction_well_written'', CInt, True), (''reaction_creative'', CInt, True), (''updated_at'', CTime, False)]"

fun table_keys :: "table \<Rightarrow> string list" where
  "table_keys TAnime = [''mal_id'']"
| "table_keys TTag = [''mal_id'']"
| "table_keys TAnimeTag = [''anime_id'', ''tag_id'']"
| "table_keys TStudio = [''mal_id'']"
| "table_keys TAnimeStudio = [''anime_id'', ''studio_id'']"
| "table_keys TStatistics = [''anime_id'']"
| "table_keys TRelation = [''anime_id'', ''relation'', ''related_mal_id'']"
| "table_keys TEpisode = [''anime_id'', ''episode_number'']"
| "table_keys TReview = [''mal_id'']"

text \<open>The foreign keys, each to the column mal_id of the parent table.\<close>

fun table_parents :: "table \<Rightarrow> (string \<times> table) list" where
  "table_parents TAnimeTag = [(''anime_id'', TAnime), (''tag_id'', TTag)]"
| "table_parents TAnimeStudio = [(''anime_id'', TAnime), (''studio_id'', TStudio)]"
| "table_parents TAnime = []"
| "table_parents TTag = []"
| "table_parents TStudio = []"
| "table_parents _ = [(''anime_id'', TAnime)]"

text \<open>The server defaults.\<close>

definition default_value :: "datetime \<Rightarrow> string \<Rightarrow> dbval" where
  "default_value now c =
     (if c \<in> {''created_at'', ''updated_at''} then VTime now
      else if c \<in> {''filler'', ''recap'', ''is_spoiler'', ''is_preliminary''} then VBool False
      else VNull)"

definition has_updated_at :: "table \<Rightarrow> bool" where
  "has_updated_at tb \<longleftrightarrow> ''updated_at'' \<in> set (map fst (table_columns tb))"

text \<open>Numeric(4, 2): two decimals, half away from zero, below 100.\<close>

definition round2 :: "rat \<Rightarrow> rat" where
  "round2 q = (let n = \<lfloor>\<bar>q\<bar> * 100 + 1 / 2\<rfloor> in (if q < 0 then - of_int n else of_int n) / 100)"

text \<open>A value as the column stores it, or the database's error.\<close>

fun store_cell :: "coltype \<Rightarrow> bool \<Rightarrow> dbval \<Rightarrow> string + dbval" where
  "store_cell ty nullable VNull = (if nullable then Inr VNull else Inl ''NotNullViolationError'')"
| "store_cell CInt _ (VInt i) = (if - 2147483648 \<le> i \<and> i \<le> 2147483647 then Inr (VInt i) else Inl ''DataError'')"
| "store_cell CText _ (VText s) = (if CHR 0x00 \<in> set s then Inl ''DataError'' else Inr (VText s))"
| "store_cell CBool _ (VBool b) = Inr (VBool b)"
| "store_cell CTime _ (VTime t) = Inr (VTime t)"
| "store_cell CNumeric _ (VNum (DNum q)) =
     (if \<bar>round2 q\<bar> < 100 then Inr (VNum (DNum (round2 q))) else Inl ''NumericValueOutOfRangeError'')"
| "store_cell CNumeric _ (VNum DNaN) = Inr (VNum DNaN)"
| "store_cell _ _ _ = Inl ''DataError''"

section \<open>Statements on the rows\<close>

type_synonym row_dict = "(string \<times> dbval) list"

definition row_key :: "table \<Rightarrow> stored_row \<Rightarrow> dbval list" where
  "row_key tb r = map r (table_keys tb)"

text \<open>
  The row a VALUES entry proposes.  The statement's columns are those of its first entry.
\<close>

definition cell_of :: "datetime \<Rightarrow> string list \<Rightarrow> row_dict \<Rightarrow> column \<Rightarrow> string + (string \<times> dbval)" where
  "cell_of now inserted row = (\<lambda>(c, ty, nullable). sbind
     (if c \<in> set inserted then (case map_of row c of None \<Rightarrow> Inl ''CompileError'' | Some v \<Rightarrow> Inr v)
      else Inr (default_value now c)) (\<lambda>v. sbind (store_cell ty nullable v) (\<lambda>v'. Inr (c, v'))))"

definition excluded_row :: "table \<Rightarrow> datetime \<Rightarrow> string list \<Rightarrow> row_dict \<Rightarrow> string + stored_row" where
  "excluded_row tb now inserted row = sbind (smap (cell_of now inserted row) (table_columns tb)) (\<lambda>cells.
     Inr (\<lambda>c. case map_of cells c of None \<Rightarrow> VNull | Some v \<Rightarrow> v))"

definition fk_ok :: "db \<Rightarrow> table \<Rightarrow> stored_row \<Rightarrow> bool" where
  "fk_ok d tb row = list_all (\<lambda>(c, parent). list_ex (\<lambda>p. p ''mal_id'' = row c) (catalogue d parent)) (table_parents tb)"

definition set_table :: "table \<Rightarrow> stored_row list \<Rightarrow> db \<Rightarrow> db" where
  "set_table tb rows d = d\<lparr>catalogue := (catalogue d)(tb := rows)\<rparr>"

text \<open>How an upsert writes: the columns it updates, which of them keep the stored value when the
  new one is NULL, and whether an identical row is left alone.\<close>

record upsert_mode =
  m_columns :: "string list"
  m_keep :: "string list"
  m_only_if_changed :: bool

definition updated_row :: "table \<Rightarrow> datetime \<Rightarrow> upsert_mode \<Rightarrow> stored_row \<Rightarrow> stored_row \<Rightarrow> stored_row" where
  "updated_row tb now mode new old = (\<lambda>c.
     if c = ''updated_at'' \<and> has_updated_at tb then VTime now
     else if c \<in> set (m_columns mode) then (if c \<in> set (m_keep mode) \<and> new c = VNull then old c else new c)
     else old c)"

definition differs :: "upsert_mode \<Rightarrow> stored_row \<Rightarrow> stored_row \<Rightarrow> bool" where
  "differs mode new old \<longleftrightarrow> list_ex (\<lambda>c. old c \<noteq> new c) (m_columns mode)"

type_synonym upsert_state = "stored_row list \<times> int \<times> stored_row list"

definition upsert_entry :: "table \<Rightarrow> datetime \<Rightarrow> string list \<Rightarrow> upsert_mode \<Rightarrow> row_dict
    \<Rightarrow> upsert_state \<Rightarrow> string + upsert_state" where
  "upsert_entry tb now inserted mode row = (\<lambda>(rows, n, touched).
     sbind (excluded_row tb now inserted row) (\<lambda>new.
     case find (\<lambda>r. row_key tb r = row_key tb new) rows of
       None \<Rightarrow> Inr (rows @ [new], n + 1, new # touched)
     | Some old \<Rightarrow>
         if row_key tb new \<in> row_key tb ` set touched then Inl ''CardinalityViolationError''
         else if m_only_if_changed mode \<and> \<not> differs mode new old then Inr (rows, n, touched)
         else (let row' = updated_row tb now mode new old in
               Inr (map (\<lambda>r. if row_key tb r = row_key tb new then row' else r) rows, n + 1, row' # touched))))"

definition upsert_stmt :: "table \<Rightarrow> upsert_mode \<Rightarrow> row_dict list \<Rightarrow> (db, int) stmt" where
  "upsert_stmt tb mode entries now d =
     (let inserted = map fst (hd entries) in
      if \<not> set inserted \<subseteq> set (map fst (table_columns tb)) then Inl ''CompileError''
      else sbind (sfold (upsert_entry tb now inserted mode) entries (catalogue d tb, 0, [])) (\<lambda>(rows, n, touched).
        if list_all (fk_ok d tb) touched then Inr (n, set_table tb rows d)
        else Inl ''ForeignKeyViolationError''))"

definition insert_entry :: "table \<Rightarrow> datetime \<Rightarrow> string list \<Rightarrow> row_dict \<Rightarrow> stored_row list \<Rightarrow> string + stored_row list" where
  "insert_entry tb now inserted row rows = sbind (excluded_row tb now inserted row) (\<lambda>new.
     if row_key tb new \<in> row_key tb ` set rows then Inl ''UniqueViolationError'' else Inr (rows @ [new]))"

definition insert_stmt :: "table \<Rightarrow> row_dict list \<Rightarrow> (db, unit) stmt" where
  "insert_stmt tb entries now d =
     (let inserted = map fst (hd entries) in
      if \<not> set inserted \<subseteq> set (map fst (table_columns tb)) then Inl ''CompileError''
      else sbind (sfold (insert_entry tb now inserted) entries (catalogue d tb)) (\<lambda>rows.
        if list_all (fk_ok d tb) (drop (length (catalogue d tb)) rows) then Inr ((), set_table tb rows d)
        else Inl ''ForeignKeyViolationError''))"

section \<open>The repository\<close>

definition rows_per_statement :: nat where "rows_per_statement = 500"

definition cat_query :: "'s env \<Rightarrow> ((table \<Rightarrow> stored_row list) \<Rightarrow> 'a) \<Rightarrow> ('s, 'a) io" where
  "cat_query e f = exec_work e (query (\<lambda>d. f (catalogue d)))"

fun int_cell :: "dbval \<Rightarrow> int" where
  "int_cell (VInt i) = i"
| "int_cell _ = 0"

fun text_cell :: "dbval \<Rightarrow> string" where
  "text_cell (VText s) = s"
| "text_cell _ = []"

definition ids_of :: "stored_row list \<Rightarrow> int list" where
  "ids_of rows = map (\<lambda>r. int_cell (r ''mal_id'')) rows"

definition anime_exists :: "'s env \<Rightarrow> int \<Rightarrow> ('s, bool) io" where
  "anime_exists e mal_id = cat_query e (\<lambda>c. mal_id \<in> set (ids_of (c TAnime)))"

definition anime_ids_with_status :: "'s env \<Rightarrow> string list \<Rightarrow> ('s, int list) io" where
  "anime_ids_with_status e statuses = (if statuses = [] then ret []
     else cat_query e (\<lambda>c. ids_of (filter (\<lambda>r. r ''status'' \<in> VText ` set statuses) (c TAnime))))"

definition existing_anime_ids :: "'s env \<Rightarrow> int list \<Rightarrow> ('s, int list) io" where
  "existing_anime_ids e ids = (if ids = [] then ret []
     else cat_query e (\<lambda>c. filter (\<lambda>i. i \<in> set ids) (ids_of (c TAnime))))"

definition get_synopsis_hash :: "'s env \<Rightarrow> int \<Rightarrow> ('s, string option) io" where
  "get_synopsis_hash e mal_id = cat_query e (\<lambda>c.
     case find (\<lambda>r. r ''mal_id'' = VInt mal_id) (c TAnime) of
       None \<Rightarrow> None
     | Some r \<Rightarrow> (case r ''synopsis_hash'' of VText s \<Rightarrow> Some s | _ \<Rightarrow> None))"

definition names_of :: "stored_row list \<Rightarrow> (int \<times> string) list" where
  "names_of rows = map (\<lambda>r. (int_cell (r ''mal_id''), text_cell (r ''name''))) rows"

definition get_tags :: "'s env \<Rightarrow> ('s, (int \<times> string) list) io" where
  "get_tags e = cat_query e (\<lambda>c. names_of (c TTag))"

definition get_studios :: "'s env \<Rightarrow> ('s, (int \<times> string) list) io" where
  "get_studios e = cat_query e (\<lambda>c. names_of (c TStudio))"

text \<open>`_upsert`, in statements of 500 rows; the columns it updates are those of the first row.\<close>

definition upsert_columns :: "table \<Rightarrow> row_dict list \<Rightarrow> string list" where
  "upsert_columns tb rows = filter (\<lambda>c. c \<notin> set (table_keys tb)) (map fst (hd rows))"

definition cat_upsert :: "'s env \<Rightarrow> table \<Rightarrow> row_dict list \<Rightarrow> bool \<Rightarrow> string list \<Rightarrow> ('s, int) io" where
  "cat_upsert e tb rows only_if_changed keep_when_new_is_null =
     (if rows = [] then ret 0 else
      let mode = \<lparr>m_columns = upsert_columns tb rows, m_keep = keep_when_new_is_null,
                  m_only_if_changed = only_if_changed\<rparr> in
      bnd (map_prog (\<lambda>chunk. exec_work e (upsert_stmt tb mode chunk)) (chunks rows_per_statement rows)) (\<lambda>ns.
      ret (sum_list ns)))"

definition upsert_anime :: "'s env \<Rightarrow> row_dict list \<Rightarrow> ('s, int) io" where
  "upsert_anime e rows = cat_upsert e TAnime rows True []"

definition named_rows :: "(int \<times> string) list \<Rightarrow> row_dict list" where
  "named_rows xs = map (\<lambda>(i, name). [(''mal_id'', VInt i), (''name'', VText name)]) xs"

definition upsert_tags :: "'s env \<Rightarrow> (int \<times> string) list \<Rightarrow> ('s, int) io" where
  "upsert_tags e tags = cat_upsert e TTag (named_rows tags) False []"

definition upsert_studios :: "'s env \<Rightarrow> (int \<times> string) list \<Rightarrow> ('s, int) io" where
  "upsert_studios e studios = cat_upsert e TStudio (named_rows studios) False []"

definition upsert_statistics :: "'s env \<Rightarrow> row_dict list \<Rightarrow> ('s, int) io" where
  "upsert_statistics e rows = cat_upsert e TStatistics rows False []"

definition upsert_episodes :: "'s env \<Rightarrow> row_dict list \<Rightarrow> ('s, int) io" where
  "upsert_episodes e rows = cat_upsert e TEpisode rows False [''synopsis'', ''synopsis_hash'']"

definition upsert_reviews :: "'s env \<Rightarrow> row_dict list \<Rightarrow> ('s, int) io" where
  "upsert_reviews e rows = cat_upsert e TReview rows False []"

text \<open>
  A link of a link table: a tag or studio id (with the empty text), or a relation name with the
  related id.  Python's sets of links are lists without order or duplicates here.
\<close>

type_synonym link = "string \<times> int"

fun link_cells :: "table \<Rightarrow> link \<Rightarrow> row_dict" where
  "link_cells TAnimeTag (_, i) = [(''tag_id'', VInt i)]"
| "link_cells TAnimeStudio (_, i) = [(''studio_id'', VInt i)]"
| "link_cells _ (relation, i) = [(''relation'', VText relation), (''related_mal_id'', VInt i)]"

fun row_link :: "table \<Rightarrow> stored_row \<Rightarrow> link" where
  "row_link TAnimeTag r = ([], int_cell (r ''tag_id''))"
| "row_link TAnimeStudio r = ([], int_cell (r ''studio_id''))"
| "row_link _ r = (text_cell (r ''relation''), int_cell (r ''related_mal_id''))"

definition stored_links :: "table \<Rightarrow> stored_row list \<Rightarrow> int \<Rightarrow> link set" where
  "stored_links tb rows anime = row_link tb ` set (filter (\<lambda>r. r ''anime_id'' = VInt anime) rows)"

definition changed_links :: "table \<Rightarrow> (int, link list) dict \<Rightarrow> stored_row list \<Rightarrow> int list" where
  "changed_links tb wanted rows =
     map fst (filter (\<lambda>(anime, links). stored_links tb rows anime \<noteq> set links) wanted)"

definition link_rows :: "table \<Rightarrow> (int, link list) dict \<Rightarrow> int list \<Rightarrow> row_dict list" where
  "link_rows tb wanted changed = concat (map (\<lambda>anime.
     map (\<lambda>l. (''anime_id'', VInt anime) # link_cells tb l)
       (case map_of wanted anime of None \<Rightarrow> [] | Some links \<Rightarrow> sort (uniq links))) changed)"

definition delete_links :: "table \<Rightarrow> int list \<Rightarrow> (db, unit) stmt" where
  "delete_links tb changed _ d =
     Inr ((), set_table tb (filter (\<lambda>r. r ''anime_id'' \<notin> VInt ` set changed) (catalogue d tb)) d)"

definition replace_links :: "'s env \<Rightarrow> table \<Rightarrow> (int, link list) dict \<Rightarrow> ('s, int) io" where
  "replace_links e tb wanted =
     (if wanted = [] then ret 0 else
      bnd (cat_query e (\<lambda>c. changed_links tb wanted (c tb))) (\<lambda>changed.
      if changed = [] then ret 0 else
      bnd (exec_work e (delete_links tb changed)) (\<lambda>_.
      bnd (for_each (\<lambda>chunk. exec_work e (insert_stmt tb chunk))
             (chunks rows_per_statement (link_rows tb wanted changed))) (\<lambda>_.
      ret (int (length changed))))))"

definition replace_anime_tags :: "'s env \<Rightarrow> (int, int list) dict \<Rightarrow> ('s, int) io" where
  "replace_anime_tags e ids = replace_links e TAnimeTag (map (\<lambda>(a, xs). (a, map (Pair []) xs)) ids)"

definition replace_anime_studios :: "'s env \<Rightarrow> (int, int list) dict \<Rightarrow> ('s, int) io" where
  "replace_anime_studios e ids = replace_links e TAnimeStudio (map (\<lambda>(a, xs). (a, map (Pair []) xs)) ids)"

definition replace_relations :: "'s env \<Rightarrow> (int, link list) dict \<Rightarrow> ('s, int) io" where
  "replace_relations e relations = replace_links e TRelation relations"

end
