(* ===== verification/Parsers.thy ===== *)
theory Parsers
  imports Catalogue
begin

text \<open>
  app/ingestion/parsers: stored Tenrai responses (decoded JSON) become rows of the catalogue.  A
  parser is a function to an exception or a result; a model object is its row dict, the columns
  in the order the constructor sets them.  HTML entities, ISO dates and SHA-256 are the parameters
  of `pylib`.
\<close>

section \<open>common.py\<close>

definition text_or_none :: "string \<Rightarrow> string option" where
  "text_or_none s = (if s = [] then None else Some s)"

fun clean_text :: "json \<Rightarrow> string option" where
  "clean_text (JStr s) = text_or_none (strip s)"
| "clean_text _ = None"

fun clean_html_text :: "pylib \<Rightarrow> json \<Rightarrow> string option" where
  "clean_html_text l (JStr s) = clean_text (JStr (unescape l s))"
| "clean_html_text l _ = None"

text \<open>`int(value)`: an infinite float raises OverflowError, which is not caught.\<close>

fun to_int :: "json \<Rightarrow> py_exn + int option" where
  "to_int (JInt i) = Inr (Some i)"
| "to_int (JStr s) = Inr (py_int_of_str s)"
| "to_int (JFloat (FNum q)) = Inr (Some (trunc q))"
| "to_int (JFloat (FInf _)) = Inl OverflowError"
| "to_int (JFloat FNaN) = Inr None"
| "to_int _ = Inr None"

text \<open>
  `Decimal(text)`: spaces around and underscores anywhere are dropped, then an optional sign and
  a number with an optional fraction and exponent, an infinity or a NaN, in any case.  None is
  InvalidOperation.  The exponent of a Decimal has at most 18 digits.
\<close>

definition pow10 :: "int \<Rightarrow> rat" where
  "pow10 n = (if 0 \<le> n then 10 ^ nat n else 1 / 10 ^ nat (- n))"

definition plain_nat :: "string \<Rightarrow> nat" where
  "plain_nat s = foldl (\<lambda>n c. 10 * n + digit_val c) 0 s"

definition exponent_of :: "string \<Rightarrow> int option" where
  "exponent_of s = (case s of
       [] \<Rightarrow> Some 0
     | c # cs \<Rightarrow>
         if lower_char c \<noteq> CHR ''e'' then None
         else let body = (if prefix_of ''-'' cs \<or> prefix_of ''+'' cs then drop 1 cs else cs);
                  value = plain_nat body in
           if body = [] \<or> \<not> list_all is_digit body \<or> 10 ^ 18 \<le> value then None
           else Some (if prefix_of ''-'' cs then - int value else int value))"

definition number_of :: "string \<Rightarrow> rat option" where
  "number_of s = (let whole = takeWhile is_digit s; rest = dropWhile is_digit s;
       dotted = prefix_of ''.'' rest;
       frac = (if dotted then takeWhile is_digit (drop 1 rest) else []);
       tail = (if dotted then dropWhile is_digit (drop 1 rest) else rest) in
     if whole = [] \<and> frac = [] then None
     else map_option (\<lambda>x. of_nat (plain_nat (whole @ frac)) * pow10 (x - int (length frac))) (exponent_of tail))"

definition special_of :: "string \<Rightarrow> decimal option" where
  "special_of s = (let t = lower s in
     if t = ''inf'' \<or> t = ''infinity'' then Some (DInf True)
     else if prefix_of ''nan'' t \<and> list_all is_digit (drop 3 t) then Some DNaN
     else if prefix_of ''snan'' t \<and> list_all is_digit (drop 4 t) then Some DSNaN
     else None)"

definition decimal_of :: "string \<Rightarrow> decimal option" where
  "decimal_of text = (let s = filter (\<lambda>c. c \<noteq> CHR ''_'') (strip text);
       minus = prefix_of ''-'' s; t = (if minus \<or> prefix_of ''+'' s then drop 1 s else s) in
     case number_of t of
       Some q \<Rightarrow> Some (DNum (if minus then - q else q))
     | None \<Rightarrow> (case special_of t of
           Some (DInf b) \<Rightarrow> Some (DInf (\<not> minus))
         | r \<Rightarrow> r))"

text \<open>`Decimal(str(value))`; the text of a list or a dict is no number.\<close>

fun to_decimal :: "json \<Rightarrow> decimal option" where
  "to_decimal (JInt i) = Some (DNum (of_int i))"
| "to_decimal (JFloat (FNum q)) = Some (DNum q)"
| "to_decimal (JFloat (FInf b)) = Some (DInf b)"
| "to_decimal (JFloat FNaN) = Some DNaN"
| "to_decimal (JStr s) = decimal_of s"
| "to_decimal _ = None"

fun to_datetime :: "pylib \<Rightarrow> json \<Rightarrow> datetime option" where
  "to_datetime l (JStr s) = fromisoformat l s"
| "to_datetime l _ = None"

section \<open>Cells\<close>

definition int_or_null :: "int option \<Rightarrow> dbval" where
  "int_or_null x = (case x of None \<Rightarrow> VNull | Some i \<Rightarrow> VInt i)"

definition text_or_null :: "string option \<Rightarrow> dbval" where
  "text_or_null x = (case x of None \<Rightarrow> VNull | Some s \<Rightarrow> VText s)"

definition time_or_null :: "datetime option \<Rightarrow> dbval" where
  "time_or_null x = (case x of None \<Rightarrow> VNull | Some t \<Rightarrow> VTime t)"

definition num_or_null :: "decimal option \<Rightarrow> dbval" where
  "num_or_null x = (case x of None \<Rightarrow> VNull | Some d \<Rightarrow> VNum d)"

definition int_cell_of :: "json \<Rightarrow> py_exn + dbval" where
  "int_cell_of j = sbind (to_int j) (\<lambda>i. Inr (int_or_null i))"

text \<open>The keyword arguments of a constructor are evaluated in order; the first exception wins.\<close>

definition row_of :: "(string \<times> (py_exn + dbval)) list \<Rightarrow> py_exn + row_dict" where
  "row_of cells = smap (\<lambda>(c, r). sbind r (\<lambda>v. Inr (c, v))) cells"

text \<open>The id of a model object, read back from its attribute.\<close>

definition id_in :: "string \<Rightarrow> row_dict \<Rightarrow> int" where
  "id_in c row = (case map_of row c of Some v \<Rightarrow> int_cell v | None \<Rightarrow> 0)"

section \<open>details.py\<close>

definition rewrite_tag :: string where "rewrite_tag = ''[Written by MAL Rewrite]''"

definition placeholder_synopses :: "string list" where
  "placeholder_synopses = [''no synopsis information has been added to this title.'',
     ''no synopsis has been added for this title.'']"

definition seconds_per_unit :: "(string \<times> int) list" where
  "seconds_per_unit = [(''hr'', 3600), (''min'', 60), (''sec'', 1)]"

text \<open>
  `DURATION_PART.findall`: a run of digits, spaces, a unit.  A match starts at the first digit
  of its run; a run that no unit follows holds no match.
\<close>

definition unit_at :: "string \<Rightarrow> (string \<times> int) option" where
  "unit_at s = find (\<lambda>(name, _). prefix_of name s) seconds_per_unit"

function duration_parts :: "string \<Rightarrow> (string \<times> int) list" where
  "duration_parts s = (case s of [] \<Rightarrow> [] | c # cs \<Rightarrow>
     if \<not> is_digit c then duration_parts cs
     else let after = dropWhile is_digit s; unit_text = dropWhile is_space after in
       case unit_at unit_text of
         Some (name, seconds) \<Rightarrow> (takeWhile is_digit s, seconds) # duration_parts (drop (length name) unit_text)
       | None \<Rightarrow> duration_parts after)"
  by pat_completeness auto
termination
proof (relation "measure length", goal_cases)
  case 3
  then show ?case by (simp add: length_dropWhile_le le_imp_less_Suc)
next
  case 4
  have "length (dropWhile P (dropWhile Q xs)) - n < Suc (length xs)" for P Q n and xs :: string
    using length_dropWhile_le [of P "dropWhile Q xs"] length_dropWhile_le [of Q xs] by linarith
  with 4 show ?case by simp
qed auto

declare duration_parts.simps [simp del]

text \<open>`int(n) * SECONDS_PER_UNIT[unit]`, summed; more than 4300 digits raise ValueError.\<close>

definition part_seconds :: "string \<times> int \<Rightarrow> py_exn + int" where
  "part_seconds p = (case py_int_of_str (fst p) of None \<Rightarrow> Inl ValueError | Some n \<Rightarrow> Inr (n * snd p))"

text \<open>
  `round(seconds / 60)`: the float quotient is exact enough below 2^53 (the column takes 32 bits);
  a quotient that no float holds raises OverflowError.
\<close>

definition minutes_of :: "int \<Rightarrow> py_exn + int option" where
  "minutes_of seconds = (if seconds = 0 then Inr None
     else if 60 * (2 ^ 1024 - 2 ^ 970) \<le> seconds then Inl OverflowError
     else Inr (Some (max 1 (round_div seconds 60))))"

fun duration_minutes :: "json \<Rightarrow> py_exn + int option" where
  "duration_minutes (JStr s) = sbind (smap part_seconds (duration_parts s)) (\<lambda>parts. minutes_of (sum_list parts))"
| "duration_minutes _ = Inr None"

definition clean_synopsis :: "pylib \<Rightarrow> json \<Rightarrow> string option" where
  "clean_synopsis l value = (case clean_html_text l value of None \<Rightarrow> None
     | Some text \<Rightarrow> let t = strip (remove_all rewrite_tag text) in
         if t = [] \<or> lower t \<in> set placeholder_synopses then None else Some t)"

definition get_or_empty :: "json \<Rightarrow> string \<Rightarrow> py_exn + json" where
  "get_or_empty j k = sbind (dget j k) (\<lambda>v. Inr (py_or v (JObj [])))"

definition season_year :: "json \<Rightarrow> json \<Rightarrow> py_exn + int option" where
  "season_year data aired = sbind (to_int (field data ''year'')) (\<lambda>year. case year of
       Some y \<Rightarrow> Inr (Some y)
     | None \<Rightarrow> sbind (get_or_empty aired ''prop'') (\<lambda>prop.
         sbind (get_or_empty prop ''from'') (\<lambda>start. sbind (dget start ''year'') to_int)))"

definition image_url :: "json \<Rightarrow> py_exn + string option" where
  "image_url images = (if \<not> is_dict images then Inr None else
     let jpg = py_or (field images ''jpg'') (JObj []); webp = py_or (field images ''webp'') (JObj []) in
     sbind (dget jpg ''large_image_url'') (\<lambda>a. case clean_text a of Some u \<Rightarrow> Inr (Some u) | None \<Rightarrow>
     sbind (dget jpg ''image_url'') (\<lambda>b. case clean_text b of Some u \<Rightarrow> Inr (Some u) | None \<Rightarrow>
     sbind (dget webp ''large_image_url'') (\<lambda>c. Inr (clean_text c)))))"

definition or_else :: "'a option \<Rightarrow> 'a option \<Rightarrow> 'a option" where
  "or_else a b = (case a of None \<Rightarrow> b | Some x \<Rightarrow> Some x)"

definition anime_cells :: "pylib \<Rightarrow> int \<Rightarrow> string \<Rightarrow> json \<Rightarrow> (string \<times> (py_exn + dbval)) list" where
  "anime_cells l mal_id title data =
     (let aired = py_or (field data ''aired'') (JObj []);
          synopsis = clean_synopsis l (field data ''synopsis'');
          html = (\<lambda>k. Inr (text_or_null (clean_html_text l (field data k))));
          plain = (\<lambda>k. Inr (text_or_null (clean_text (field data k))));
          number = (\<lambda>k. int_cell_of (field data k))
      in [(''mal_id'', Inr (VInt mal_id)), (''title'', Inr (VText title)),
          (''title_english'', html ''title_english''), (''title_japanese'', html ''title_japanese''),
          (''type'', plain ''type''), (''status'', plain ''status''), (''rating'', plain ''rating''),
          (''source_material'', plain ''source''), (''season'', plain ''season''),
          (''year'', sbind (season_year data aired) (\<lambda>y. Inr (int_or_null y))),
          (''episodes'', number ''episodes''),
          (''duration_minutes'', sbind (duration_minutes (field data ''duration'')) (\<lambda>m. Inr (int_or_null m))),
          (''aired_from'', sbind (dget aired ''from'') (\<lambda>t. Inr (time_or_null (to_datetime l t)))),
          (''aired_to'', sbind (dget aired ''to'') (\<lambda>t. Inr (time_or_null (to_datetime l t)))),
          (''mal_score'', Inr (num_or_null (to_decimal (field data ''score'')))),
          (''scored_by_mal'', number ''scored_by''), (''members_mal'', number ''members''),
          (''favorites_mal'', number ''favorites''), (''rank_mal'', number ''rank''),
          (''popularity_mal'', number ''popularity''),
          (''synopsis'', Inr (text_or_null synopsis)),
          (''synopsis_hash'', Inr (text_or_null (map_option (sha256_hex l) synopsis))),
          (''background'', html ''background''),
          (''image_url'', sbind (image_url (field data ''images'')) (\<lambda>u. Inr (text_or_null u)))])"

definition data_of :: "json \<Rightarrow> json" where
  "data_of payload = (if is_dict payload then field payload ''data'' else JNull)"

definition clean_full :: "pylib \<Rightarrow> json \<Rightarrow> py_exn + row_dict option" where
  "clean_full l payload = (let data = data_of payload in
     if \<not> is_dict data then Inr None else
     sbind (to_int (field data ''mal_id'')) (\<lambda>mal_id.
     case mal_id of None \<Rightarrow> Inr None | Some i \<Rightarrow>
       if i = 0 then Inr None else
       case or_else (clean_html_text l (field data ''title''))
              (or_else (clean_html_text l (field data ''title_english'')) (clean_html_text l (field data ''title_japanese''))) of
         None \<Rightarrow> Inr None
       | Some title \<Rightarrow> sbind (row_of (anime_cells l i title data)) (\<lambda>row. Inr (Some row))))"

section \<open>Dicts of rows\<close>

text \<open>
  The loops that collect rows in a dict by their id: an item that parses to nothing is skipped, an
  id seen again keeps its place and takes the later row.
\<close>

definition collect_row :: "(json \<Rightarrow> py_exn + ('k \<times> 'v) option) \<Rightarrow> json \<Rightarrow> ('k, 'v) dict \<Rightarrow> py_exn + ('k, 'v) dict" where
  "collect_row parse item d = sbind (parse item) (\<lambda>r.
     Inr (case r of None \<Rightarrow> d | Some (k, v) \<Rightarrow> AList.update k v d))"

definition collect_rows :: "(json \<Rightarrow> py_exn + ('k \<times> 'v) option) \<Rightarrow> json list \<Rightarrow> py_exn + ('k, 'v) dict" where
  "collect_rows parse items = sfold (collect_row parse) items []"

section \<open>episodes.py\<close>

text \<open>
  Products of the default decimal context: 28 significant digits, half to even, exponents up to
  999999; a larger result raises Overflow and a signaling NaN raises InvalidOperation.
\<close>

definition adjusted :: "rat \<Rightarrow> int" where
  "adjusted q = (if 1 \<le> \<bar>q\<bar> then int (length (digits (nat \<lfloor>\<bar>q\<bar>\<rfloor>))) - 1
     else - int (length (digits (nat (\<lceil>1 / \<bar>q\<bar>\<rceil> - 1)))))"

definition context_round :: "rat \<Rightarrow> py_exn + decimal" where
  "context_round q = (if q = 0 then Inr (DNum 0) else
     let unit = pow10 (max (adjusted q - 27) (- 1000026)); r = of_int (py_round (q / unit)) * unit in
     if 10 ^ 1000000 \<le> \<bar>r\<bar> then Inl (LibraryError ''Overflow'') else Inr (DNum r))"

fun decimal_double :: "decimal \<Rightarrow> py_exn + decimal" where
  "decimal_double (DNum q) = context_round (q * 2)"
| "decimal_double DSNaN = Inl (LibraryError ''InvalidOperation'')"
| "decimal_double d = Inr d"

definition episode_score :: "json \<Rightarrow> py_exn + decimal option" where
  "episode_score value = (case to_decimal value of
       None \<Rightarrow> Inr None
     | Some d \<Rightarrow> if d = DNum 0 then Inr None else sbind (decimal_double d) (\<lambda>r. Inr (Some r)))"

definition episode_cells :: "pylib \<Rightarrow> int \<Rightarrow> int \<Rightarrow> json \<Rightarrow> (string \<times> (py_exn + dbval)) list" where
  "episode_cells l anime_id number item =
     (let synopsis = clean_html_text l (field item ''synopsis'');
          html = (\<lambda>k. Inr (text_or_null (clean_html_text l (field item k))))
      in [(''anime_id'', Inr (VInt anime_id)), (''episode_number'', Inr (VInt number)),
          (''title'', html ''title''), (''title_japanese'', html ''title_japanese''),
          (''title_romanji'', html ''title_romanji''),
          (''aired'', Inr (time_or_null (to_datetime l (field item ''aired'')))),
          (''duration_seconds'', sbind (to_int (field item ''duration'')) (\<lambda>n.
             Inr (int_or_null (if n = Some 0 then None else n)))),
          (''synopsis'', Inr (text_or_null synopsis)),
          (''synopsis_hash'', Inr (text_or_null (map_option (sha256_hex l) synopsis))),
          (''filler'', Inr (VBool (truthy (field item ''filler'')))),
          (''recap'', Inr (VBool (truthy (field item ''recap'')))),
          (''mal_score'', sbind (episode_score (field item ''score'')) (\<lambda>s. Inr (num_or_null s)))])"

definition clean_episode :: "pylib \<Rightarrow> int \<Rightarrow> json \<Rightarrow> py_exn + (int \<times> row_dict) option" where
  "clean_episode l anime_id item = (if \<not> is_dict item then Inr None else
     sbind (to_int (field item ''mal_id'')) (\<lambda>n. case n of None \<Rightarrow> Inr None | Some number \<Rightarrow>
     sbind (row_of (episode_cells l anime_id number item)) (\<lambda>row. Inr (Some (number, row)))))"

definition page_items :: "json \<Rightarrow> json list" where
  "page_items page = (if is_dict page then list_items (field page ''data'') else [])"

definition clean_episodes :: "pylib \<Rightarrow> json \<Rightarrow> int \<Rightarrow> py_exn + row_dict list" where
  "clean_episodes l payload anime_id =
     sbind (collect_rows (clean_episode l anime_id) (concat (map page_items (list_items payload))))
       (\<lambda>d. Inr (map snd d))"

section \<open>reviews.py\<close>

definition reactions :: "string list" where
  "reactions = [''overall'', ''nice'', ''love_it'', ''funny'', ''confusing'', ''informative'',
     ''well_written'', ''creative'']"

definition dict_or_empty :: "json \<Rightarrow> json" where
  "dict_or_empty j = (if is_dict j then j else JObj [])"

definition review_cells :: "pylib \<Rightarrow> int \<Rightarrow> int \<Rightarrow> string \<Rightarrow> json \<Rightarrow> (string \<times> (py_exn + dbval)) list" where
  "review_cells l anime_id mal_id text item =
     (let user = dict_or_empty (field item ''user''); reacted = dict_or_empty (field item ''reactions'')
      in [(''mal_id'', Inr (VInt mal_id)), (''anime_id'', Inr (VInt anime_id)),
          (''score'', int_cell_of (field item ''score'')), (''review'', Inr (VText text)),
          (''review_url'', Inr (text_or_null (clean_text (field item ''url'')))),
          (''username'', Inr (text_or_null (clean_text (field user ''username'')))),
          (''username_url'', Inr (text_or_null (clean_text (field user ''url'')))),
          (''date'', Inr (time_or_null (to_datetime l (field item ''date'')))),
          (''is_spoiler'', Inr (VBool (truthy (field item ''is_spoiler'')))),
          (''is_preliminary'', Inr (VBool (truthy (field item ''is_preliminary'')))),
          (''episodes_watched'', int_cell_of (field item ''episodes_watched''))]
         @ map (\<lambda>name. (''reaction_'' @ name, int_cell_of (field reacted name))) reactions)"

definition clean_review :: "pylib \<Rightarrow> int \<Rightarrow> json \<Rightarrow> py_exn + (int \<times> row_dict) option" where
  "clean_review l anime_id item = (if \<not> is_dict item then Inr None else
     sbind (to_int (field item ''mal_id'')) (\<lambda>n.
     case (n, clean_html_text l (field item ''review'')) of
       (Some mal_id, Some text) \<Rightarrow>
         sbind (row_of (review_cells l anime_id mal_id text item)) (\<lambda>row. Inr (Some (mal_id, row)))
     | _ \<Rightarrow> Inr None))"

definition clean_reviews :: "pylib \<Rightarrow> json \<Rightarrow> int \<Rightarrow> py_exn + row_dict list" where
  "clean_reviews l payload anime_id =
     sbind (collect_rows (clean_review l anime_id) (page_items payload)) (\<lambda>d. Inr (map snd d))"

section \<open>statistics.py\<close>

definition count_names :: "string list" where
  "count_names = [''watching'', ''completed'', ''on_hold'', ''dropped'', ''plan_to_watch'', ''total'']"

definition votes_key :: "int \<Rightarrow> string" where
  "votes_key score = ''votes_'' @ str_int score"

definition count_vote :: "json \<Rightarrow> (string, int option) dict \<Rightarrow> py_exn + (string, int option) dict" where
  "count_vote item votes =
     sbind (if is_dict item then to_int (field item ''score'') else Inr None) (\<lambda>score. case score of
         None \<Rightarrow> Inr votes
       | Some s \<Rightarrow> if s \<in> {1..10}
           then sbind (to_int (field item ''votes'')) (\<lambda>v. Inr (AList.update (votes_key s) v votes))
           else Inr votes)"

definition no_votes :: "(string, int option) dict" where
  "no_votes = map (\<lambda>s. (votes_key s, None)) [1..10]"

definition votes_of :: "json \<Rightarrow> py_exn + (string, int option) dict" where
  "votes_of scores = sfold count_vote (list_items scores) no_votes"

definition int_cells :: "(string, int option) dict \<Rightarrow> row_dict" where
  "int_cells d = map (\<lambda>(k, v). (k, int_or_null v)) d"

definition clean_statistics :: "pylib \<Rightarrow> json \<Rightarrow> int \<Rightarrow> py_exn + row_dict option" where
  "clean_statistics l payload anime_id = (let data = data_of payload in
     if \<not> is_dict data then Inr None else
     sbind (smap (\<lambda>name. sbind (to_int (field data name)) (\<lambda>n. Inr (name, n))) count_names) (\<lambda>counts.
     if list_ex (\<lambda>(_, n). n = None) counts then Inr None else
     sbind (votes_of (field data ''scores'')) (\<lambda>votes.
     Inr (Some ((''anime_id'', VInt anime_id) # int_cells counts @ int_cells votes)))))"

section \<open>links.py\<close>

definition tag_lists :: "string list" where "tag_lists = [''genres'', ''themes'', ''demographics'']"
definition studio_lists :: "string list" where "studio_lists = [''studios'']"

definition named_item :: "json \<Rightarrow> py_exn + (int \<times> string) option" where
  "named_item item = (if \<not> is_dict item then Inr None else
     sbind (to_int (field item ''mal_id'')) (\<lambda>n.
     Inr (case (n, clean_text (field item ''name'')) of (Some i, Some name) \<Rightarrow> Some (i, name) | _ \<Rightarrow> None)))"

definition keep_first :: "json \<Rightarrow> (int, string) dict \<Rightarrow> py_exn + (int, string) dict" where
  "keep_first item found = sbind (named_item item) (\<lambda>r.
     Inr (case r of None \<Rightarrow> found | Some (i, name) \<Rightarrow> setdefault i name found))"

definition named_items :: "string list \<Rightarrow> json \<Rightarrow> py_exn + (int \<times> string) list" where
  "named_items list_names payload = (let data = data_of payload in
     if \<not> is_dict data then Inr []
     else sfold keep_first (concat (map (\<lambda>name. list_items (field data name)) list_names)) [])"

definition extract_tags :: "json \<Rightarrow> py_exn + (int \<times> string) list" where
  "extract_tags payload = named_items tag_lists payload"

definition extract_studios :: "json \<Rightarrow> py_exn + (int \<times> string) list" where
  "extract_studios payload = named_items studio_lists payload"

text \<open>The dict of pairs with the value None: its keys, first occurrences in order.\<close>

definition relation_entry :: "string option \<Rightarrow> json \<Rightarrow> link list \<Rightarrow> py_exn + link list" where
  "relation_entry relation entry found =
     (if \<not> is_dict entry \<or> field entry ''type'' \<noteq> JStr ''anime'' then Inr found else
      sbind (to_int (field entry ''mal_id'')) (\<lambda>related.
      Inr (case (relation, related) of
          (Some name, Some i) \<Rightarrow> if (name, i) \<in> set found then found else found @ [(name, i)]
        | _ \<Rightarrow> found)))"

definition relation_group :: "json \<Rightarrow> link list \<Rightarrow> py_exn + link list" where
  "relation_group grp found = (if \<not> is_dict grp then Inr found else
     sfold (relation_entry (clean_text (field grp ''relation''))) (list_items (field grp ''entry'')) found)"

definition extract_relations :: "json \<Rightarrow> py_exn + link list" where
  "extract_relations payload = (let data = data_of payload in
     sfold relation_group (if is_dict data then list_items (field data ''relations'') else []) [])"

end
