(* ===== verification/Rate_Control.thy ===== *)
theory Rate_Control
  imports Ingest_Model
begin

text \<open>
  app/ingestion/utils: the rate limiter and the circuit breaker of the Tenrai adapter.  The
  limiter is the spacing of its admissions; the breaker is a small state machine whose state is
  determined by the failures since the last success.
\<close>

section \<open>RateLimiter\<close>

definition interval :: "'s env \<Rightarrow> rat" where
  "interval e = 60 / requests_per_minute e"

text \<open>The constructor: the interval it keeps, or a ValueError.\<close>

definition new_rate_limiter :: "'s env \<Rightarrow> py_exn + rat" where
  "new_rate_limiter e = (if requests_per_minute e \<le> 0 then Inl ValueError else Inr (interval e))"

definition stamp :: "rat \<Rightarrow> 's world \<Rightarrow> 's world" where
  "stamp t w = w\<lparr>last_request_time := Some t, stamps := t # stamps w\<rparr>"

definition acquire :: "'s env \<Rightarrow> ('s, unit) io" where
  "acquire e = bnd (look last_request_time) (\<lambda>last. case last of
     None \<Rightarrow> bnd (monotonic e) (\<lambda>t. update (stamp t))
   | Some t0 \<Rightarrow>
       bnd (monotonic e) (\<lambda>now. let elapsed = now - t0 in
       bnd (if elapsed < interval e then py_sleep e (interval e - elapsed) else ret ()) (\<lambda>_.
       bnd (monotonic e) (\<lambda>t. update (stamp t)))))"

text \<open>`spaced i ts`: the times, latest first, are at least `i` apart.\<close>

fun spaced :: "rat \<Rightarrow> rat list \<Rightarrow> bool" where
  "spaced i (t1 # t0 # ts) = (t0 + i \<le> t1 \<and> spaced i (t0 # ts))"
| "spaced i _ = True"

definition limiter_inv :: "'s env \<Rightarrow> 's world \<Rightarrow> bool" where
  "limiter_inv e w \<longleftrightarrow> spaced (interval e) (stamps w)
     \<and> last_request_time w = (case stamps w of [] \<Rightarrow> None | t # _ \<Rightarrow> Some t)"

lemma limiter_inv_frame [simp]:
  "limiter_inv e (w\<lparr>steps := n\<rparr>) = limiter_inv e w"
  "limiter_inv e (w\<lparr>slept := d\<rparr>) = limiter_inv e w"
  "limiter_inv e (w\<lparr>wsess := x1\<rparr>) = limiter_inv e w"
  "limiter_inv e (w\<lparr>msess := x2\<rparr>) = limiter_inv e w"
  "limiter_inv e (w\<lparr>run_seq := x3\<rparr>) = limiter_inv e w"
  "limiter_inv e (w\<lparr>s3 := x4\<rparr>) = limiter_inv e w"
  "limiter_inv e (w\<lparr>breaker := x5\<rparr>) = limiter_inv e w"
  "limiter_inv e (w\<lparr>request_count := x6\<rparr>) = limiter_inv e w"
  "limiter_inv e (w\<lparr>retry_count := x6\<rparr>) = limiter_inv e w"
  "limiter_inv e (w\<lparr>rate_limited_count := x6\<rparr>) = limiter_inv e w"
  "limiter_inv e (w\<lparr>j_raw_bytes := x6\<rparr>) = limiter_inv e w"
  "limiter_inv e (w\<lparr>j_unexpected_in_a_row := x6\<rparr>) = limiter_inv e w"
  "limiter_inv e (w\<lparr>j_denied_in_a_row := x6\<rparr>) = limiter_inv e w"
  by (simp_all add: limiter_inv_def)

text \<open>
  The clock never goes back.  With it, however long the sleep really took, an admission comes at
  least one interval after the one before.
\<close>

lemma stamp_spaced:
  assumes "limiter_inv e w" and "last_request_time w = Some t0" and "t0 + interval e \<le> t"
  shows "limiter_inv e (stamp t w)"
  using assms by (cases "stamps w") (auto simp: limiter_inv_def stamp_def)

lemma keeps_acquire:
  assumes mono: "mono (mclock e)"
  shows "keeps (limiter_inv e) (acquire e)"
  unfolding keeps_def
proof (intro allI impI)
  fix w
  assume inv: "limiter_inv e w"
  show "limiter_inv e (snd (acquire e w))"
  proof (cases "last_request_time w")
    case None
    then have "stamps w = []" using inv by (auto simp: limiter_inv_def split: list.splits)
    then show ?thesis using None
      by (simp add: acquire_def prog_defs monotonic_def tick_def stamp_def limiter_inv_def)
  next
    case (Some t0)
    let ?n = "steps w" let ?now = "mclock e ?n + slept w"
    let ?w1 = "w\<lparr>steps := Suc ?n\<rparr>"
    let ?d = "interval e - (?now - t0)"
    let ?w2 = "w\<lparr>steps := Suc (Suc ?n), slept := slept w + max 0 ?d\<rparr>"
    have m1: "mclock e ?n \<le> mclock e (Suc ?n)" and m2: "mclock e ?n \<le> mclock e (Suc (Suc ?n))"
      using mono by (simp_all add: monoD)
    show ?thesis
    proof (cases "?now - t0 < interval e")
      case True
      have "limiter_inv e (stamp (mclock e (Suc (Suc ?n)) + slept ?w2) (?w2\<lparr>steps := Suc (Suc (Suc ?n))\<rparr>))"
        by (rule stamp_spaced) (use inv Some True m2 in auto)
      moreover have "limiter_inv e (w\<lparr>steps := Suc (Suc ?n)\<rparr>)" using inv by simp
      ultimately show ?thesis using Some True
        by (simp add: acquire_def prog_defs monotonic_def tick_def py_sleep_def Let_def)
    next
      case False
      have "limiter_inv e (stamp (mclock e (Suc ?n) + slept w) (w\<lparr>steps := Suc (Suc ?n)\<rparr>))"
        by (rule stamp_spaced) (use inv Some False m1 in auto)
      then show ?thesis using Some False
        by (simp add: acquire_def prog_defs monotonic_def tick_def Let_def)
    qed
  qed
qed

lemma raises_tick [raises_rules]: "raises X tick"
  by (simp add: raises_def tick_def)

lemma raises_monotonic [raises_rules]: "raises X (monotonic e)"
  by (auto simp: monotonic_def intro!: raises_rules)

lemma raises_utc_now [raises_rules]: "raises X (utc_now e)"
  by (auto simp: utc_now_def intro!: raises_rules)

lemma raises_py_sleep [raises_rules]: "X Interrupted \<Longrightarrow> raises X (py_sleep e d)"
  by (auto simp: py_sleep_def intro!: raises_rules)

lemma raises_acquire [raises_rules]: "X Interrupted \<Longrightarrow> raises X (acquire e)"
  by (auto simp: acquire_def intro!: raises_rules)

text \<open>Spacing bounds the number of admissions in any window of time.\<close>

lemma spaced_mono: "spaced i (t # ts) \<Longrightarrow> 0 \<le> i \<Longrightarrow> u \<in> set ts \<Longrightarrow> u + i \<le> t"
proof (induction ts arbitrary: t)
  case (Cons s ts)
  then show ?case by (fastforce dest: add_increasing2)
qed simp

lemma spaced_window:
  assumes "spaced i ts" and "0 < i" and "filter (\<lambda>u. a \<le> u \<and> u < a + d) ts \<noteq> []" and "0 < d"
  shows "of_nat (length (filter (\<lambda>u. a \<le> u \<and> u < a + d) ts) - 1) * i
           \<le> hd (filter (\<lambda>u. a \<le> u \<and> u < a + d) ts) - a"
  using assms
proof (induction ts)
  case (Cons t ts)
  let ?in = "\<lambda>u. a \<le> u \<and> u < a + d" let ?f = "filter ?in ts"
  have sp: "spaced i ts" using Cons.prems(1) by (cases ts) auto
  show ?case
  proof (cases "?in t")
    case False
    with Cons sp show ?thesis by (simp add: conj_imp_eq_imp_imp del: filter.simps)
      (metis (no_types, lifting) filter.simps(2))
  next
    case True
    show ?thesis
    proof (cases "?f = []")
      case True
      with \<open>?in t\<close> show ?thesis by simp
    next
      case False
      with Cons sp have IH: "of_nat (length ?f - 1) * i \<le> hd ?f - a" by simp
      have "hd ?f \<in> set ts" using False by (metis filter_is_subset hd_in_set subsetD)
      with Cons.prems have "hd ?f + i \<le> t" by (intro spaced_mono [of i t ts]) auto
      moreover have "of_nat (length ?f) * i = of_nat (length ?f - 1) * i + i"
        using False by (cases ?f) (auto simp: algebra_simps)
      ultimately show ?thesis using IH \<open>?in t\<close> by simp
    qed
  qed
qed simp

lemma spaced_count:
  assumes "spaced (60 / r) ts" and "0 < r"
  shows "int (length (filter (\<lambda>u. a \<le> u \<and> u < a + 60) ts)) \<le> \<lceil>r\<rceil>"
proof (cases "filter (\<lambda>u. a \<le> u \<and> u < a + 60) ts")
  case Nil
  then show ?thesis using assms(2) by simp
next
  case (Cons x xs)
  let ?f = "filter (\<lambda>u. a \<le> u \<and> u < a + 60) ts"
  have i: "0 < 60 / r" using assms(2) by simp
  have "of_nat (length ?f - 1) * (60 / r) \<le> hd ?f - a"
    by (rule spaced_window) (use assms i Cons in auto)
  moreover have "hd ?f - a < 60"
  proof -
    have "hd ?f \<in> set ?f" using Cons by (metis hd_in_set list.distinct(1))
    then show ?thesis by simp
  qed
  ultimately have "of_nat (length xs) * (60 / r) < 60" using Cons by simp
  then have "of_nat (length xs) < r" using assms(2) by (simp add: field_simps)
  then have "int (length xs) < \<lceil>r\<rceil>" by (simp add: less_ceiling_iff)
  then show ?thesis using Cons by simp
qed

section \<open>CircuitBreaker\<close>

definition new_breaker :: "int \<Rightarrow> rat \<Rightarrow> py_exn + circuit_breaker" where
  "new_breaker threshold cooldown =
     (if threshold < 1 then Inl ValueError
      else if cooldown \<le> 0 then Inl ValueError
      else Inr \<lparr>failure_threshold = threshold, cooldown_s = cooldown, consecutive_failures = 0,
                opened_at = None\<rparr>)"

definition is_open :: "circuit_breaker \<Rightarrow> bool" where
  "is_open b \<longleftrightarrow> opened_at b \<noteq> None"

definition remaining :: "rat \<Rightarrow> rat \<Rightarrow> circuit_breaker \<Rightarrow> rat" where
  "remaining now t b = cooldown_s b - (now - t)"

definition breaker_check :: "'s env \<Rightarrow> ('s, unit) io" where
  "breaker_check e = bnd (look breaker) (\<lambda>b. case opened_at b of
     None \<Rightarrow> ret ()
   | Some t \<Rightarrow> bnd (monotonic e) (\<lambda>now.
       if 0 < remaining now t b then raise (CircuitOpenError (remaining now t b)) else ret ()))"

definition succeed :: "circuit_breaker \<Rightarrow> circuit_breaker" where
  "succeed b = b\<lparr>consecutive_failures := 0, opened_at := None\<rparr>"

definition count_failure :: "circuit_breaker \<Rightarrow> circuit_breaker" where
  "count_failure b = b\<lparr>consecutive_failures := consecutive_failures b + 1\<rparr>"

definition fail_at :: "rat \<Rightarrow> circuit_breaker \<Rightarrow> circuit_breaker" where
  "fail_at now b = (let b' = count_failure b in
     if failure_threshold b' \<le> consecutive_failures b' then b'\<lparr>opened_at := Some now\<rparr> else b')"

definition record_success :: "('s, unit) io" where
  "record_success = update (\<lambda>w. w\<lparr>breaker := succeed (breaker w)\<rparr>)"

text \<open>The clock is read only when the threshold is reached.\<close>

definition record_failure :: "'s env \<Rightarrow> ('s, unit) io" where
  "record_failure e =
     bnd (update (\<lambda>w. w\<lparr>breaker := count_failure (breaker w)\<rparr>)) (\<lambda>_.
     bnd (look breaker) (\<lambda>b.
     if failure_threshold b \<le> consecutive_failures b
     then bnd (monotonic e) (\<lambda>now. update (\<lambda>w. w\<lparr>breaker := b\<lparr>opened_at := Some now\<rparr>\<rparr>))
     else ret ()))"

text \<open>The breaker as a machine over its two events.\<close>

datatype breaker_event = Success | Failure rat

fun breaker_step :: "circuit_breaker \<Rightarrow> breaker_event \<Rightarrow> circuit_breaker" where
  "breaker_step b Success = succeed b"
| "breaker_step b (Failure now) = fail_at now b"

definition breaker_inv :: "circuit_breaker \<Rightarrow> bool" where
  "breaker_inv b \<longleftrightarrow> 1 \<le> failure_threshold b \<and> 0 \<le> consecutive_failures b
     \<and> (is_open b \<longleftrightarrow> failure_threshold b \<le> consecutive_failures b)"

lemma new_breaker_inv: "new_breaker n c = Inr b \<Longrightarrow> breaker_inv b"
  by (auto simp: new_breaker_def breaker_inv_def is_open_def split: if_splits)

lemma breaker_step_inv: "breaker_inv b \<Longrightarrow> breaker_inv (breaker_step b ev)"
  by (cases ev) (auto simp: breaker_inv_def is_open_def succeed_def fail_at_def count_failure_def Let_def)

interpretation breaker: machine breaker_step breaker_inv
  by unfold_locales (rule breaker_step_inv)

lemma breaker_run_inv: "breaker_inv b \<Longrightarrow> breaker_inv (foldl breaker_step b evs)"
  by (rule breaker.run_inv)

fun is_failure :: "breaker_event \<Rightarrow> bool" where
  "is_failure (Failure _) = True"
| "is_failure Success = False"

definition failures_in_a_row :: "breaker_event list \<Rightarrow> nat" where
  "failures_in_a_row evs = length (takeWhile is_failure (rev evs))"

lemma failures_in_a_row_snoc [simp]:
  "failures_in_a_row [] = 0"
  "failures_in_a_row (evs @ [Success]) = 0"
  "failures_in_a_row (evs @ [Failure t]) = Suc (failures_in_a_row evs)"
  by (simp_all add: failures_in_a_row_def)

lemma run_failures:
  assumes "consecutive_failures b = 0"
  shows "consecutive_failures (foldl breaker_step b evs) = int (failures_in_a_row evs)
       \<and> failure_threshold (foldl breaker_step b evs) = failure_threshold b
       \<and> cooldown_s (foldl breaker_step b evs) = cooldown_s b"
proof (induction evs rule: rev_induct)
  case Nil
  then show ?case using assms by simp
next
  case (snoc ev evs)
  then show ?case by (cases ev) (simp_all add: succeed_def fail_at_def count_failure_def Let_def)
qed

lemma keeps_record_success [keeps_rules]:
  "(\<And>w b. P w \<Longrightarrow> P (w\<lparr>breaker := b\<rparr>)) \<Longrightarrow> keeps P record_success"
  by (auto simp: record_success_def intro!: keeps_rules)

lemma keeps_record_failure [keeps_rules]:
  "(\<And>w b. P w \<Longrightarrow> P (w\<lparr>breaker := b\<rparr>)) \<Longrightarrow> (\<And>w n. P w \<Longrightarrow> P (w\<lparr>steps := n\<rparr>))
     \<Longrightarrow> keeps P (record_failure e)"
  by (auto simp: record_failure_def intro!: keeps_rules)

lemma keeps_breaker_check [keeps_rules]:
  "(\<And>w n. P w \<Longrightarrow> P (w\<lparr>steps := n\<rparr>)) \<Longrightarrow> keeps P (breaker_check e)"
  by (auto simp: breaker_check_def intro!: keeps_rules)

section \<open>Properties\<close>

text \<open>C7. A breaker built with threshold n is open exactly when at least n calls in a row have failed
  since the last success (or since the start), whatever the calls before were.\<close>

theorem breaker_opens:
  assumes "new_breaker n c = Inr b"
  shows "is_open (foldl breaker_step b evs) = (n \<le> int (failures_in_a_row evs))"
proof -
  have b: "consecutive_failures b = 0" "failure_threshold b = n"
    using assms by (auto simp: new_breaker_def split: if_splits)
  have "breaker_inv (foldl breaker_step b evs)"
    by (rule breaker_run_inv) (rule new_breaker_inv [OF assms])
  then show ?thesis using run_failures [OF b(1), of evs] b(2) by (simp add: breaker_inv_def)
qed

theorem breaker_opens_witness:
  "is_open (foldl breaker_step \<lparr>failure_threshold = 2, cooldown_s = 60, consecutive_failures = 0,
     opened_at = None\<rparr> [Failure 1, Success, Failure 2, Failure 3])"
  by (subst breaker_opens [of 2 60]) (simp_all add: new_breaker_def failures_in_a_row_def)

end
