(* ===== verification/Tenrai.thy ===== *)
theory Tenrai
  imports Rate_Control
begin

text \<open>
  app/ingestion/adapters/tenrai.py: one call is up to `max_attempts` HTTP requests, each let
  through by the rate limiter, with the outcome of the call reported to the circuit breaker.  The
  HTTP client is the parameter `http`.
\<close>

definition default_retry_after :: rat where
  "default_retry_after = 30"

definition retryable_statuses :: "int list" where
  "retryable_statuses = [500, 502, 503, 504]"

definition access_denied_statuses :: "int list" where
  "access_denied_statuses = [401, 403]"

definition retry_after :: "'s env \<Rightarrow> string option \<Rightarrow> rat" where
  "retry_after e header = (case header of None \<Rightarrow> default_retry_after
     | Some text \<Rightarrow> (case float_of e text of
           None \<Rightarrow> default_retry_after
         | Some (FNum seconds) \<Rightarrow> if seconds < 0 then default_retry_after else seconds
         | Some _ \<Rightarrow> default_retry_after))"

text \<open>Why the last attempt failed: its text, its status, and whether it was the network.\<close>

type_synonym last_failure = "string \<times> int option \<times> bool"

definition http_get :: "'s env \<Rightarrow> string \<Rightarrow> (string \<times> string) list \<Rightarrow> ('s, http_outcome) io" where
  "http_get e endpoint params = bnd tick (\<lambda>n. ret (http e n endpoint params))"

definition give_up :: "string \<Rightarrow> nat \<Rightarrow> last_failure option \<Rightarrow> ('s, json) io" where
  "give_up endpoint max_attempts prev = (case prev of
     None \<Rightarrow> raise (OtherError UnboundLocalError)
   | Some (error, status, network) \<Rightarrow>
       (let message = endpoint @ '' failed after '' @ str_int (int max_attempts) @ '' attempts: '' @ error
        in raise (if network then NetworkError message status else TransientError message status)))"

text \<open>
  A response that is not worth a retry: the end of the loop, by a return or an exception.
\<close>

definition final_response :: "string \<Rightarrow> int \<Rightarrow> json option \<Rightarrow> ('s, json) io" where
  "final_response endpoint status body =
     (let text = str_int status @ '' '' @ endpoint in
      if status = 404 then raise (GoneError (''404 '' @ endpoint) (Some 404))
      else if status \<in> set access_denied_statuses then raise (AccessDeniedError text (Some status))
      else if status \<noteq> 200 then raise (PermanentError text (Some status))
      else case body of
          None \<Rightarrow> raise (PermanentError (''invalid JSON '' @ endpoint) (Some 200))
        | Some data \<Rightarrow> ret data)"

text \<open>
  The loop over the attempts: `left` attempts remain, the next one is number
  `attempt`.
\<close>

fun tenrai_attempts :: "'s env \<Rightarrow> string \<Rightarrow> (string \<times> string) list \<Rightarrow> nat \<Rightarrow> nat \<Rightarrow> nat
    \<Rightarrow> last_failure option \<Rightarrow> ('s, json) io" where
  "tenrai_attempts e endpoint params max_attempts 0 attempt prev = give_up endpoint max_attempts prev"
| "tenrai_attempts e endpoint params max_attempts (Suc left) attempt prev =
     bnd (if 1 < attempt then update (\<lambda>w. w\<lparr>retry_count := retry_count w + 1\<rparr>) else ret ()) (\<lambda>_.
     bnd (acquire e) (\<lambda>_.
     bnd (update (\<lambda>w. w\<lparr>request_count := request_count w + 1\<rparr>)) (\<lambda>_.
     bnd (http_get e endpoint params) (\<lambda>r.
     let backoff = 2 ^ (attempt - 1);
         again = (\<lambda>failure wait. bnd (if attempt < max_attempts then py_sleep e wait else ret ()) (\<lambda>_.
                    tenrai_attempts e endpoint params max_attempts left (Suc attempt) (Some failure)))
     in case r of
          HttpCancelled \<Rightarrow> raise Interrupted
        | HttpRaised x \<Rightarrow> raise (OtherError x)
        | TransportError error \<Rightarrow> again (error, None, True) backoff
        | Response status header body \<Rightarrow>
            if status = 429 then
              bnd (update (\<lambda>w. w\<lparr>rate_limited_count := rate_limited_count w + 1\<rparr>)) (\<lambda>_.
              again (''429'', Some 429, False) (retry_after e header))
            else if status \<in> set retryable_statuses then again (str_int status, Some status, False) backoff
            else final_response endpoint status body))))"

definition tenrai_fetch :: "'s env \<Rightarrow> nat \<Rightarrow> string \<Rightarrow> (string \<times> string) list \<Rightarrow> ('s, json) io" where
  "tenrai_fetch e max_attempts endpoint params =
     tenrai_attempts e endpoint params max_attempts max_attempts 1 None"

text \<open>
  `_get`: the breaker first; a transient failure counts against it, an answer of the source
  (even a 404 or a 4xx) closes it; a refusal (401, 403) and an interrupt do not touch it.
\<close>

definition tenrai_get :: "'s env \<Rightarrow> nat \<Rightarrow> string \<Rightarrow> (string \<times> string) list \<Rightarrow> ('s, json) io" where
  "tenrai_get e max_attempts endpoint params =
     bnd (breaker_check e) (\<lambda>_.
     bnd (handle (tenrai_fetch e max_attempts endpoint params) (\<lambda>x.
            if is_transient x then bnd (record_failure e) (\<lambda>_. raise x)
            else if is_gone x \<or> is_permanent x then bnd record_success (\<lambda>_. raise x)
            else raise x)) (\<lambda>data.
     bnd record_success (\<lambda>_. ret data)))"

text \<open>`TenraiAdapter(...)` refuses fewer than one attempt; the jobs use the default of five.\<close>

definition check_max_attempts :: "int \<Rightarrow> py_exn + nat" where
  "check_max_attempts n = (if n < 1 then Inl ValueError else Inr (nat n))"

definition max_attempts_default :: nat where
  "max_attempts_default = 5"

definition get_full :: "'s env \<Rightarrow> int \<Rightarrow> ('s, json) io" where
  "get_full e anime_id =
     tenrai_get e max_attempts_default (''/anime/'' @ str_int anime_id @ ''/full'') []"

definition get_statistics :: "'s env \<Rightarrow> int \<Rightarrow> ('s, json) io" where
  "get_statistics e anime_id =
     tenrai_get e max_attempts_default (''/anime/'' @ str_int anime_id @ ''/statistics'') []"

definition get_episodes :: "'s env \<Rightarrow> int \<Rightarrow> int \<Rightarrow> ('s, json) io" where
  "get_episodes e anime_id page =
     tenrai_get e max_attempts_default (''/anime/'' @ str_int anime_id @ ''/episodes'') [(''page'', str_int page)]"

definition get_reviews :: "'s env \<Rightarrow> int \<Rightarrow> int \<Rightarrow> ('s, json) io" where
  "get_reviews e anime_id page =
     tenrai_get e max_attempts_default (''/anime/'' @ str_int anime_id @ ''/reviews'') [(''page'', str_int page)]"

text \<open>
  `list_anime` with the page and limit and the keyword filters that are not None, each as
  its query text.
\<close>

definition list_params :: "int \<Rightarrow> int \<Rightarrow> string \<Rightarrow> (string \<times> string option) list \<Rightarrow> (string \<times> string) list" where
  "list_params page limit rating filters =
     foldl (\<lambda>ps (k, v). case v of None \<Rightarrow> ps | Some text \<Rightarrow> AList.update k text ps)
       [(''page'', str_int page), (''limit'', str_int limit), (''rating'', rating)] filters"

definition list_anime :: "'s env \<Rightarrow> int \<Rightarrow> (string \<times> string option) list \<Rightarrow> ('s, json) io" where
  "list_anime e page filters = tenrai_get e max_attempts_default ''/anime''
     (list_params page 100 ''g,pg,pg13,r17,r'' filters)"

section \<open>What the adapter leaves alone\<close>

text \<open>
  A predicate of the world that does not read the adapter's own fields.  The adapter keeps it, as
  soon as the limiter does.
\<close>

definition adapter_blind :: "('s world \<Rightarrow> bool) \<Rightarrow> bool" where
  "adapter_blind P \<longleftrightarrow> (\<forall>w n d b rc tc lc. P w \<longrightarrow>
     P (w\<lparr>steps := n, slept := d, breaker := b, request_count := rc, retry_count := tc,
          rate_limited_count := lc\<rparr>))"

lemma adapter_blindD:
  assumes "adapter_blind P" and "P w"
  shows "P (w\<lparr>steps := n\<rparr>)" "P (w\<lparr>slept := d\<rparr>)" "P (w\<lparr>breaker := b\<rparr>)"
    "P (w\<lparr>request_count := rc\<rparr>)" "P (w\<lparr>retry_count := rc\<rparr>)" "P (w\<lparr>rate_limited_count := rc\<rparr>)"
proof -
  have all: "P (w\<lparr>steps := n, slept := d, breaker := b, request_count := rc, retry_count := tc,
      rate_limited_count := lc\<rparr>)" for n d b rc tc lc
    using assms by (auto simp: adapter_blind_def)
  show "P (w\<lparr>steps := n\<rparr>)"
    using all [where n = n and d = "slept w" and b = "breaker w" and rc = "request_count w" and tc = "retry_count w" and lc = "rate_limited_count w"] by simp
  show "P (w\<lparr>slept := d\<rparr>)"
    using all [where n = "steps w" and d = d and b = "breaker w" and rc = "request_count w" and tc = "retry_count w" and lc = "rate_limited_count w"] by simp
  show "P (w\<lparr>breaker := b\<rparr>)"
    using all [where n = "steps w" and d = "slept w" and b = b and rc = "request_count w" and tc = "retry_count w" and lc = "rate_limited_count w"] by simp
  show "P (w\<lparr>request_count := rc\<rparr>)"
    using all [where n = "steps w" and d = "slept w" and b = "breaker w" and rc = rc and tc = "retry_count w" and lc = "rate_limited_count w"] by simp
  show "P (w\<lparr>retry_count := rc\<rparr>)"
    using all [where n = "steps w" and d = "slept w" and b = "breaker w" and rc = "request_count w" and tc = rc and lc = "rate_limited_count w"] by simp
  show "P (w\<lparr>rate_limited_count := rc\<rparr>)"
    using all [where n = "steps w" and d = "slept w" and b = "breaker w" and rc = "request_count w" and tc = "retry_count w" and lc = rc] by simp
qed

lemma keeps_give_up [keeps_rules]: "keeps P (give_up ep m l)"
  by (auto simp: give_up_def intro!: keeps_rules)

lemma keeps_final_response [keeps_rules]: "keeps P (final_response ep st body)"
  by (auto simp: final_response_def intro!: keeps_rules)

lemma keeps_case_http [keeps_rules]:
  "(\<And>a. keeps P (f a)) \<Longrightarrow> (\<And>x. keeps P (k x)) \<Longrightarrow> keeps P g \<Longrightarrow> (\<And>a b c. keeps P (h a b c))
   \<Longrightarrow> keeps P (case r of TransportError a \<Rightarrow> f a | HttpRaised x \<Rightarrow> k x | HttpCancelled \<Rightarrow> g
        | Response a b c \<Rightarrow> h a b c)"
  by (cases r) simp_all

lemma keeps_tenrai_attempts:
  assumes frame: "\<And>w n. P w \<Longrightarrow> P (w\<lparr>steps := n\<rparr>)" "\<And>w d. P w \<Longrightarrow> P (w\<lparr>slept := d\<rparr>)"
      "\<And>w c. P w \<Longrightarrow> P (w\<lparr>request_count := c\<rparr>)" "\<And>w c. P w \<Longrightarrow> P (w\<lparr>retry_count := c\<rparr>)"
      "\<And>w c. P w \<Longrightarrow> P (w\<lparr>rate_limited_count := c\<rparr>)"
    and lim: "keeps P (acquire e)"
  shows "keeps P (tenrai_attempts e ep ps m left attempt prev)"
proof (induction left arbitrary: attempt prev)
  case 0
  then show ?case by (simp add: keeps_give_up)
next
  case (Suc left)
  show ?case
    by (auto simp: Let_def http_get_def intro!: keeps_rules lim Suc.IH frame)
qed

lemma keeps_tenrai_get [keeps_rules]:
  assumes "adapter_blind P" and "keeps P (acquire e)"
  shows "keeps P (tenrai_get e m ep ps)"
  unfolding tenrai_get_def tenrai_fetch_def
  by (auto simp only: split: if_split intro!: keeps_rules keeps_tenrai_attempts assms adapter_blindD [OF assms(1)])

lemma keeps_session_acquire [keeps_rules]: "keeps (session_is se) (acquire e)"
  by (auto simp: acquire_def stamp_def intro!: keeps_rules)

lemma keeps_session_tenrai [keeps_rules]: "keeps (session_is se) (tenrai_get e m ep ps)"
  by (auto intro!: keeps_rules simp: adapter_blind_def)

lemmas tenrai_endpoints = get_full_def get_statistics_def get_episodes_def get_reviews_def list_anime_def

section \<open>The number of requests of one call\<close>

definition requests_are :: "int \<Rightarrow> 's world \<Rightarrow> bool" where
  "requests_are c w \<longleftrightarrow> request_count w = c"

lemma requests_are_frame [simp]:
  "requests_are c (w\<lparr>steps := n\<rparr>) = requests_are c w"
  "requests_are c (w\<lparr>slept := d\<rparr>) = requests_are c w"
  "requests_are c (w\<lparr>breaker := b\<rparr>) = requests_are c w"
  "requests_are c (w\<lparr>retry_count := k\<rparr>) = requests_are c w"
  "requests_are c (w\<lparr>rate_limited_count := k\<rparr>) = requests_are c w"
  "requests_are c (stamp t w) = requests_are c w"
  by (simp_all add: requests_are_def stamp_def)

lemma keeps_acquire_requests: "keeps (requests_are c) (acquire e)"
  by (auto simp: acquire_def intro!: keeps_rules)

text \<open>
  Between one and `max_attempts` requests are sent, and a transient failure means that all
  of them were.
\<close>

lemma wp_sleep_requests:
  "requests_are c w \<Longrightarrow> (\<And>t. requests_are c t \<Longrightarrow> Q () t) \<Longrightarrow> (\<And>t. requests_are c t \<Longrightarrow> E Interrupted t)
   \<Longrightarrow> wp (if b then py_sleep e d else ret ()) Q E w"
  by (rule wp_keeps [where P = "requests_are c" and X = "\<lambda>x. x = Interrupted"])
    (auto intro!: keeps_rules raises_rules)

lemma wp_give_up: "wp (give_up ep m l) Q E w
   = (case l of None \<Rightarrow> E (OtherError UnboundLocalError) w
      | Some (error, status, network) \<Rightarrow>
         (let message = ep @ '' failed after '' @ str_int (int m) @ '' attempts: '' @ error
          in E (if network then NetworkError message status else TransientError message status) w))"
  by (simp add: give_up_def wp_simps Let_def split: option.split prod.split)

lemma final_not_transient: "raises (\<lambda>x. \<not> is_transient x) (final_response ep st body)"
  by (auto simp: final_response_def Let_def intro!: raises_rules)

lemma attempts_requests:
  assumes "requests_are c w"
  shows "wp (tenrai_attempts e ep ps m left attempt prev)
     (\<lambda>_ t. c < request_count t \<and> request_count t \<le> c + int left)
     (\<lambda>x t. c \<le> request_count t \<and> request_count t \<le> c + int left
            \<and> (is_transient x \<longrightarrow> request_count t = c + int left)) w"
  using assms
proof (induction left arbitrary: attempt prev c w)
  case 0
  then show ?case
    by (auto simp: wp_give_up requests_are_def Let_def split: option.split prod.split)
next
  case (Suc left)
  define Q :: "json \<Rightarrow> 'a world \<Rightarrow> bool"
    where "Q = (\<lambda>_ t. c < request_count t \<and> request_count t \<le> c + int (Suc left))"
  define E :: "ingest_exn \<Rightarrow> 'a world \<Rightarrow> bool"
    where "E = (\<lambda>x t. c \<le> request_count t \<and> request_count t \<le> c + int (Suc left)
            \<and> (is_transient x \<longrightarrow> request_count t = c + int (Suc left)))"
  have stop: "E Interrupted t" "E (OtherError x) t" if "requests_are c t \<or> requests_are (c + 1) t" for t x
    using that by (auto simp: requests_are_def E_def)
  have IH: "wp (tenrai_attempts e ep ps m left a l) Q E t" if "requests_are (c + 1) t" for a l t
    by (rule wp_mono [OF Suc.IH [OF that]]) (auto simp: Q_def E_def)
  have again: "wp (py_sleep e d) (\<lambda>_. wp (tenrai_attempts e ep ps m left a l) Q E) E t"
    if "requests_are (c + 1) t" for d a l t
    by (rule wp_keeps [where P = "requests_are (c + 1)" and X = "\<lambda>x. x = Interrupted"])
      (use that in \<open>auto intro!: keeps_rules raises_rules IH stop\<close>)
  have final: "wp (final_response ep st body) Q E t" if "requests_are (c + 1) t" for st body t
    by (rule wp_keeps [where P = "requests_are (c + 1)", OF keeps_final_response final_not_transient that])
      (auto simp: requests_are_def Q_def E_def)
  have sent: "requests_are (c + 1) (t\<lparr>request_count := request_count t + 1\<rparr>)" if "requests_are c t" for t
    using that by (simp add: requests_are_def)
  have "wp (tenrai_attempts e ep ps m (Suc left) attempt prev) Q E w"
    unfolding tenrai_attempts.simps wp_bnd
  proof (rule wp_keeps [where P = "requests_are c" and X = "\<lambda>x. x = Interrupted"], goal_cases)
    case (4 a t)
    show ?case
    proof (rule wp_keeps [where P = "requests_are c" and X = "\<lambda>x. x = Interrupted"], goal_cases)
      case (4 a t)
      then show ?case
        by (simp add: http_get_def wp_simps Let_def again IH final stop sent split: http_outcome.split)
    qed (use 4 in \<open>auto intro!: keeps_acquire_requests raises_rules stop\<close>)
  qed (use Suc.prems in \<open>auto intro!: keeps_rules raises_rules stop\<close>)
  then show ?case unfolding Q_def E_def .
qed

section \<open>One call: requests sent, and what the breaker learns\<close>

lemma raises_case_http [raises_rules]:
  "(\<And>a. raises X (f a)) \<Longrightarrow> (\<And>x. raises X (k x)) \<Longrightarrow> raises X g \<Longrightarrow> (\<And>a b c. raises X (h a b c))
   \<Longrightarrow> raises X (case r of TransportError a \<Rightarrow> f a | HttpRaised x \<Rightarrow> k x | HttpCancelled \<Rightarrow> g
        | Response a b c \<Rightarrow> h a b c)"
  by (cases r) simp_all

fun is_circuit_open :: "ingest_exn \<Rightarrow> bool" where
  "is_circuit_open (CircuitOpenError _) = True"
| "is_circuit_open _ = False"

lemma final_not_circuit: "raises (\<lambda>x. \<not> is_circuit_open x) (final_response ep st body)"
  by (auto simp: final_response_def Let_def intro!: raises_rules)

lemma attempts_not_circuit:
  "raises (\<lambda>x. \<not> is_circuit_open x) (tenrai_attempts e ep ps m left attempt prev)"
proof (induction left arbitrary: attempt prev)
  case 0
  then show ?case by (auto simp: give_up_def Let_def intro!: raises_rules split: option.split prod.split)
next
  case (Suc left)
  show ?case
    by (auto simp: Let_def http_get_def intro!: raises_rules Suc.IH final_not_circuit)
qed

lemma keeps_acquire_breaker: "keeps (\<lambda>w. breaker w = b) (acquire e)"
  by (auto simp: acquire_def stamp_def intro!: keeps_rules)

text \<open>What the call reports to the breaker.\<close>

definition reported :: "ingest_exn + 'a \<Rightarrow> circuit_breaker \<Rightarrow> circuit_breaker \<Rightarrow> bool" where
  "reported r b b' = (case r of Inr _ \<Rightarrow> b' = succeed b
     | Inl x \<Rightarrow> if is_transient x then \<exists>now. b' = fail_at now b
              else if is_gone x \<or> is_permanent x then b' = succeed b else b' = b)"

lemma fetch_wp:
  "wp (tenrai_fetch e m ep ps)
     (\<lambda>_ t. breaker t = breaker w \<and> request_count w < request_count t
            \<and> request_count t \<le> request_count w + int m)
     (\<lambda>x t. (breaker t = breaker w \<and> \<not> is_circuit_open x) \<and> request_count w \<le> request_count t
            \<and> request_count t \<le> request_count w + int m
            \<and> (is_transient x \<longrightarrow> request_count t = request_count w + int m)) w"
  unfolding tenrai_fetch_def
proof (rule wp_conj)
  show "wp (tenrai_attempts e ep ps m m 1 None) (\<lambda>_ t. breaker t = breaker w)
     (\<lambda>x t. breaker t = breaker w \<and> \<not> is_circuit_open x) w"
    by (rule wp_keeps [where P = "\<lambda>t. breaker t = breaker w" and X = "\<lambda>x. \<not> is_circuit_open x"])
      (auto intro!: attempts_not_circuit keeps_tenrai_attempts keeps_acquire_breaker)
qed (rule attempts_requests, simp add: requests_are_def)

lemma record_failure_result:
  "\<exists>now n. record_failure e w = (Inr (), w\<lparr>breaker := fail_at now (breaker w), steps := n\<rparr>)"
proof (cases "failure_threshold (breaker w) \<le> consecutive_failures (breaker w) + 1")
  case True
  then have "record_failure e w = (Inr (), w\<lparr>breaker := fail_at (mclock e (steps w) + slept w) (breaker w),
      steps := Suc (steps w)\<rparr>)"
    by (simp add: record_failure_def prog_defs monotonic_def tick_def fail_at_def count_failure_def Let_def)
  then show ?thesis by blast
next
  case False
  then have "record_failure e w = (Inr (), w\<lparr>breaker := fail_at 0 (breaker w), steps := steps w\<rparr>)"
    by (simp add: record_failure_def prog_defs fail_at_def count_failure_def Let_def)
  then show ?thesis by blast
qed

text \<open>
  The result of a call, read off the number of requests it sent: none at all exactly when the
  breaker refused it.
\<close>

definition call_ok :: "nat \<Rightarrow> 's world \<Rightarrow> (ingest_exn + json) \<times> 's world \<Rightarrow> bool" where
  "call_ok m w = (\<lambda>(r, t). let sent = request_count t - request_count w in
     0 \<le> sent \<and> sent \<le> int m \<and>
     (case r of Inr _ \<Rightarrow> 1 \<le> sent
      | Inl x \<Rightarrow> if is_transient x then sent = int m else if is_circuit_open x then sent = 0 else True)
     \<and> reported r (breaker w) (breaker t))"

lemma tenrai_get_call:
  "call_ok m w (tenrai_get e m ep ps w)"
proof -
  define Q where "Q r t = call_ok m w (r, t)" for r t
  define rest where "rest = bnd (handle (tenrai_fetch e m ep ps) (\<lambda>x.
            if is_transient x then bnd (record_failure e) (\<lambda>_. raise x)
            else if is_gone x \<or> is_permanent x then bnd record_success (\<lambda>_. raise x)
            else raise x)) (\<lambda>data. bnd record_success (\<lambda>_. ret data))"
  have get: "tenrai_get e m ep ps = bnd (breaker_check e) (\<lambda>_. rest)"
    by (simp add: tenrai_get_def rest_def)
  have fetch: "wp (tenrai_fetch e m ep ps)
      (\<lambda>a t. breaker t = breaker w \<and> request_count w < request_count t
            \<and> request_count t \<le> request_count w + int m)
      (\<lambda>x t. (breaker t = breaker w \<and> \<not> is_circuit_open x) \<and> request_count w \<le> request_count t
            \<and> request_count t \<le> request_count w + int m
            \<and> (is_transient x \<longrightarrow> request_count t = request_count w + int m)) (w\<lparr>steps := n\<rparr>)" for n
    using fetch_wp [of e m ep ps "w\<lparr>steps := n\<rparr>"] by simp
  have run: "wp rest (\<lambda>a. Q (Inr a)) (\<lambda>x. Q (Inl x)) (w\<lparr>steps := n\<rparr>)" for n
    unfolding rest_def wp_bnd wp_handle
  proof (rule wp_mono [OF fetch [of n]], goal_cases)
    case (1 a t)
    then show ?case
      by (simp add: wp_simps record_success_def Q_def call_ok_def reported_def Let_def)
  next
    case (2 x t)
    obtain now k where "record_failure e t = (Inr (), t\<lparr>breaker := fail_at now (breaker t), steps := k\<rparr>)"
      using record_failure_result by blast
    then show ?case using 2
      by (auto simp: wp_def bnd_def raise_def record_success_def update_def Q_def call_ok_def reported_def Let_def)
  qed
  have refused: "Q (Inl (CircuitOpenError d)) (w\<lparr>steps := n\<rparr>)" for d n
    by (simp add: Q_def call_ok_def reported_def)
  have "wp (tenrai_get e m ep ps) (\<lambda>a. Q (Inr a)) (\<lambda>x. Q (Inl x)) w"
    using run [of "steps w"]
    by (auto simp: get breaker_check_def wp_simps monotonic_def run refused split: option.split)
  then show ?thesis by (simp add: wp_def Q_def split: prod.splits sum.splits)
qed

section \<open>Properties\<close>

text \<open>C6. One call of the Tenrai adapter sends at most `max_attempts` requests; it returns only
  after at least one of them, fails as transient only after all of them, and sends none when the
  breaker refuses it.  A success and an answer of the source (404, another 4xx, bad JSON) close
  the breaker, a transient failure is counted, and a refusal or an interrupt leaves it as it was.\<close>

theorem tenrai_call:
  "let (r, t) = tenrai_get e max_attempts endpoint params w; sent = request_count t - request_count w in
     0 \<le> sent \<and> sent \<le> int max_attempts
     \<and> (case r of Inr _ \<Rightarrow> 1 \<le> sent
        | Inl x \<Rightarrow> if is_transient x then sent = int max_attempts
                 else if is_circuit_open x then sent = 0 else True)
     \<and> reported r (breaker w) (breaker t)"
  using tenrai_get_call [of max_attempts w e endpoint params]
  by (simp add: call_ok_def Let_def split_beta)

text \<open>C8. While the breaker is open and its cooldown has not passed, a call raises CircuitOpenError
  with the seconds left and changes nothing but the clock.\<close>

theorem open_breaker_refuses:
  assumes "opened_at (breaker w) = Some t" and "mclock e (steps w) + slept w - t < cooldown_s (breaker w)"
  shows "tenrai_get e m ep ps w
    = (Inl (CircuitOpenError (cooldown_s (breaker w) - (mclock e (steps w) + slept w - t))), w\<lparr>steps := Suc (steps w)\<rparr>)"
  using assms by (simp add: tenrai_get_def breaker_check_def monotonic_def tick_def remaining_def prog_defs)

definition open_world :: "(string \<times> string) list world" where
  "open_world = (start_world [] empty_db)\<lparr>breaker := \<lparr>failure_threshold = 5, cooldown_s = 60,
     consecutive_failures = 5, opened_at = Some 0\<rparr>, steps := 10\<rparr>"

theorem open_breaker_refuses_witness:
  "fst (get_full calm_env 1 open_world) = Inl (CircuitOpenError 50)"
proof -
  have "tenrai_get calm_env 5 (''/anime/'' @ str_int 1 @ ''/full'') [] open_world
     = (Inl (CircuitOpenError (cooldown_s (breaker open_world) - (mclock calm_env (steps open_world) + slept open_world - 0))),
        open_world\<lparr>steps := Suc (steps open_world)\<rparr>)"
    by (rule open_breaker_refuses) (simp_all add: open_world_def start_world_def calm_env_def)
  then show ?thesis
    by (simp add: get_full_def max_attempts_default_def open_world_def start_world_def calm_env_def)
qed

end
