(* ===== verification/Task_Ledger.thy ===== *)
theory Task_Ledger
  imports Ingest_Model "HOL-Library.Product_Lexorder"
begin

text \<open>
  app/ingestion/repository/task_repository.py: the ledger of ingestion tasks, one row per
  (mal_id, resource).  A repository method is a statement on the list of rows (its SQL) and the
  effect that runs it on the work session.  The list is in no particular order; the primary key is
  the invariant `ledger_ok`.  One worker: the row lock of `claim_next` and its
  `SKIP LOCKED` have no one to exclude.
\<close>

type_synonym ledger = "ingestion_task list"

definition max_attempts :: int where "max_attempts = 3"
definition backoff_base_seconds :: int where "backoff_base_seconds = 60"
definition backoff_cap_seconds :: int where "backoff_cap_seconds = 6 * 3600"
definition last_error_max_chars :: nat where "last_error_max_chars = 500"

definition refreshable_statuses :: "task_status list" where
  "refreshable_statuses = [DONE, FAILED]"

definition all_task_statuses :: "task_status list" where
  "all_task_statuses = [PENDING, DONE, FAILED, DEAD, GONE]"

definition task_key :: "ingestion_task \<Rightarrow> int \<times> resource" where
  "task_key t = (t_mal_id t, t_resource t)"

text \<open>A row with the server defaults of models.py.\<close>

definition new_task :: "datetime \<Rightarrow> int \<times> resource \<Rightarrow> ingestion_task" where
  "new_task now row = \<lparr>t_mal_id = fst row, t_resource = snd row, t_status = PENDING, t_attempts = 0,
     t_next_attempt_at = None, t_last_error = None, t_created_at = now, t_updated_at = now\<rparr>"

section \<open>insert_tasks\<close>

definition insert_one :: "datetime \<Rightarrow> ledger \<Rightarrow> int \<times> resource \<Rightarrow> ledger" where
  "insert_one now ts row = (if row \<in> task_key ` set ts then ts else ts @ [new_task now row])"

definition insert_rows :: "(int \<times> resource) list \<Rightarrow> (ledger, int) stmt" where
  "insert_rows rows now ts =
     (if \<not> list_all (int32_ok \<circ> fst) rows then Inl ''DataError''
      else let ts' = foldl (insert_one now) ts rows in Inr (int (length ts') - int (length ts), ts'))"

definition insert_tasks :: "'s env \<Rightarrow> (int \<times> resource) list \<Rightarrow> ('s, int) io" where
  "insert_tasks e rows = (if rows = [] then ret 0 else exec_work e (on_tasks (insert_rows rows)))"

section \<open>insert_or_reset_tasks\<close>

text \<open>
  ON CONFLICT DO UPDATE ... WHERE status IN (done, failed): the conflicting row is reset when it is
  refreshable and left alone otherwise.  A row that this statement has already inserted or reset
  may not be proposed again.
\<close>

definition reset_task :: "datetime \<Rightarrow> ingestion_task \<Rightarrow> ingestion_task" where
  "reset_task now t = t\<lparr>t_status := PENDING, t_attempts := 0, t_next_attempt_at := None,
     t_last_error := None, t_updated_at := now\<rparr>"

definition refreshable :: "ingestion_task \<Rightarrow> bool" where
  "refreshable t \<longleftrightarrow> t_status t \<in> set refreshable_statuses"

record upserted =
  u_ledger :: ledger
  u_inserted :: int
  u_reset :: int
  u_touched :: "(int \<times> resource) list"

definition upsert_one :: "datetime \<Rightarrow> int \<times> resource \<Rightarrow> upserted \<Rightarrow> string + upserted" where
  "upsert_one now row u =
     (if row \<in> set (u_touched u) then Inl ''CardinalityViolationError''
      else case find (\<lambda>t. task_key t = row) (u_ledger u) of
          None \<Rightarrow> Inr (u\<lparr>u_ledger := u_ledger u @ [new_task now row], u_inserted := u_inserted u + 1,
                       u_touched := row # u_touched u\<rparr>)
        | Some t \<Rightarrow> if refreshable t
            then Inr (u\<lparr>u_ledger := map (\<lambda>v. if task_key v = row then reset_task now v else v) (u_ledger u),
                        u_reset := u_reset u + 1, u_touched := row # u_touched u\<rparr>)
            else Inr u)"

definition upsert_rows :: "(int \<times> resource) list \<Rightarrow> (ledger, int \<times> int) stmt" where
  "upsert_rows rows now ts =
     (if \<not> list_all (int32_ok \<circ> fst) rows then Inl ''DataError''
      else sbind (sfold (upsert_one now) rows \<lparr>u_ledger = ts, u_inserted = 0, u_reset = 0, u_touched = []\<rparr>)
        (\<lambda>u. Inr ((u_inserted u, u_reset u), u_ledger u)))"

definition insert_or_reset_tasks :: "'s env \<Rightarrow> (int \<times> resource) list \<Rightarrow> ('s, int \<times> int) io" where
  "insert_or_reset_tasks e rows =
     (if rows = [] then ret (0, 0) else exec_work e (on_tasks (upsert_rows rows)))"

section \<open>Counting and claiming\<close>

definition status_counts :: "ledger \<Rightarrow> (string \<times> int) list" where
  "status_counts ts =
     map (\<lambda>s. (task_status_value s, int (length (filter (\<lambda>t. t_status t = s) ts)))) all_task_statuses"

definition count_by_status :: "'s env \<Rightarrow> ('s, (string \<times> int) list) io" where
  "count_by_status e = exec_work e (on_tasks (query status_counts))"

definition claimable :: "datetime \<Rightarrow> ingestion_task \<Rightarrow> bool" where
  "claimable now t \<longleftrightarrow> t_status t \<in> {PENDING, FAILED}
     \<and> (case t_next_attempt_at t of None \<Rightarrow> True | Some due \<Rightarrow> due \<le> now)"

text \<open>`ORDER BY mal_id, resource LIMIT 1`\<close>

fun first_task :: "ledger \<Rightarrow> ingestion_task option" where
  "first_task [] = None"
| "first_task (t # ts) = (case first_task ts of None \<Rightarrow> Some t
     | Some u \<Rightarrow> if task_key t \<le> task_key u then Some t else Some u)"

definition claim_next :: "'s env \<Rightarrow> ('s, ingestion_task option) io" where
  "claim_next e = bnd (utc_now e) (\<lambda>now.
     exec_work e (on_tasks (query (\<lambda>ts. first_task (filter (claimable now) ts)))))"

section \<open>Marking\<close>

definition set_row :: "ingestion_task \<Rightarrow> (ingestion_task \<Rightarrow> ingestion_task) \<Rightarrow> (ledger, unit) stmt" where
  "set_row t f now ts =
     Inr ((), map (\<lambda>u. if task_key u = task_key t then (f u)\<lparr>t_updated_at := now\<rparr> else u) ts)"

definition set_task :: "'s env \<Rightarrow> ingestion_task \<Rightarrow> (ingestion_task \<Rightarrow> ingestion_task) \<Rightarrow> ('s, unit) io" where
  "set_task e t f = exec_work e (on_tasks (set_row t f))"

definition done_values :: "ingestion_task \<Rightarrow> ingestion_task" where
  "done_values u = u\<lparr>t_status := DONE, t_next_attempt_at := None, t_last_error := None\<rparr>"

definition gone_values :: "ingestion_task \<Rightarrow> ingestion_task" where
  "gone_values u = u\<lparr>t_status := GONE, t_next_attempt_at := None\<rparr>"

text \<open>DEAD at once, FAILED until a time, or DEAD because the attempts are used up.\<close>

definition attempt_values :: "task_status \<Rightarrow> int \<Rightarrow> datetime option \<Rightarrow> string \<Rightarrow> ingestion_task \<Rightarrow> ingestion_task" where
  "attempt_values status attempts next_at error u = u\<lparr>t_status := status, t_attempts := attempts,
     t_next_attempt_at := next_at, t_last_error := Some (take last_error_max_chars error)\<rparr>"

definition mark_done :: "'s env \<Rightarrow> ingestion_task \<Rightarrow> ('s, unit) io" where
  "mark_done e t = set_task e t done_values"

definition mark_gone :: "'s env \<Rightarrow> ingestion_task \<Rightarrow> ('s, unit) io" where
  "mark_gone e t = set_task e t gone_values"

definition mark_dead :: "'s env \<Rightarrow> ingestion_task \<Rightarrow> string \<Rightarrow> ('s, unit) io" where
  "mark_dead e t error = set_task e t (attempt_values DEAD (t_attempts t + 1) None error)"

definition backoff_delay :: "int \<Rightarrow> int" where
  "backoff_delay attempts = min (backoff_base_seconds * 2 ^ nat attempts) backoff_cap_seconds"

definition mark_failed :: "'s env \<Rightarrow> ingestion_task \<Rightarrow> string \<Rightarrow> ('s, unit) io" where
  "mark_failed e t error = (let attempts = t_attempts t + 1 in
     if max_attempts \<le> attempts then set_task e t (attempt_values DEAD attempts None error)
     else bnd (utc_now e) (\<lambda>now.
       set_task e t (attempt_values FAILED attempts (Some (now + backoff_delay attempts * 1000000)) error)))"

section \<open>Refreshing, reading, deleting\<close>

definition reset_rows :: "int list \<Rightarrow> resource list \<Rightarrow> (ledger, int) stmt" where
  "reset_rows mal_ids resources now ts =
     (let hit = (\<lambda>t. t_mal_id t \<in> set mal_ids \<and> t_resource t \<in> set resources \<and> refreshable t) in
      Inr (int (length (filter hit ts)), map (\<lambda>t. if hit t then reset_task now t else t) ts))"

definition reset_tasks :: "'s env \<Rightarrow> int list \<Rightarrow> resource list \<Rightarrow> ('s, int) io" where
  "reset_tasks e mal_ids resources = exec_work e (on_tasks (reset_rows mal_ids resources))"

definition get_task :: "'s env \<Rightarrow> int \<Rightarrow> resource \<Rightarrow> ('s, ingestion_task option) io" where
  "get_task e i resource = exec_work e (on_tasks (query (find (\<lambda>t. task_key t = (i, resource)))))"

definition delete_task :: "'s env \<Rightarrow> ingestion_task \<Rightarrow> ('s, unit) io" where
  "delete_task e t = exec_work e (on_tasks (\<lambda>_ ts. Inr ((), filter (\<lambda>u. task_key u \<noteq> task_key t) ts)))"

section \<open>The invariant of the ledger\<close>

text \<open>
  What each status says about the other columns, for every row; and one row per key.
\<close>

definition task_ok :: "ingestion_task \<Rightarrow> bool" where
  "task_ok t \<longleftrightarrow> 0 \<le> t_attempts t \<and> t_attempts t \<le> max_attempts
     \<and> (t_next_attempt_at t \<noteq> None \<longleftrightarrow> t_status t = FAILED)
     \<and> (t_status t = PENDING \<longrightarrow> t_attempts t = 0 \<and> t_last_error t = None)
     \<and> (t_status t = FAILED \<longrightarrow> 0 < t_attempts t \<and> t_attempts t < max_attempts)
     \<and> (case t_last_error t of None \<Rightarrow> True | Some m \<Rightarrow> length m \<le> last_error_max_chars)"

definition ledger_ok :: "ledger \<Rightarrow> bool" where
  "ledger_ok ts \<longleftrightarrow> distinct (map task_key ts) \<and> list_all task_ok ts"

text \<open>A row given up on: no refresh and no claim may touch it.\<close>

definition settled :: "ingestion_task \<Rightarrow> bool" where
  "settled t \<longleftrightarrow> t_status t \<in> {DEAD, GONE}"

text \<open>
  The life of a task, by its status and attempts: a task that waits is fetched, vanishes at the source, or
  counts a failed attempt, which is its last when it is the third or the error is permanent; a
  done or failed task is sent back by a refresh.  Nothing leads out of dead and gone.
\<close>

inductive life_step :: "task_status \<times> int \<Rightarrow> task_status \<times> int \<Rightarrow> bool" where
  fetched: "s \<in> {PENDING, FAILED} \<Longrightarrow> life_step (s, n) (DONE, n)"
| vanished: "s \<in> {PENDING, FAILED} \<Longrightarrow> life_step (s, n) (GONE, n)"
| given_up: "s \<in> {PENDING, FAILED} \<Longrightarrow> life_step (s, n) (DEAD, n + 1)"
| backed_off: "s \<in> {PENDING, FAILED} \<Longrightarrow> n + 1 < max_attempts \<Longrightarrow> life_step (s, n) (FAILED, n + 1)"
| sent_back: "s \<in> set refreshable_statuses \<Longrightarrow> life_step (s, n) (PENDING, 0)"

inductive_cases dead_step: "life_step (DEAD, n) p"
inductive_cases gone_step: "life_step (GONE, n) p"

definition life :: "ingestion_task \<Rightarrow> task_status \<times> int" where
  "life t = (t_status t, t_attempts t)"

lemma settled_stays: "settled t \<Longrightarrow> \<not> life_step (life t) p"
  by (auto simp: settled_def life_def refreshable_statuses_def elim!: dead_step gone_step)

text \<open>
  `moved s t`: the row `t` is the row `s` later on, and the same row if `s` was settled.  `ledger_from S ts`: the
  ledger is in order, and every row of `S` is still there, and has only moved along its life.
\<close>

definition moved :: "ingestion_task \<Rightarrow> ingestion_task \<Rightarrow> bool" where
  "moved s t \<longleftrightarrow> task_key t = task_key s \<and> t_created_at t = t_created_at s
     \<and> life_step\<^sup>*\<^sup>* (life s) (life t) \<and> (settled s \<longrightarrow> t = s)"

definition ledger_from :: "ledger \<Rightarrow> ledger \<Rightarrow> bool" where
  "ledger_from S ts \<longleftrightarrow> ledger_ok ts \<and> (\<forall>s\<in>set S. \<exists>t\<in>set ts. moved s t)"

text \<open>One row that replaces another: the same task, a step further.\<close>

definition steps_to :: "ingestion_task \<Rightarrow> ingestion_task \<Rightarrow> bool" where
  "steps_to t u \<longleftrightarrow> task_key u = task_key t \<and> t_created_at u = t_created_at t \<and> life_step (life t) (life u)"

lemma moved_refl [simp]: "moved t t"
  by (simp add: moved_def)

lemma moved_step: "moved s t \<Longrightarrow> steps_to t u \<Longrightarrow> moved s u"
  by (auto simp: moved_def steps_to_def dest: settled_stays intro: rtranclp.rtrancl_into_rtrancl)

lemma ledger_from_self: "ledger_ok ts \<Longrightarrow> ledger_from ts ts"
  by (simp add: ledger_from_def) (meson moved_refl)

lemma ledger_from_settled: "ledger_from S ts \<Longrightarrow> s \<in> set S \<Longrightarrow> settled s \<Longrightarrow> s \<in> set ts"
  by (auto simp: ledger_from_def moved_def)

lemma task_ok_new: "task_ok (new_task now row)"
  by (simp add: task_ok_def new_task_def max_attempts_def)

lemma task_ok_reset: "task_ok (reset_task now t)"
  by (simp add: task_ok_def reset_task_def max_attempts_def)

lemma task_key_simps [simp]:
  "task_key (new_task now row) = row"
  "task_key (reset_task now t) = task_key t"
  "task_key (t\<lparr>t_updated_at := now\<rparr>) = task_key t"
  "task_key (done_values t) = task_key t"
  "task_key (gone_values t) = task_key t"
  "task_key (attempt_values st n due err t) = task_key t"
  by (simp_all add: task_key_def new_task_def reset_task_def done_values_def gone_values_def attempt_values_def)

lemma ledger_ok_same_key: "ledger_ok ts \<Longrightarrow> t \<in> set ts \<Longrightarrow> u \<in> set ts \<Longrightarrow> task_key t = task_key u \<Longrightarrow> t = u"
  by (auto simp: ledger_ok_def distinct_map dest: inj_onD)

lemma ledger_from_snoc:
  "ledger_from S ts \<Longrightarrow> row \<notin> task_key ` set ts \<Longrightarrow> ledger_from S (ts @ [new_task now row])"
  by (auto simp: ledger_from_def ledger_ok_def task_ok_new)

lemma ledger_from_map:
  assumes "ledger_from S ts" and "\<And>t. t \<in> set ts \<Longrightarrow> task_ok t \<Longrightarrow> f t = t \<or> task_ok (f t) \<and> steps_to t (f t)"
  shows "ledger_from S (map f ts)"
proof -
  have ok: "distinct (map task_key ts)" "\<And>t. t \<in> set ts \<Longrightarrow> task_ok t"
    using assms(1) by (auto simp: ledger_from_def ledger_ok_def list_all_iff)
  have each: "task_key (f t) = task_key t \<and> task_ok (f t) \<and> (\<forall>s. moved s t \<longrightarrow> moved s (f t))" if "t \<in> set ts" for t
    using assms(2) [OF that ok(2) [OF that]] ok(2) [OF that] moved_step by (metis steps_to_def)
  then have "map task_key (map f ts) = map task_key ts" by simp
  with ok(1) each assms(1) show ?thesis
    by (auto simp: ledger_from_def ledger_ok_def list_all_iff simp del: map_map) blast
qed

lemma steps_to_reset: "refreshable t \<Longrightarrow> steps_to t (reset_task now t)"
  by (auto simp: steps_to_def life_def refreshable_def reset_task_def task_key_def intro: sent_back)

subsection \<open>Every statement keeps it\<close>

lemma insert_one_from: "ledger_from S ts \<Longrightarrow> ledger_from S (insert_one now ts row)"
  by (simp add: insert_one_def ledger_from_snoc)

interpretation inserting: machine "insert_one now" "ledger_from S" for now S
  by unfold_locales (rule insert_one_from)

lemma insert_rows_from: "ledger_from S ts \<Longrightarrow> insert_rows rows now ts = Inr (n, ts') \<Longrightarrow> ledger_from S ts'"
  by (auto simp: insert_rows_def Let_def inserting.run_inv split: if_splits)

lemma upsert_one_from:
  assumes inv: "ledger_from S (u_ledger u)" and "upsert_one now row u = Inr v"
  shows "ledger_from S (u_ledger v)"
proof (cases "find (\<lambda>t. task_key t = row) (u_ledger u)")
  case None
  then have "row \<notin> task_key ` set (u_ledger u)" by (auto simp: find_None_iff)
  with assms None show ?thesis by (auto simp: upsert_one_def intro: ledger_from_snoc split: if_splits)
next
  case (Some t)
  then have t: "t \<in> set (u_ledger u)" "task_key t = row" by (auto simp: find_Some_iff)
  have "ledger_from S (map (\<lambda>v. if task_key v = row then reset_task now v else v) (u_ledger u))"
    if r: "refreshable t"
  proof (rule ledger_from_map [OF inv])
    fix v assume "v \<in> set (u_ledger u)"
    with inv t r ledger_ok_same_key [of "u_ledger u" v t]
    show "(if task_key v = row then reset_task now v else v) = v
        \<or> task_ok (if task_key v = row then reset_task now v else v) \<and> steps_to v (if task_key v = row then reset_task now v else v)"
      by (auto simp: ledger_from_def task_ok_reset steps_to_reset)
  qed
  with assms Some show ?thesis by (auto simp: upsert_one_def split: if_splits)
qed

lemma upsert_rows_from:
  assumes "ledger_from S ts" and run: "upsert_rows rows now ts = Inr (n, ts')"
  shows "ledger_from S ts'"
proof -
  from run obtain u where
    "sfold (upsert_one now) rows \<lparr>u_ledger = ts, u_inserted = 0, u_reset = 0, u_touched = []\<rparr> = Inr u"
    and u: "ts' = u_ledger u"
    by (auto simp: upsert_rows_def split: if_splits)
  from this(1) have "ledger_from S (u_ledger u)"
    by (rule sfold_inv [where I = "\<lambda>u. ledger_from S (u_ledger u)", rotated 2])
      (use assms upsert_one_from in auto)
  with u show ?thesis by simp
qed

lemma reset_rows_from: "ledger_from S ts \<Longrightarrow> reset_rows ms rs now ts = Inr (n, ts') \<Longrightarrow> ledger_from S ts'"
  by (auto simp: reset_rows_def Let_def task_ok_reset steps_to_reset intro!: ledger_from_map)

text \<open>A task as `claim_next` hands it out: waiting, with attempts left.\<close>

definition claimed :: "ingestion_task \<Rightarrow> bool" where
  "claimed t \<longleftrightarrow> task_ok t \<and> t_attempts t < max_attempts \<and> t_status t \<in> {PENDING, FAILED}"

lemma set_row_from:
  assumes inv: "ledger_from S ts" and "t \<in> set ts" and "set_row t f now ts = Inr (a, ts')"
    and new: "task_ok ((f t)\<lparr>t_updated_at := now\<rparr>)" "steps_to t ((f t)\<lparr>t_updated_at := now\<rparr>)"
  shows "ledger_from S ts'"
proof -
  have "ledger_from S (map (\<lambda>u. if task_key u = task_key t then (f u)\<lparr>t_updated_at := now\<rparr> else u) ts)"
  proof (rule ledger_from_map [OF inv])
    fix u assume "u \<in> set ts"
    with inv assms(2) have "task_key u = task_key t \<Longrightarrow> u = t"
      by (auto simp: ledger_from_def intro: ledger_ok_same_key)
    with new show "(if task_key u = task_key t then (f u)\<lparr>t_updated_at := now\<rparr> else u) = u
        \<or> task_ok (if task_key u = task_key t then (f u)\<lparr>t_updated_at := now\<rparr> else u)
          \<and> steps_to u (if task_key u = task_key t then (f u)\<lparr>t_updated_at := now\<rparr> else u)" by auto
  qed
  with assms(3) show ?thesis by (simp add: set_row_def)
qed

lemma first_task_props:
  "first_task ts = Some t \<Longrightarrow> t \<in> set ts \<and> (\<forall>u\<in>set ts. task_key t \<le> task_key u)"
proof (induction ts arbitrary: t)
  case Nil
  then show ?case by simp
next
  case (Cons a ts)
  show ?case
  proof (cases "first_task ts")
    case None
    then have "ts = []" by (cases ts) (auto split: option.splits if_splits)
    with Cons.prems show ?thesis by simp
  next
    case (Some u)
    with Cons.IH [OF Some] Cons.prems show ?thesis
      by (auto split: if_splits dest: order_trans intro: order_trans)
  qed
qed

lemma first_task_None [simp]: "first_task ts = None \<longleftrightarrow> ts = []"
  by (cases ts) (auto split: option.splits)

lemma first_task_in: "first_task (filter P ts) = Some t \<Longrightarrow> t \<in> set ts"
  using first_task_props [of "filter P ts" t] by auto

lemma claim_claimed:
  assumes "first_task (filter (claimable now) ts) = Some t" and "ledger_from S ts"
  shows "claimed t"
proof -
  have "claimable now t" using first_task_props [OF assms(1)] by auto
  moreover have "task_ok t" using first_task_in [OF assms(1)] assms(2) by (auto simp: ledger_from_def ledger_ok_def list_all_iff)
  ultimately show "claimed t" by (auto simp: claimed_def task_ok_def claimable_def max_attempts_def)
qed

lemma marked_values:
  assumes "claimed t"
  shows "task_ok ((done_values t)\<lparr>t_updated_at := now\<rparr>)" "steps_to t ((done_values t)\<lparr>t_updated_at := now\<rparr>)"
    and "task_ok ((gone_values t)\<lparr>t_updated_at := now\<rparr>)" "steps_to t ((gone_values t)\<lparr>t_updated_at := now\<rparr>)"
    and "task_ok ((attempt_values DEAD (t_attempts t + 1) None err t)\<lparr>t_updated_at := now\<rparr>)"
      "steps_to t ((attempt_values DEAD (t_attempts t + 1) None err t)\<lparr>t_updated_at := now\<rparr>)"
    and "t_attempts t + 1 < max_attempts
      \<Longrightarrow> task_ok ((attempt_values FAILED (t_attempts t + 1) (Some due) err t)\<lparr>t_updated_at := now\<rparr>)"
      "t_attempts t + 1 < max_attempts
      \<Longrightarrow> steps_to t ((attempt_values FAILED (t_attempts t + 1) (Some due) err t)\<lparr>t_updated_at := now\<rparr>)"
  using assms by (auto simp: task_ok_def claimed_def done_values_def gone_values_def attempt_values_def
      steps_to_def life_def task_key_def intro: life_step.intros split: option.splits)

subsection \<open>Every operation keeps it\<close>

definition ledger_kept :: "ledger \<Rightarrow> 's world \<Rightarrow> bool" where
  "ledger_kept S = db_inv (\<lambda>d. ledger_from S (tasks d))"

lemma keeps_insert_tasks: "keeps (ledger_kept S) (insert_tasks e rows)"
  by (auto simp: ledger_kept_def insert_tasks_def intro!: keeps_rules stmt_keeps_on_tasks intro: insert_rows_from)

lemma keeps_insert_or_reset_tasks: "keeps (ledger_kept S) (insert_or_reset_tasks e rows)"
  by (auto simp: ledger_kept_def insert_or_reset_tasks_def intro!: keeps_rules stmt_keeps_on_tasks
      intro: upsert_rows_from)

lemma keeps_reset_tasks: "keeps (ledger_kept S) (reset_tasks e ms rs)"
  by (auto simp: ledger_kept_def reset_tasks_def intro!: keeps_rules stmt_keeps_on_tasks intro: reset_rows_from)

lemma keeps_count_by_status: "keeps (ledger_kept S) (count_by_status e)"
  by (auto simp: ledger_kept_def count_by_status_def intro!: keeps_rules)

text \<open>The ledger is kept, and the session still sees the claimed task as it was handed out.\<close>

definition holding :: "ledger \<Rightarrow> ingestion_task \<Rightarrow> 's world \<Rightarrow> bool" where
  "holding S t w \<longleftrightarrow> ledger_kept S w \<and> claimed t \<and> t \<in> set (tasks (cur (wsess w)))"

lemma holding_kept: "holding S t w \<Longrightarrow> ledger_kept S w"
  by (simp add: holding_def)

lemma wp_set_marked:
  assumes "holding S t w" and "\<And>now. task_ok ((f t)\<lparr>t_updated_at := now\<rparr>) \<and> steps_to t ((f t)\<lparr>t_updated_at := now\<rparr>)"
  shows "wp (set_task e t f) (\<lambda>_. ledger_kept S) (\<lambda>_. holding S t) w"
  unfolding set_task_def
proof (rule wp_exec_work, goal_cases)
  case (1 now a d n se)
  then obtain ts where ts: "set_row t f now (tasks (cur (wsess w))) = Inr (a, ts)" "d = (cur (wsess w))\<lparr>tasks := ts\<rparr>"
    by (auto simp: on_tasks_def split: sum.splits)
  have "ledger_from S ts"
    by (rule set_row_from [OF _ _ ts(1)]) (use assms in \<open>auto simp: holding_def ledger_kept_def db_inv_def\<close>)
  with 1 ts(2) assms(1) show ?case by (simp add: holding_def ledger_kept_def db_inv_def)
next
  case (2 x n se)
  with assms(1) show ?case by (simp add: holding_def ledger_kept_def db_inv_def)
qed

lemma wp_marked:
  assumes "holding S t w"
  shows "wp (mark_done e t) (\<lambda>_. ledger_kept S) (\<lambda>_. holding S t) w"
    and "wp (mark_gone e t) (\<lambda>_. ledger_kept S) (\<lambda>_. holding S t) w"
    and "wp (mark_dead e t err) (\<lambda>_. ledger_kept S) (\<lambda>_. holding S t) w"
    and "wp (mark_failed e t err) (\<lambda>_. ledger_kept S) (\<lambda>_. holding S t) w"
proof -
  have t: "claimed t" using assms by (simp add: holding_def)
  show "wp (mark_done e t) (\<lambda>_. ledger_kept S) (\<lambda>_. holding S t) w"
    "wp (mark_gone e t) (\<lambda>_. ledger_kept S) (\<lambda>_. holding S t) w"
    "wp (mark_dead e t err) (\<lambda>_. ledger_kept S) (\<lambda>_. holding S t) w"
    unfolding mark_done_def mark_gone_def mark_dead_def
    by (rule wp_set_marked [OF assms], simp add: marked_values [OF t])+
  have same: "holding S t (w\<lparr>steps := n\<rparr>)" for n
    using assms by (simp add: holding_def ledger_kept_def db_inv_def)
  show "wp (mark_failed e t err) (\<lambda>_. ledger_kept S) (\<lambda>_. holding S t) w"
  proof (cases "max_attempts \<le> t_attempts t + 1")
    case True
    then show ?thesis unfolding mark_failed_def Let_def
      by (simp, intro wp_set_marked [OF assms]) (simp add: marked_values [OF t])
  next
    case False
    then show ?thesis unfolding mark_failed_def Let_def utc_now_def
      by (simp add: wp_simps, intro wp_set_marked [OF same]) (simp add: marked_values [OF t])
  qed
qed

lemma wp_claim_next:
  assumes "ledger_kept S w"
  shows "wp (claim_next e)
    (\<lambda>r v. ledger_kept S v \<and> (case r of None \<Rightarrow> True | Some t \<Rightarrow> holding S t v)) (\<lambda>_. ledger_kept S) w"
  unfolding claim_next_def utc_now_def wp_bnd wp_tick wp_look
proof (rule wp_exec_work, goal_cases)
  case (1 now r d n se)
  let ?P = "claimable (utc e (steps w) + micros (slept (w\<lparr>steps := Suc (steps w)\<rparr>)))"
  have r: "first_task (filter ?P (tasks (cur (wsess w)))) = r" "d = cur (wsess w)"
    using 1(1) by (auto simp: on_tasks_def query_def)
  have kept: "ledger_kept S (w\<lparr>steps := n, wsess := se\<rparr>)"
    using assms 1 r(2) by (simp add: ledger_kept_def db_inv_def)
  have "holding S t (w\<lparr>steps := n, wsess := se\<rparr>)" if "r = Some t" for t
  proof -
    have "ledger_from S (tasks (cur (wsess w)))" using assms by (simp add: ledger_kept_def db_inv_def)
    with claim_claimed [OF r(1) [unfolded that]] first_task_in [OF r(1) [unfolded that]] kept show ?thesis by (simp add: holding_def 1 r(2))
  qed
  with kept show ?case by (simp split: option.split)
next
  case (2 x n se)
  with assms show ?case by (simp add: ledger_kept_def db_inv_def)
qed

section \<open>What the two ways of adding tasks do exactly\<close>

lemma insert_run:
  "foldl (insert_one now) ts rows
     = ts @ map (new_task now) (filter (\<lambda>row. row \<notin> task_key ` set ts) (uniq rows))"
proof (induction rows rule: rev_induct)
  case Nil
  then show ?case by simp
next
  case (snoc row rows)
  let ?ts = "ts @ map (new_task now) (filter (\<lambda>row. row \<notin> task_key ` set ts) (uniq rows))"
  have keys: "row \<in> task_key ` set ?ts \<longleftrightarrow> row \<in> task_key ` set ts \<or> row \<in> set rows"
    by (auto simp: image_Un image_image image_iff)
  have "insert_one now ?ts row
      = ts @ map (new_task now) (filter (\<lambda>row. row \<notin> task_key ` set ts) (uniq (rows @ [row])))"
    unfolding insert_one_def keys by (simp add: uniq_snoc)
  then show ?case by (simp only: foldl_append snoc.IH foldl.simps)
qed

definition refreshed :: "datetime \<Rightarrow> (int \<times> resource) list \<Rightarrow> ingestion_task \<Rightarrow> ingestion_task" where
  "refreshed now rows t = (if task_key t \<in> set rows \<and> refreshable t then reset_task now t else t)"

lemma find_append: "find P (xs @ ys) = (case find P xs of None \<Rightarrow> find P ys | Some x \<Rightarrow> Some x)"
  by (induction xs) auto

lemma reset_keeps_key [simp]: "task_key (refreshed now rows t) = task_key t"
  by (simp add: refreshed_def)

lemma upsert_run:
  assumes ok: "ledger_ok ts" and "distinct rows"
  shows "\<exists>touched. set touched \<subseteq> set rows \<and>
    sfold (upsert_one now) rows \<lparr>u_ledger = ts, u_inserted = 0, u_reset = 0, u_touched = []\<rparr>
     = Inr \<lparr>u_ledger = map (refreshed now rows) ts
                @ map (new_task now) (filter (\<lambda>row. row \<notin> task_key ` set ts) rows),
            u_inserted = int (length (filter (\<lambda>row. row \<notin> task_key ` set ts) rows)),
            u_reset = int (length (filter (\<lambda>t. task_key t \<in> set rows \<and> refreshable t) ts)),
            u_touched = touched\<rparr>"
  using assms(2)
proof (induction rows rule: rev_induct)
  case Nil
  then show ?case by (simp add: refreshed_def)
next
  case (snoc row rows)
  let ?new = "filter (\<lambda>row. row \<notin> task_key ` set ts) rows"
  from snoc obtain touched where touched: "set touched \<subseteq> set rows" "row \<notin> set touched"
    and IH: "sfold (upsert_one now) rows \<lparr>u_ledger = ts, u_inserted = 0, u_reset = 0, u_touched = []\<rparr>
     = Inr \<lparr>u_ledger = map (refreshed now rows) ts @ map (new_task now) ?new,
            u_inserted = int (length ?new),
            u_reset = int (length (filter (\<lambda>t. task_key t \<in> set rows \<and> refreshable t) ts)),
            u_touched = touched\<rparr>" by auto
  have fresh: "row \<notin> set rows" using snoc.prems by simp
  let ?u = "\<lparr>u_ledger = map (refreshed now rows) ts @ map (new_task now) ?new,
            u_inserted = int (length ?new),
            u_reset = int (length (filter (\<lambda>t. task_key t \<in> set rows \<and> refreshable t) ts)),
            u_touched = touched\<rparr>"
  have step: "sfold (upsert_one now) (rows @ [row]) \<lparr>u_ledger = ts, u_inserted = 0, u_reset = 0, u_touched = []\<rparr>
      = upsert_one now row ?u"
    by (simp only: sfold_snoc IH sbind_simps)
  have nofind: "find (\<lambda>t. task_key t = row) (map (new_task now) ?new) = None"
    using fresh by (auto simp: find_None_iff)
  show ?case
  proof (cases "find (\<lambda>t. task_key t = row) ts")
    case None
    then have out: "row \<notin> task_key ` set ts" by (auto simp: find_None_iff)
    then have none: "find (\<lambda>t. task_key t = row) (map (refreshed now rows) ts) = None"
      by (auto simp: find_None_iff)
    have same: "map (refreshed now (rows @ [row])) ts = map (refreshed now rows) ts"
      "filter (\<lambda>t. task_key t \<in> set (rows @ [row]) \<and> refreshable t) ts
        = filter (\<lambda>t. task_key t \<in> set rows \<and> refreshable t) ts"
      using out by (auto simp: refreshed_def intro!: filter_cong)
    show ?thesis
      unfolding step
      by (rule exI [of _ "row # touched"])
        (use touched out none nofind same in \<open>auto simp add: upsert_one_def find_append simp del: map_map\<close>)
  next
    case (Some t)
    then have t: "t \<in> set ts" "task_key t = row" by (auto simp: find_Some_iff)
    from t(1) obtain xs ys where ts: "ts = xs @ t # ys" by (metis split_list)
    with ok t have others: "row \<notin> task_key ` set xs" "row \<notin> task_key ` set ys"
      by (auto simp: ledger_ok_def)
    have same: "map (refreshed now (rows @ [row])) zs = map (refreshed now rows) zs"
      "map (\<lambda>v. if task_key v = row then reset_task now v else v) (map (refreshed now rows) zs)
         = map (refreshed now rows) zs"
      "filter (\<lambda>t. task_key t \<in> set (rows @ [row]) \<and> refreshable t) zs
        = filter (\<lambda>t. task_key t \<in> set rows \<and> refreshable t) zs"
      "find (\<lambda>t. task_key t = row) (map (refreshed now rows) zs) = None"
      if "row \<notin> task_key ` set zs" for zs
      using that by (auto simp: refreshed_def find_None_iff intro!: filter_cong)
    have new: "map (\<lambda>v. if task_key v = row then reset_task now v else v) (map (new_task now) ?new)
        = map (new_task now) ?new"
      using fresh by auto
    have now: "refreshed now rows t = t"
      "refreshed now (rows @ [row]) t = (if refreshable t then reset_task now t else t)"
      using t fresh by (auto simp: refreshed_def)
    note facts = same [OF others(1)] same(1-3) [OF others(2)] now new
    show ?thesis
      unfolding step
      by (rule exI [of _ "if refreshable t then row # touched else touched"])
        (use touched facts t fresh in \<open>auto simp add: upsert_one_def find_append
          ts simp del: map_map\<close>)
  qed
qed

section \<open>Properties\<close>

text \<open>Inserting tasks leaves every existing row as it is, whatever its status, and adds exactly
  the rows that were missing, once each, as fresh pending tasks; the count is their number.\<close>

theorem insert_adds_only_missing:
  assumes "list_all (int32_ok \<circ> fst) rows"
  shows "insert_rows rows now ts = Inr (int (length new), ts @ map (new_task now) new)
       \<longleftrightarrow> new = filter (\<lambda>row. row \<notin> task_key ` set ts) (uniq rows)"
proof -
  have inj: "map (new_task now) xs = map (new_task now) ys \<longleftrightarrow> xs = ys" for xs ys
    by (rule inj_map_eq_map) (metis injI task_key_simps(1))
  show ?thesis using assms by (auto simp: insert_rows_def insert_run inj)
qed

theorem insert_adds_only_missing_witness:
  "insert_rows [(5, DETAILS), (7, REVIEWS), (5, DETAILS)] 10 [new_task 3 (7, REVIEWS)]
     = Inr (1, [new_task 3 (7, REVIEWS), new_task 10 (5, DETAILS)])"
  using insert_adds_only_missing [of "[(5, DETAILS), (7, REVIEWS), (5, DETAILS)]" 10 "[new_task 3 (7, REVIEWS)]"
      "[(5, DETAILS)]"]
  by (simp add: int32_ok_def uniq_def)

text \<open>C9. A refresh of distinct tasks sends exactly the proposed tasks that are done or failed back to
  pending, with no attempt used, no time to wait for, no error text and the time of the refresh as
  their `updated_at`, everything else of the row kept; it adds the missing ones as fresh pending
  rows at the end, leaves dead, gone, pending and unproposed rows as they are, and reports both
  counts.\<close>

theorem refresh_exact:
  assumes "ledger_ok ts" and "distinct rows" and "list_all (int32_ok \<circ> fst) rows"
  shows "let missing = filter (\<lambda>row. row \<notin> (\<lambda>t. (t_mal_id t, t_resource t)) ` set ts) rows;
             hit = (\<lambda>t. (t_mal_id t, t_resource t) \<in> set rows \<and> (t_status t = DONE \<or> t_status t = FAILED))
         in upsert_rows rows now ts
            = Inr ((int (length missing), int (length (filter hit ts))),
                   map (\<lambda>t. if hit t
                     then t\<lparr>t_status := PENDING, t_attempts := 0, t_next_attempt_at := None,
                            t_last_error := None, t_updated_at := now\<rparr>
                     else t) ts
                   @ map (\<lambda>(m, r). \<lparr>t_mal_id = m, t_resource = r, t_status = PENDING, t_attempts = 0,
                       t_next_attempt_at = None, t_last_error = None, t_created_at = now, t_updated_at = now\<rparr>) missing)"
proof -
  have hit: "refreshable t \<longleftrightarrow> t_status t = DONE \<or> t_status t = FAILED" for t
    by (simp add: refreshable_def refreshable_statuses_def)
  have key: "(t_mal_id t, t_resource t) = task_key t" for t
    by (simp add: task_key_def)
  have fresh: "(\<lambda>(m, r). \<lparr>t_mal_id = m, t_resource = r, t_status = PENDING, t_attempts = 0,
      t_next_attempt_at = None, t_last_error = None, t_created_at = now, t_updated_at = now\<rparr>) = new_task now"
    by (auto simp: fun_eq_iff new_task_def)
  from upsert_run [OF assms(1,2), of now] show ?thesis using assms(3)
    unfolding key fresh reset_task_def [symmetric]
    by (auto simp: upsert_rows_def Let_def refreshed_def hit cong: if_cong)
qed

definition refresh_ledger :: ledger where
  "refresh_ledger =
     [\<lparr>t_mal_id = 7, t_resource = REVIEWS, t_status = FAILED, t_attempts = 2, t_next_attempt_at = Some 90,
       t_last_error = Some ''timeout'', t_created_at = 3, t_updated_at = 4\<rparr>,
      \<lparr>t_mal_id = 8, t_resource = DETAILS, t_status = GONE, t_attempts = 1, t_next_attempt_at = None,
       t_last_error = Some ''404'', t_created_at = 3, t_updated_at = 5\<rparr>]"

theorem refresh_exact_witness:
  "upsert_rows [(5, DETAILS), (7, REVIEWS), (8, DETAILS)] 10 refresh_ledger
     = Inr ((1, 1),
        [\<lparr>t_mal_id = 7, t_resource = REVIEWS, t_status = PENDING, t_attempts = 0, t_next_attempt_at = None,
          t_last_error = None, t_created_at = 3, t_updated_at = 10\<rparr>,
         \<lparr>t_mal_id = 8, t_resource = DETAILS, t_status = GONE, t_attempts = 1, t_next_attempt_at = None,
          t_last_error = Some ''404'', t_created_at = 3, t_updated_at = 5\<rparr>,
         \<lparr>t_mal_id = 5, t_resource = DETAILS, t_status = PENDING, t_attempts = 0, t_next_attempt_at = None,
          t_last_error = None, t_created_at = 10, t_updated_at = 10\<rparr>])"
proof -
  have "ledger_ok refresh_ledger"
    by (simp add: refresh_ledger_def ledger_ok_def task_ok_def task_key_def max_attempts_def last_error_max_chars_def)
  from refresh_exact [OF this, of "[(5, DETAILS), (7, REVIEWS), (8, DETAILS)]" 10] show ?thesis
    by (simp add: refresh_ledger_def int32_ok_def Let_def)
qed

text \<open>`claim_next` hands out the claimable task (pending or failed, its backoff over) with the
  smallest (mal_id, resource), and None exactly when no task is claimable; it changes no row.\<close>

theorem claim_next_first:
  "let now = utc e (steps w) + micros (slept w); ts = tasks (cur (wsess w)) in
   case claim_next e w of (r, v) \<Rightarrow> cur (wsess v) = cur (wsess w) \<and> saved (wsess v) = saved (wsess w)
     \<and> (case r of Inl _ \<Rightarrow> True
        | Inr None \<Rightarrow> list_all (\<lambda>u. \<not> claimable now u) ts
        | Inr (Some t) \<Rightarrow> t \<in> set ts \<and> claimable now t
            \<and> list_all (\<lambda>u. task_key t \<le> task_key u) (filter (claimable now) ts))"
proof -
  let ?now = "utc e (steps w) + micros (slept w)" let ?ts = "tasks (cur (wsess w))"
  let ?same = "\<lambda>v. cur (wsess v) = cur (wsess w) \<and> saved (wsess v) = saved (wsess w)"
  have "wp (claim_next e) (\<lambda>r v. ?same v \<and> r = first_task (filter (claimable ?now) ?ts)) (\<lambda>_. ?same) w"
    unfolding claim_next_def utc_now_def
    by (simp add: wp_simps, rule wp_exec_work) (auto simp: on_tasks_def query_def)
  moreover obtain r v where run: "claim_next e w = (r, v)" by fastforce
  ultimately have same: "?same v" and r: "case r of Inl _ \<Rightarrow> True | Inr x \<Rightarrow> x = first_task (filter (claimable ?now) ?ts)"
    by (auto simp: wp_def split: sum.splits)
  have "case r of Inl _ \<Rightarrow> True
        | Inr None \<Rightarrow> list_all (\<lambda>u. \<not> claimable ?now u) ?ts
        | Inr (Some t) \<Rightarrow> t \<in> set ?ts \<and> claimable ?now t
            \<and> list_all (\<lambda>u. task_key t \<le> task_key u) (filter (claimable ?now) ?ts)"
  proof (cases "first_task (filter (claimable ?now) ?ts)")
    case None
    then show ?thesis using r by (auto simp: filter_empty_conv list_all_iff split: sum.split)
  next
    case (Some t)
    then show ?thesis using r first_task_props [OF Some] by (auto simp: list_all_iff split: sum.split)
  qed
  with same show ?thesis unfolding Let_def run by simp
qed

end
