(* ===== verification/Raw_Layer.thy ===== *)
theory Raw_Layer
  imports Ingest_Model "HOL-Library.Product_Lexorder"
begin

text \<open>
  app/ingestion/storage/raw_store.py and app/ingestion/repository/raw_tenrai_repository.py: the raw
  responses are objects in S3, whose keys are derived from (resource, mal_id), and the table
  raw_tenrai is their index.  The S3 client, gzip and JSON are the parameters `s3_put`,
  `s3_get`, `pack` and `unpack`.
\<close>

section \<open>RawStore\<close>

definition is_slash :: "char \<Rightarrow> bool" where
  "is_slash c \<longleftrightarrow> c = CHR ''/''"

definition strip_slashes :: "string \<Rightarrow> string" where
  "strip_slashes s = rev (dropWhile is_slash (rev (dropWhile is_slash s)))"

text \<open>The constructor: the prefix it keeps, or a ValueError without a bucket.\<close>

definition new_raw_store :: "'s env \<Rightarrow> py_exn + string" where
  "new_raw_store e = (case raw_s3_bucket e of None \<Rightarrow> Inl ValueError
     | Some bucket \<Rightarrow> if bucket = [] then Inl ValueError else Inr (strip_slashes (raw_s3_prefix e)))"

definition key_for :: "'s env \<Rightarrow> int \<Rightarrow> resource \<Rightarrow> string" where
  "key_for e mal_id resource =
     strip_slashes (raw_s3_prefix e) @ ''/'' @ resource_value resource @ ''/'' @ str_int mal_id @ ''.json.gz''"

definition s3_call :: "string \<Rightarrow> ('s \<Rightarrow> (s3_fault + 'a) \<times> 's) \<Rightarrow> ('s, 'a) io" where
  "s3_call what f = (\<lambda>w. case f (s3 w) of (r, objects) \<Rightarrow>
     ((case r of Inl (S3Refused name) \<Rightarrow> Inl (RawStoreError (what @ '' failed: '' @ name))
       | Inl S3Cancelled \<Rightarrow> Inl Interrupted
       | Inr a \<Rightarrow> Inr a), w\<lparr>s3 := objects\<rparr>))"

definition raw_store_put :: "'s env \<Rightarrow> int \<Rightarrow> resource \<Rightarrow> json \<Rightarrow> ('s, int) io" where
  "raw_store_put e mal_id resource payload = (let key = key_for e mal_id resource; body = pack e payload in
     bnd (s3_call (''put '' @ key) (s3_put e key body)) (\<lambda>_. ret (int (length body))))"

text \<open>
  The exceptions of `get`: `OSError`, `EOFError`, `ValueError` and their subclasses that gzip and json
  raise.  The `zlib.error` of a damaged stream is none of them and goes on as it is.
\<close>

definition undecodable :: "py_exn \<Rightarrow> bool" where
  "undecodable x \<longleftrightarrow> x = ValueError
     \<or> py_exn_name x \<in> {''OSError'', ''BadGzipFile'', ''EOFError'', ''JSONDecodeError'', ''UnicodeDecodeError''}"

definition raw_store_get :: "'s env \<Rightarrow> int \<Rightarrow> resource \<Rightarrow> ('s, json) io" where
  "raw_store_get e mal_id resource = (let key = key_for e mal_id resource in
     bnd (s3_call (''get '' @ key) (s3_get e key)) (\<lambda>body.
     case unpack e body of
       Inl x \<Rightarrow> raise (if undecodable x then RawStoreError (key @ '' is not valid gzipped JSON: '' @ py_exn_name x)
                       else OtherError x)
     | Inr payload \<Rightarrow> ret payload))"

text \<open>Different tasks never share an object.\<close>

lemma key_for_inj: "key_for e m r = key_for e m' r' \<longleftrightarrow> m = m' \<and> r = r'"
  by (cases r; cases r') (simp_all add: key_for_def)

section \<open>RawTenraiRepository\<close>

type_synonym raw_index = "raw_tenrai list"

definition raw_key :: "raw_tenrai \<Rightarrow> int \<times> resource" where
  "raw_key r = (w_mal_id r, w_resource r)"

definition find_raw :: "'s env \<Rightarrow> int \<Rightarrow> resource \<Rightarrow> ('s, raw_tenrai option) io" where
  "find_raw e mal_id resource = exec_work e (on_raw (query (find (\<lambda>r. raw_key r = (mal_id, resource)))))"

text \<open>The tuples compare as (mal_id, value of the resource), in the column's alphabetical order.\<close>

definition batch_rows :: "datetime option \<Rightarrow> (int \<times> resource) option \<Rightarrow> nat \<Rightarrow> raw_index \<Rightarrow> raw_index" where
  "batch_rows since after limit rows =
     take limit (sort_key raw_key (filter (\<lambda>r.
       (case since of None \<Rightarrow> True | Some t \<Rightarrow> t \<le> w_fetched_at r)
       \<and> (case after of None \<Rightarrow> True | Some k \<Rightarrow> k < raw_key r)) rows))"

definition get_batch :: "'s env \<Rightarrow> datetime option \<Rightarrow> (int \<times> resource) option \<Rightarrow> nat \<Rightarrow> ('s, raw_index) io" where
  "get_batch e since after limit = exec_work e (on_raw (query (batch_rows since after limit)))"

definition raw_upsert_one :: "datetime \<Rightarrow> int \<times> resource \<times> int
    \<Rightarrow> raw_index \<times> (int \<times> resource) list \<Rightarrow> string + raw_index \<times> (int \<times> resource) list" where
  "raw_upsert_one now row acc = (case row of (m, r, bytes) \<Rightarrow> case acc of (rows, touched) \<Rightarrow>
     if (m, r) \<in> set touched then Inl ''CardinalityViolationError''
     else Inr (if (m, r) \<in> raw_key ` set rows
        then map (\<lambda>v. if raw_key v = (m, r) then v\<lparr>w_size_bytes := bytes, w_fetched_at := now\<rparr> else v) rows
        else rows @ [\<lparr>w_mal_id = m, w_resource = r, w_size_bytes = bytes, w_fetched_at = now\<rparr>],
        (m, r) # touched))"

definition raw_upsert_rows :: "(int \<times> resource \<times> int) list \<Rightarrow> (raw_index, int) stmt" where
  "raw_upsert_rows new now rows =
     (if \<not> list_all (\<lambda>(m, _, bytes). int32_ok m \<and> int32_ok bytes) new then Inl ''DataError'' else
      sbind (sfold (raw_upsert_one now) new (rows, [])) (\<lambda>(rows', _). Inr (int (length new), rows')))"

definition upsert_many :: "'s env \<Rightarrow> (int \<times> resource \<times> int) list \<Rightarrow> ('s, int) io" where
  "upsert_many e new = (if new = [] then ret 0 else exec_work e (on_raw (raw_upsert_rows new)))"

definition raw_upsert :: "'s env \<Rightarrow> int \<Rightarrow> resource \<Rightarrow> int \<Rightarrow> ('s, unit) io" where
  "raw_upsert e mal_id resource bytes = bnd (upsert_many e [(mal_id, resource, bytes)]) (\<lambda>_. ret ())"

definition raw_delete :: "'s env \<Rightarrow> int \<Rightarrow> resource \<Rightarrow> ('s, int) io" where
  "raw_delete e mal_id resource = exec_work e (on_raw (\<lambda>_ rows.
     Inr (int (length (filter (\<lambda>r. raw_key r = (mal_id, resource)) rows)),
          filter (\<lambda>r. raw_key r \<noteq> (mal_id, resource)) rows)))"

text \<open>The index has one row per key; an upsert of one row keeps that and only adds its key.\<close>

definition index_ok :: "raw_index \<Rightarrow> bool" where
  "index_ok rows \<longleftrightarrow> distinct (map raw_key rows)"

lemma raw_upsert_single:
  assumes "raw_upsert_rows [(m, r, bytes)] now rows = Inr (n, rows')"
  shows "index_ok rows \<Longrightarrow> index_ok rows'"
    and "raw_key ` set rows' = insert (m, r) (raw_key ` set rows)"
proof -
  have key: "raw_key (if raw_key v = (m, r) then v\<lparr>w_size_bytes := bytes, w_fetched_at := now\<rparr> else v) = raw_key v" for v
    by (simp add: raw_key_def)
  have rows': "rows' = (if (m, r) \<in> raw_key ` set rows
        then map (\<lambda>v. if raw_key v = (m, r) then v\<lparr>w_size_bytes := bytes, w_fetched_at := now\<rparr> else v) rows
        else rows @ [\<lparr>w_mal_id = m, w_resource = r, w_size_bytes = bytes, w_fetched_at = now\<rparr>])"
    using assms by (simp add: raw_upsert_rows_def raw_upsert_one_def split: if_splits)
  show "index_ok rows \<Longrightarrow> index_ok rows'"
    by (auto simp: rows' index_ok_def comp_def key) (auto simp: raw_key_def image_iff)
  show "raw_key ` set rows' = insert (m, r) (raw_key ` set rows)"
  proof (cases "(m, r) \<in> raw_key ` set rows")
    case True
    then show ?thesis by (simp only: rows' if_True set_map image_image key insert_absorb)
  next
    case False
    then show ?thesis by (simp add: rows') (simp add: raw_key_def)
  qed
qed

section \<open>Reading in batches\<close>

text \<open>
  Passing the key of the last row of a batch to the next call walks through the rows in order:
  what is left after a batch is what was left before it, without the batch.
\<close>

definition left_after :: "datetime option \<Rightarrow> (int \<times> resource) option \<Rightarrow> raw_index \<Rightarrow> raw_index" where
  "left_after since after rows = sort_key raw_key (filter (\<lambda>r.
       (case since of None \<Rightarrow> True | Some t \<Rightarrow> t \<le> w_fetched_at r)
       \<and> (case after of None \<Rightarrow> True | Some k \<Rightarrow> k < raw_key r)) rows)"

lemma batch_rows_take: "batch_rows since after limit rows = take limit (left_after since after rows)"
  by (simp add: batch_rows_def left_after_def)

lemma filter_greater_drop:
  assumes "sorted (map f xs)" and "distinct (map f xs)" and "n < length xs"
  shows "filter (\<lambda>x. f (xs ! n) < f x) xs = drop (Suc n) xs"
  using assms
proof (induction xs arbitrary: n)
  case Nil
  then show ?case by simp
next
  case (Cons x xs)
  show ?case
  proof (cases n)
    case 0
    have "\<forall>y\<in>set xs. f x < f y" using Cons.prems by (auto simp: order.strict_iff_order)
    then show ?thesis using 0 by simp
  next
    case (Suc m)
    then have "f x \<le> f (xs ! m)" using Cons.prems by simp
    then show ?thesis using Suc Cons by (auto simp: not_less)
  qed
qed

lemma batch_next:
  assumes "index_ok rows" and "batch_rows since after limit rows = batch" and "batch \<noteq> []"
  shows "left_after since (Some (raw_key (last batch))) rows = drop (length batch) (left_after since after rows)"
proof -
  let ?p = "\<lambda>r. (case since of None \<Rightarrow> True | Some t \<Rightarrow> t \<le> w_fetched_at r)
       \<and> (case after of None \<Rightarrow> True | Some k \<Rightarrow> k < raw_key r)"
  let ?xs = "left_after since after rows"
  have batch: "batch = take limit ?xs" using assms(2) batch_rows_take by metis
  define n where "n = length batch - 1"
  have n: "n < length ?xs" "length batch = Suc n" "last batch = ?xs ! n"
    using assms(3) batch by (auto simp: n_def last_conv_nth min_def)
  have srt: "sorted (map raw_key ?xs)" by (simp add: left_after_def)
  have dst: "distinct (map raw_key ?xs)"
    using assms(1) by (simp add: left_after_def index_ok_def distinct_map inj_on_def)
  have "raw_key (last batch) = raw_key (?xs ! n)" using n by simp
  moreover have after: "case after of None \<Rightarrow> True | Some k \<Rightarrow> k < raw_key (?xs ! n)"
    using nth_mem [OF n(1)] unfolding left_after_def by auto
  ultimately have "left_after since (Some (raw_key (last batch))) rows
      = sort_key raw_key (filter (\<lambda>r. raw_key (?xs ! n) < raw_key r) (filter ?p rows))"
    by (auto simp: left_after_def intro!: arg_cong [where f = "sort_key raw_key"] filter_cong split: option.splits)
  also have "\<dots> = filter (\<lambda>r. raw_key (?xs ! n) < raw_key r) ?xs"
    by (simp add: left_after_def filter_sort)
  also have "\<dots> = drop (Suc n) ?xs" by (rule filter_greater_drop [OF srt dst n(1)])
  finally show ?thesis using n by simp
qed

end
