(* ===== verification/Run_Metrics.thy ===== *)
theory Run_Metrics
  imports Ingest_Model
begin

text \<open>
  app/ingestion/repository/metrics_repository.py: the history of job runs, on a session of its own,
  so that a run's record survives a rollback of the job's work.  A new run takes its id from the
  table's sequence, which never goes back.
\<close>

definition error_max_chars :: nat where "error_max_chars = 500"

definition new_run :: "nat \<Rightarrow> string \<Rightarrow> datetime \<Rightarrow> ingestion_run" where
  "new_run i job now = \<lparr>r_id = i, r_job = job, r_status = RUNNING, r_started_at = now,
     r_finished_at = None, r_summary = None, r_error = None\<rparr>"

definition start_run :: "'s env \<Rightarrow> string \<Rightarrow> ('s, nat) io" where
  "start_run e job =
     bnd (look run_seq) (\<lambda>i.
     bnd (update (\<lambda>w. w\<lparr>run_seq := Suc i\<rparr>)) (\<lambda>_.
     bnd (exec_metrics e (\<lambda>now runs. Inr ((), runs @ [new_run i job now]))) (\<lambda>_.
     ret i)))"

definition trimmed :: "string option \<Rightarrow> string option" where
  "trimmed error = (case error of None \<Rightarrow> None
     | Some m \<Rightarrow> if m = [] then None else Some (take error_max_chars m))"

definition finish_run :: "'s env \<Rightarrow> nat \<Rightarrow> run_status \<Rightarrow> json \<Rightarrow> string option \<Rightarrow> ('s, unit) io" where
  "finish_run e i status summary error = bnd (utc_now e) (\<lambda>now.
     exec_metrics e (\<lambda>_ runs. Inr ((), map (\<lambda>r. if r_id r = i
       then r\<lparr>r_status := status, r_finished_at := Some now, r_summary := Some summary,
              r_error := trimmed error\<rparr> else r) runs)))"

fun newest :: "ingestion_run list \<Rightarrow> ingestion_run option" where
  "newest [] = None"
| "newest (r # rs) = (case newest rs of None \<Rightarrow> Some r | Some q \<Rightarrow> if r_id q < r_id r then Some r else Some q)"

definition latest_of :: "string \<Rightarrow> ingestion_run list \<Rightarrow> ingestion_run option" where
  "latest_of job runs = newest (filter (\<lambda>r. r_job r = job) runs)"

definition latest_run :: "'s env \<Rightarrow> string \<Rightarrow> ('s, ingestion_run option) io" where
  "latest_run e job = exec_metrics e (query (latest_of job))"

definition succeeded_start :: "string \<Rightarrow> ingestion_run list \<Rightarrow> datetime option" where
  "succeeded_start job runs =
     map_option r_started_at (newest (filter (\<lambda>r. r_job r = job \<and> r_status r = RUN_SUCCEEDED) runs))"

definition last_succeeded_run_start :: "'s env \<Rightarrow> string \<Rightarrow> ('s, datetime option) io" where
  "last_succeeded_run_start e job = exec_metrics e (query (succeeded_start job))"

lemma newest_props:
  "newest rs = Some r \<Longrightarrow> r \<in> set rs \<and> (\<forall>q\<in>set rs. r_id q \<le> r_id r)"
proof (induction rs arbitrary: r)
  case (Cons a rs)
  show ?case
  proof (cases "newest rs")
    case None
    then have "rs = []" by (cases rs) (auto split: option.splits if_splits)
    with Cons.prems show ?thesis by simp
  next
    case (Some q)
    with Cons.IH [OF Some] Cons.prems show ?thesis by (auto split: if_splits)
  qed
qed simp

lemma newest_None [simp]: "newest rs = None \<longleftrightarrow> rs = []"
  by (cases rs) (auto split: option.splits)

text \<open>
  What the repository of the run history keeps: any predicate of the world that does not look at
  the metrics session, the sequence or the step counter.
\<close>

definition metrics_blind :: "('s world \<Rightarrow> bool) \<Rightarrow> bool" where
  "metrics_blind P \<longleftrightarrow> (\<forall>w se n i. P w \<longrightarrow>
     P (w\<lparr>msess := se\<rparr>) \<and> P (w\<lparr>steps := n\<rparr>) \<and> P (w\<lparr>run_seq := i\<rparr>))"

lemma metrics_blindD:
  assumes "metrics_blind P" and "P w"
  shows "P (w\<lparr>msess := se\<rparr>)" "P (w\<lparr>steps := n\<rparr>)" "P (w\<lparr>run_seq := i\<rparr>)"
  using assms by (auto simp: metrics_blind_def)

lemma metrics_blind_db_inv [simp]: "metrics_blind (db_inv I)" "metrics_blind (saved_is d)"
  by (simp_all add: metrics_blind_def)

lemma keeps_run_metrics [keeps_rules]:
  assumes "metrics_blind P"
  shows "keeps P (start_run e job)" "keeps P (finish_run e i st sm err)" "keeps P (commit_metrics e)"
    "keeps P (latest_run e job)" "keeps P (last_succeeded_run_start e job)"
  unfolding start_run_def finish_run_def latest_run_def last_succeeded_run_start_def
  by (auto intro!: keeps_rules metrics_blindD [OF assms])

end
