(* ===== verification/Fetch_Job.thy ===== *)
theory Fetch_Job
  imports Tenrai Task_Ledger Raw_Layer Run_Metrics
begin

text \<open>
  app/ingestion/jobs/fetch_anime_job.py: the job claims a task, fetches its resource from Tenrai,
  stores the response in S3, and commits the index row together with the task's new state.  The
  Python locals that outlive a round are the loop's variables; the counters of the job object are
  the fields `j_...` of the world.  What the job only logs is left out.
\<close>

definition fetch_job_name :: string where "fetch_job_name = ''fetch_tasks''"
definition max_episode_pages :: nat where "max_episode_pages = 100"
definition max_consecutive_unexpected :: int where "max_consecutive_unexpected = 10"
definition max_consecutive_denied :: int where "max_consecutive_denied = 5"
definition progress_every_tasks :: int where "progress_every_tasks = 500"

record task_outcome =
  o_resource :: resource
  o_status :: task_status
  o_first_try :: bool

section \<open>Classes of exceptions\<close>

fun is_raw_store :: "ingest_exn \<Rightarrow> bool" where
  "is_raw_store (RawStoreError _) = True"
| "is_raw_store _ = False"

fun is_sqlalchemy :: "ingest_exn \<Rightarrow> bool" where
  "is_sqlalchemy (SQLAlchemyError _) = True"
| "is_sqlalchemy _ = False"

text \<open>`isinstance(exc, Exception)`: everything but an interrupt.\<close>

fun is_exception :: "ingest_exn \<Rightarrow> bool" where
  "is_exception Interrupted = False"
| "is_exception _ = True"

definition describe :: "ingest_exn \<Rightarrow> string" where
  "describe x = exn_name x @ '': '' @ exn_text x"

definition lift_py :: "py_exn + 'a \<Rightarrow> ('s, 'a) io" where
  "lift_py r = lift_sum (case r of Inl x \<Rightarrow> Inl (OtherError x) | Inr a \<Rightarrow> Inr a)"

section \<open>The payload of a task\<close>

text \<open>`(response.get('pagination') or {}).get('has_next_page')`\<close>

definition has_next_page :: "json \<Rightarrow> py_exn + bool" where
  "has_next_page response = sbind (dget response ''pagination'') (\<lambda>p.
     sbind (dget (py_or p (JObj [])) ''has_next_page'') (\<lambda>more. Inr (truthy more)))"

text \<open>
  `left` pages may still be asked for.  With none left the page number has passed
  MAX_EPISODE_PAGES.
\<close>

fun episode_pages :: "'s env \<Rightarrow> int \<Rightarrow> nat \<Rightarrow> int \<Rightarrow> json list \<Rightarrow> ('s, json list) io" where
  "episode_pages e mal_id 0 page pages = raise (PermanentError
     (''episodes still paging after '' @ str_int (int max_episode_pages) @ '' pages'') None)"
| "episode_pages e mal_id (Suc left) page pages =
     bnd (get_episodes e mal_id page) (\<lambda>response.
     bnd (lift_py (has_next_page response)) (\<lambda>more.
     if more then episode_pages e mal_id left (page + 1) (pages @ [response])
     else ret (pages @ [response])))"

definition fetch_episodes :: "'s env \<Rightarrow> int \<Rightarrow> ('s, json) io" where
  "fetch_episodes e mal_id =
     bnd (episode_pages e mal_id max_episode_pages 1 []) (\<lambda>pages. ret (JList pages))"

definition fetch_payload :: "'s env \<Rightarrow> ingestion_task \<Rightarrow> ('s, json) io" where
  "fetch_payload e t = (case t_resource t of
     EPISODES \<Rightarrow> fetch_episodes e (t_mal_id t)
   | DETAILS \<Rightarrow> get_full e (t_mal_id t)
   | STATISTICS \<Rightarrow> get_statistics e (t_mal_id t)
   | REVIEWS \<Rightarrow> get_reviews e (t_mal_id t) 1
   | CHARACTERS \<Rightarrow> raise (PermanentError (''no fetcher for resource '' @ resource_value (t_resource t)) None))"

section \<open>One task\<close>

definition denied_to :: "int \<Rightarrow> ('s, unit) io" where
  "denied_to n = update (\<lambda>w. w\<lparr>j_denied_in_a_row := n\<rparr>)"

definition unexpected_to :: "int \<Rightarrow> ('s, unit) io" where
  "unexpected_to n = update (\<lambda>w. w\<lparr>j_unexpected_in_a_row := n\<rparr>)"

text \<open>The except clauses, in their order: the task's new status, or the exception again.\<close>

definition fetch_failed :: "'s env \<Rightarrow> ingestion_task \<Rightarrow> ingest_exn \<Rightarrow> ('s, task_status) io" where
  "fetch_failed e t x =
     (if is_gone x then
        bnd (denied_to 0) (\<lambda>_. bnd (mark_gone e t) (\<lambda>_. ret GONE))
      else if is_permanent x then
        bnd (denied_to 0) (\<lambda>_. bnd (mark_dead e t (describe x)) (\<lambda>_. ret DEAD))
      else if is_circuit_open x \<or> is_raw_store x then
        bnd rollback_work (\<lambda>_. raise x)
      else if is_access_denied x then
        bnd (look j_denied_in_a_row) (\<lambda>n. bnd (denied_to (n + 1)) (\<lambda>_.
        bnd (mark_failed e t (describe x)) (\<lambda>_. ret FAILED)))
      else if is_transient x then
        bnd (denied_to 0) (\<lambda>_. bnd (mark_failed e t (describe x)) (\<lambda>_. ret FAILED))
      else if is_exception x then
        (if is_sqlalchemy x then bnd rollback_work (\<lambda>_. raise x)
         else bnd (denied_to 0) (\<lambda>_.
           bnd (look j_unexpected_in_a_row) (\<lambda>n. bnd (unexpected_to (n + 1)) (\<lambda>_.
           bnd (mark_failed e t (describe x)) (\<lambda>_. ret FAILED)))))
      else bnd rollback_work (\<lambda>_. raise x))"

definition fetch_and_store :: "'s env \<Rightarrow> ingestion_task \<Rightarrow> ('s, task_status \<times> int) io" where
  "fetch_and_store e t =
     bnd (fetch_payload e t) (\<lambda>payload.
     bnd (raw_store_put e (t_mal_id t) (t_resource t) payload) (\<lambda>bytes.
     bnd (raw_upsert e (t_mal_id t) (t_resource t) bytes) (\<lambda>_.
     bnd (mark_done e t) (\<lambda>_.
     bnd (unexpected_to 0) (\<lambda>_.
     bnd (denied_to 0) (\<lambda>_. ret (DONE, bytes)))))))"

definition fetch_job_from_tasks :: "'s env \<Rightarrow> ('s, task_outcome option) io" where
  "fetch_job_from_tasks e =
     bnd (claim_next e) (\<lambda>task. case task of None \<Rightarrow> ret None | Some t \<Rightarrow>
     bnd (handle (fetch_and_store e t) (\<lambda>x. bnd (fetch_failed e t x) (\<lambda>status. ret (status, 0)))) (\<lambda>(status, bytes).
     bnd (commit_work e) (\<lambda>_.
     bnd (if status = DONE then update (\<lambda>w. w\<lparr>j_raw_bytes := j_raw_bytes w + bytes\<rparr>) else ret ()) (\<lambda>_.
     ret (Some \<lparr>o_resource = t_resource t, o_status = status, o_first_try = t_attempts t = 0\<rparr>)))))"

section \<open>The summary of a run\<close>

record run_summary =
  s_tasks :: int
  s_done :: int
  s_first_try_tasks :: int
  s_done_first_try :: int
  s_failed :: int
  s_dead :: int
  s_gone :: int
  s_task_seconds :: rat
  s_max_task_seconds :: rat
  s_by_resource :: "(string, int \<times> rat) dict"
  s_counters :: "(string, json) dict"  \<comment> \<open>rate_limited_amount, requests, retries, raw_bytes\<close>

definition new_summary :: run_summary where
  "new_summary = \<lparr>s_tasks = 0, s_done = 0, s_first_try_tasks = 0, s_done_first_try = 0, s_failed = 0,
     s_dead = 0, s_gone = 0, s_task_seconds = 0, s_max_task_seconds = 0, s_by_resource = [], s_counters = []\<rparr>"

text \<open>`_record`: the outcome's status is never pending, which is no key of the summary.\<close>

definition record_outcome :: "task_outcome \<Rightarrow> rat \<Rightarrow> run_summary \<Rightarrow> run_summary" where
  "record_outcome out seconds s =
     (let s1 = s\<lparr>s_tasks := s_tasks s + 1\<rparr>;
          s2 = (case o_status out of
              DONE \<Rightarrow> s1\<lparr>s_done := s_done s1 + 1\<rparr>
            | FAILED \<Rightarrow> s1\<lparr>s_failed := s_failed s1 + 1\<rparr>
            | DEAD \<Rightarrow> s1\<lparr>s_dead := s_dead s1 + 1\<rparr>
            | GONE \<Rightarrow> s1\<lparr>s_gone := s_gone s1 + 1\<rparr>
            | PENDING \<Rightarrow> s1);
          s3 = (if o_first_try out then s2\<lparr>s_first_try_tasks := s_first_try_tasks s2 + 1\<rparr> else s2);
          s4 = (if o_status out = DONE \<and> o_first_try out
                then s3\<lparr>s_done_first_try := s_done_first_try s3 + 1\<rparr> else s3);
          name = resource_value (o_resource out);
          bucket = (case map_of (s_by_resource s4) name of None \<Rightarrow> (0, 0) | Some b \<Rightarrow> b)
      in s4\<lparr>s_task_seconds := s_task_seconds s4 + seconds,
            s_max_task_seconds := max (s_max_task_seconds s4) seconds,
            s_by_resource := AList.update name (fst bucket + 1, snd bucket + seconds) (s_by_resource s4)\<rparr>)"

definition round3 :: "rat \<Rightarrow> json" where
  "round3 q = JFloat (FNum (of_int (py_round (q * 1000)) / 1000))"

definition py_div :: "rat \<Rightarrow> rat \<Rightarrow> py_exn + rat" where
  "py_div a b = (if b = 0 then Inl ZeroDivisionError else Inr (a / b))"

text \<open>`_metrics`, with the wall time it measures.\<close>

definition run_metrics :: "rat \<Rightarrow> run_summary \<Rightarrow> py_exn + (string, json) dict" where
  "run_metrics elapsed s =
     sbind (if s_tasks s = 0 then Inr []
            else case map_of (s_counters s) ''requests'' of
                Some (JInt requests) \<Rightarrow>
                  sbind (py_div (of_int (s_tasks s)) elapsed) (\<lambda>per_s.
                  sbind (py_div (of_int requests) elapsed) (\<lambda>req_s.
                  sbind (py_div (s_task_seconds s) (of_int (s_tasks s))) (\<lambda>avg.
                  Inr [(''tasks_per_minute'', round3 (per_s * 60)), (''requests_per_minute'', round3 (req_s * 60)),
                       (''avg_task_ms'', round3 (avg * 1000))])))
              | _ \<Rightarrow> Inl KeyError) (\<lambda>rates.
     sbind (smap (\<lambda>(name, count, seconds). sbind (py_div seconds (of_int count)) (\<lambda>avg.
              Inr (name, JObj [(''count'', JInt count), (''seconds'', round3 seconds),
                               (''avg_ms'', round3 (avg * 1000))]))) (s_by_resource s)) (\<lambda>buckets.
     Inr ([(''tasks'', JInt (s_tasks s)), (''done'', JInt (s_done s)),
           (''first_try_tasks'', JInt (s_first_try_tasks s)), (''done_first_try'', JInt (s_done_first_try s)),
           (''failed'', JInt (s_failed s)), (''dead'', JInt (s_dead s)), (''gone'', JInt (s_gone s)),
           (''task_seconds'', round3 (s_task_seconds s)),
           (''max_task_seconds'', round3 (s_max_task_seconds s)),
           (''by_resource'', JObj buckets)] @ s_counters s
          @ [(''elapsed_seconds'', round3 elapsed)] @ rates)))"

definition metrics_since :: "'s env \<Rightarrow> rat \<Rightarrow> run_summary \<Rightarrow> ('s, (string, json) dict) io" where
  "metrics_since e started s = bnd (monotonic e) (\<lambda>now. lift_py (run_metrics (now - started) s))"

text \<open>The adapter's counters at the start of the run: rate limited, requests, retries.\<close>

type_synonym counts = "int \<times> int \<times> int"

definition adapter_counts :: "'s world \<Rightarrow> counts" where
  "adapter_counts w = (rate_limited_count w, request_count w, retry_count w)"

definition counters :: "counts \<Rightarrow> 's world \<Rightarrow> (string, json) dict" where
  "counters start w = (case start of (limited, requests, retries) \<Rightarrow>
     [(''rate_limited_amount'', JInt (rate_limited_count w - limited)),
      (''requests'', JInt (request_count w - requests)),
      (''retries'', JInt (retry_count w - retries)),
      (''raw_bytes'', JInt (j_raw_bytes w))])"

definition put_all :: "(string, json) dict \<Rightarrow> (string, json) dict \<Rightarrow> (string, json) dict" where
  "put_all new d = foldl (\<lambda>d (k, v). AList.update k v d) d new"

definition queue_counts :: "'s env \<Rightarrow> ('s, json) io" where
  "queue_counts e = handle
     (bnd (count_by_status e) (\<lambda>counts. ret (JObj (map (\<lambda>(k, n). (k, JInt n)) counts))))
     (\<lambda>x. if is_exception x then ret (JObj []) else raise x)"

definition record_run :: "'s env \<Rightarrow> nat \<Rightarrow> run_status \<Rightarrow> json \<Rightarrow> string option \<Rightarrow> ('s, unit) io" where
  "record_run e run_id status summary error = handle
     (bnd (finish_run e run_id status summary error) (\<lambda>_. commit_metrics e))
     (\<lambda>x. if is_exception x then ret () else raise x)"

section \<open>The run\<close>

text \<open>
  After a task: the progress log computes the metrics (and can raise), then the two limits on
  errors in a row.
\<close>

definition after_task :: "'s env \<Rightarrow> rat \<Rightarrow> run_summary \<Rightarrow> ('s, unit) io" where
  "after_task e started s =
     bnd (if s_tasks s mod progress_every_tasks = 0
          then bnd (metrics_since e started s) (\<lambda>_. ret ()) else ret ()) (\<lambda>_.
     bnd (look j_unexpected_in_a_row) (\<lambda>unexpected.
     if max_consecutive_unexpected \<le> unexpected then raise (RepeatedUnexpectedErrors unexpected)
     else bnd (look j_denied_in_a_row) (\<lambda>denied.
       if max_consecutive_denied \<le> denied
       then raise (AccessDeniedError (str_int denied @ '' access denied answers in a row'') None)
       else ret ())))"

text \<open>
  One round of the loop.  It leaves with the exception that stops the run, or without one when no
  task is claimable; either way with the summary as it is then.
\<close>

definition fetch_round :: "'s env \<Rightarrow> counts \<Rightarrow> rat \<Rightarrow> run_summary
    \<Rightarrow> ('s, run_summary + (ingest_exn option \<times> run_summary)) io" where
  "fetch_round e start started s =
     bnd (monotonic e) (\<lambda>task_started.
     bnd (outcome_of (fetch_job_from_tasks e)) (\<lambda>r. case r of
         Inl x \<Rightarrow> ret (Inr (Some x, s))
       | Inr out \<Rightarrow> (case out of
           None \<Rightarrow> ret (Inr (None, s))
         | Some done \<Rightarrow>
             bnd (monotonic e) (\<lambda>now.
             bnd (look (counters start)) (\<lambda>counts.
             let s' = (record_outcome done (now - task_started) s)\<lparr>s_counters := counts\<rparr> in
             bnd (outcome_of (after_task e started s')) (\<lambda>r. case r of
                 Inl x \<Rightarrow> ret (Inr (Some x, s'))
               | Inr _ \<Rightarrow> ret (Inl s')))))))"

definition start_fetch :: "('s, unit) io" where
  "start_fetch = update (\<lambda>w. w\<lparr>j_unexpected_in_a_row := 0, j_denied_in_a_row := 0, j_raw_bytes := 0\<rparr>)"

definition stop_run :: "'s env \<Rightarrow> counts \<Rightarrow> rat \<Rightarrow> nat \<Rightarrow> ingest_exn \<Rightarrow> run_summary \<Rightarrow> ('s, 'a) io" where
  "stop_run e start started run_id x s =
     bnd (metrics_since e started s) (\<lambda>stopped.
     bnd (look (counters start)) (\<lambda>counts.
     bnd (queue_counts e) (\<lambda>queue.
     bnd (record_run e run_id RUN_FAILED
       (JObj (put_all ((''stopped_by'', JStr (exn_name x)) # counts @ [(''queue_after'', queue)]) stopped))
       (Some (describe x))) (\<lambda>_.
     raise x))))"

definition finish_fetch :: "'s env \<Rightarrow> counts \<Rightarrow> rat \<Rightarrow> nat \<Rightarrow> run_summary \<Rightarrow> ('s, json) io" where
  "finish_fetch e start started run_id s =
     bnd (metrics_since e started s) (\<lambda>metrics.
     bnd (queue_counts e) (\<lambda>queue.
     bnd (look (counters start)) (\<lambda>counts.
     let summary = JObj (put_all ([(''stopped_by'', JNull), (''queue_after'', queue)] @ counts) metrics) in
     bnd (record_run e run_id RUN_SUCCEEDED summary None) (\<lambda>_. ret summary))))"

text \<open>
  `fetch_from_tasks`: the result is None only when the fuel runs out, which the theorem on
  its termination excludes.
\<close>

definition fetch_from_tasks :: "'s env \<Rightarrow> nat \<Rightarrow> ('s, json option) io" where
  "fetch_from_tasks e fuel =
     bnd start_fetch (\<lambda>_.
     bnd (look adapter_counts) (\<lambda>start.
     bnd (monotonic e) (\<lambda>started.
     bnd (start_run e fetch_job_name) (\<lambda>run_id.
     bnd (commit_metrics e) (\<lambda>_.
     bnd (loop fuel (fetch_round e start started) new_summary) (\<lambda>r. case r of
         None \<Rightarrow> ret None
       | Some (Some x, s) \<Rightarrow> stop_run e start started run_id x s
       | Some (None, s) \<Rightarrow> bnd (finish_fetch e start started run_id s) (\<lambda>summary. ret (Some summary))))))))"

end
