(* ===== verification/Clean_Job.thy ===== *)
theory Clean_Job
  imports Parsers Fetch_Job
begin

text \<open>
  app/ingestion/jobs/clean_raw_job.py: the job reads the raw index in batches, loads the responses
  from the object store, parses them into the catalogue and commits each batch on its own.  The
  locals of the loop are read in the except clause, so they are local variables of the run.  The
  object store is read one row after another in the rows' order (the code runs up to 16 reads at
  once; a read changes nothing that another one sees).
\<close>

definition clean_job_name :: string where "clean_job_name = ''clean_anime''"
definition batch_rows_default :: nat where "batch_rows_default = 500"

type_synonym cursor = "(int \<times> resource) option"
type_synonym names = "(int, string) dict"

text \<open>The dict of counts: COUNT_KEYS, and the two TIMING_KEYS.\<close>

record clean_counts =
  c_rows_read :: int
  c_anime_changed :: int
  c_tags_upserted :: int
  c_studios_upserted :: int
  c_tag_links :: int
  c_studio_links :: int
  c_relation_links :: int
  c_statistics :: int
  c_episodes :: int
  c_reviews :: int
  c_parse_failed :: int
  c_skipped_no_anime :: int
  c_skipped_unsupported :: int
  c_read_seconds :: rat
  c_write_seconds :: rat

definition zero_counts :: clean_counts where
  "zero_counts = \<lparr>c_rows_read = 0, c_anime_changed = 0, c_tags_upserted = 0, c_studios_upserted = 0,
     c_tag_links = 0, c_studio_links = 0, c_relation_links = 0, c_statistics = 0, c_episodes = 0,
     c_reviews = 0, c_parse_failed = 0, c_skipped_no_anime = 0, c_skipped_unsupported = 0,
     c_read_seconds = 0, c_write_seconds = 0\<rparr>"

text \<open>`totals[key] += value` for every key.\<close>

definition add_counts :: "clean_counts \<Rightarrow> clean_counts \<Rightarrow> clean_counts" where
  "add_counts a b = \<lparr>c_rows_read = c_rows_read a + c_rows_read b,
     c_anime_changed = c_anime_changed a + c_anime_changed b, c_tags_upserted = c_tags_upserted a + c_tags_upserted b,
     c_studios_upserted = c_studios_upserted a + c_studios_upserted b, c_tag_links = c_tag_links a + c_tag_links b,
     c_studio_links = c_studio_links a + c_studio_links b,
     c_relation_links = c_relation_links a + c_relation_links b, c_statistics = c_statistics a + c_statistics b,
     c_episodes = c_episodes a + c_episodes b, c_reviews = c_reviews a + c_reviews b,
     c_parse_failed = c_parse_failed a + c_parse_failed b,
     c_skipped_no_anime = c_skipped_no_anime a + c_skipped_no_anime b,
     c_skipped_unsupported = c_skipped_unsupported a + c_skipped_unsupported b,
     c_read_seconds = c_read_seconds a + c_read_seconds b, c_write_seconds = c_write_seconds a + c_write_seconds b\<rparr>"

record raw_doc =
  doc_mal_id :: int
  doc_resource :: resource
  doc_payload :: json

section \<open>Details\<close>

text \<open>The lists and dicts `_clean_details` fills.\<close>

record details_lists =
  dl_animes :: "row_dict list"
  dl_tag_ids :: "(int, int list) dict"
  dl_studio_ids :: "(int, int list) dict"
  dl_relations :: "(int, link list) dict"
  dl_new_tags :: names
  dl_new_studios :: names
  dl_failed :: int

definition no_details :: details_lists where
  "no_details = \<lparr>dl_animes = [], dl_tag_ids = [], dl_studio_ids = [], dl_relations = [],
     dl_new_tags = [], dl_new_studios = [], dl_failed = 0\<rparr>"

text \<open>`d.update(kvs)`; and the entries of `found` that `known` does not have with this name.\<close>

definition dict_update :: "('k \<times> 'v) list \<Rightarrow> ('k, 'v) dict \<Rightarrow> ('k, 'v) dict" where
  "dict_update kvs d = foldl (\<lambda>d (k, v). AList.update k v d) d kvs"

definition unknown :: "names \<Rightarrow> names \<Rightarrow> names" where
  "unknown known found = filter (\<lambda>(i, name). map_of known i \<noteq> Some name) found"

definition gather_details :: "pylib \<Rightarrow> names \<Rightarrow> names \<Rightarrow> raw_doc \<Rightarrow> details_lists \<Rightarrow> py_exn + details_lists" where
  "gather_details l tags studios doc a =
     sbind (clean_full l (doc_payload doc)) (\<lambda>parsed. case parsed of
       None \<Rightarrow> Inr (a\<lparr>dl_failed := dl_failed a + 1\<rparr>)
     | Some anime \<Rightarrow>
         let i = id_in ''mal_id'' anime in
         sbind (extract_tags (doc_payload doc)) (\<lambda>anime_tags.
         sbind (extract_studios (doc_payload doc)) (\<lambda>anime_studios.
         sbind (extract_relations (doc_payload doc)) (\<lambda>relations.
         Inr (a\<lparr>dl_animes := dl_animes a @ [anime],
                dl_tag_ids := AList.update i (map fst anime_tags) (dl_tag_ids a),
                dl_studio_ids := AList.update i (map fst anime_studios) (dl_studio_ids a),
                dl_relations := AList.update i relations (dl_relations a),
                dl_new_tags := dict_update (unknown tags anime_tags) (dl_new_tags a),
                dl_new_studios := dict_update (unknown studios anime_studios) (dl_new_studios a)\<rparr>)))))"

text \<open>The order matters: the links point at the anime, the tags and the studios.\<close>

definition clean_details :: "'s env \<Rightarrow> raw_doc list \<Rightarrow> names \<Rightarrow> names \<Rightarrow> clean_counts
    \<Rightarrow> ('s, names \<times> names \<times> clean_counts) io" where
  "clean_details e details tags studios counts =
     bnd (lift_py (sfold (gather_details (lib e) tags studios) details no_details)) (\<lambda>a.
     bnd (upsert_anime e (dl_animes a)) (\<lambda>anime_changed.
     bnd (if dl_new_tags a \<noteq> [] then upsert_tags e (dl_new_tags a) else ret 0) (\<lambda>tags_upserted.
     bnd (if dl_new_studios a \<noteq> [] then upsert_studios e (dl_new_studios a) else ret 0) (\<lambda>studios_upserted.
     bnd (replace_anime_tags e (dl_tag_ids a)) (\<lambda>tag_links.
     bnd (replace_anime_studios e (dl_studio_ids a)) (\<lambda>studio_links.
     bnd (replace_relations e (dl_relations a)) (\<lambda>relation_links.
     ret (dl_new_tags a, dl_new_studios a,
       counts\<lparr>c_parse_failed := c_parse_failed counts + dl_failed a, c_anime_changed := anime_changed,
         c_tags_upserted := tags_upserted, c_studios_upserted := studios_upserted, c_tag_links := tag_links,
         c_studio_links := studio_links, c_relation_links := relation_links\<rparr>))))))))"

section \<open>Statistics, episodes and reviews\<close>

record other_lists =
  ol_statistics :: "row_dict list"
  ol_episodes :: "row_dict list"
  ol_reviews :: "row_dict list"
  ol_failed :: int
  ol_no_anime :: int
  ol_unsupported :: int

definition no_others :: other_lists where
  "no_others = \<lparr>ol_statistics = [], ol_episodes = [], ol_reviews = [], ol_failed = 0, ol_no_anime = 0,
     ol_unsupported = 0\<rparr>"

definition gather_other :: "pylib \<Rightarrow> int list \<Rightarrow> raw_doc \<Rightarrow> other_lists \<Rightarrow> py_exn + other_lists" where
  "gather_other l present doc a =
     (if doc_mal_id doc \<notin> set present then Inr (a\<lparr>ol_no_anime := ol_no_anime a + 1\<rparr>)
      else case doc_resource doc of
        STATISTICS \<Rightarrow> sbind (clean_statistics l (doc_payload doc) (doc_mal_id doc)) (\<lambda>parsed. case parsed of
            None \<Rightarrow> Inr (a\<lparr>ol_failed := ol_failed a + 1\<rparr>)
          | Some stat \<Rightarrow> Inr (a\<lparr>ol_statistics := ol_statistics a @ [stat]\<rparr>))
      | EPISODES \<Rightarrow> sbind (clean_episodes l (doc_payload doc) (doc_mal_id doc)) (\<lambda>rows.
            Inr (a\<lparr>ol_episodes := ol_episodes a @ rows\<rparr>))
      | REVIEWS \<Rightarrow> sbind (clean_reviews l (doc_payload doc) (doc_mal_id doc)) (\<lambda>rows.
            Inr (a\<lparr>ol_reviews := ol_reviews a @ rows\<rparr>))
      | _ \<Rightarrow> Inr (a\<lparr>ol_unsupported := ol_unsupported a + 1\<rparr>))"

definition clean_others :: "'s env \<Rightarrow> raw_doc list \<Rightarrow> clean_counts \<Rightarrow> ('s, clean_counts) io" where
  "clean_others e others counts =
     bnd (existing_anime_ids e (uniq (map doc_mal_id others))) (\<lambda>present.
     bnd (lift_py (sfold (gather_other (lib e) present) others no_others)) (\<lambda>a.
     bnd (upsert_statistics e (ol_statistics a)) (\<lambda>statistics.
     bnd (upsert_episodes e (ol_episodes a)) (\<lambda>episodes.
     bnd (upsert_reviews e (ol_reviews a)) (\<lambda>reviews.
     ret (counts\<lparr>c_parse_failed := c_parse_failed counts + ol_failed a,
       c_skipped_no_anime := c_skipped_no_anime counts + ol_no_anime a,
       c_skipped_unsupported := c_skipped_unsupported counts + ol_unsupported a,
       c_statistics := statistics, c_episodes := episodes, c_reviews := reviews\<rparr>))))))"

section \<open>A batch\<close>

definition clean_rows :: "'s env \<Rightarrow> raw_doc list \<Rightarrow> clean_counts \<Rightarrow> names \<Rightarrow> names
    \<Rightarrow> ('s, names \<times> names \<times> clean_counts) io" where
  "clean_rows e rows counts tags studios =
     bnd (clean_details e (filter (\<lambda>d. doc_resource d = DETAILS) rows) tags studios counts) (\<lambda>(new_tags, new_studios, counts).
     bnd (clean_others e (filter (\<lambda>d. doc_resource d \<noteq> DETAILS) rows) counts) (\<lambda>counts.
     ret (new_tags, new_studios, counts)))"

definition load_payload :: "'s env \<Rightarrow> raw_tenrai \<Rightarrow> ('s, raw_doc) io" where
  "load_payload e r = bnd (raw_store_get e (w_mal_id r) (w_resource r)) (\<lambda>payload.
     ret \<lparr>doc_mal_id = w_mal_id r, doc_resource = w_resource r, doc_payload = payload\<rparr>)"

definition load_payloads :: "'s env \<Rightarrow> raw_tenrai list \<Rightarrow> ('s, raw_doc list) io" where
  "load_payloads e rows = map_prog (load_payload e) rows"

text \<open>An exception rolls the batch back and is raised again; an interrupt is only raised again.\<close>

definition write_batch :: "'s env \<Rightarrow> raw_doc list \<Rightarrow> clean_counts \<Rightarrow> names \<Rightarrow> names
    \<Rightarrow> ('s, names \<times> names \<times> clean_counts) io" where
  "write_batch e docs counts tags studios =
     handle (bnd (clean_rows e docs counts tags studios) (\<lambda>r. bnd (commit_work e) (\<lambda>_. ret r)))
       (\<lambda>x. if is_exception x then bnd rollback_work (\<lambda>_. raise x) else raise x)"

record batch_result =
  b_next_after :: cursor
  b_counts :: clean_counts
  b_tags :: names     \<comment> \<open>the dicts after the call, which the caller shares\<close>
  b_studios :: names

definition clean_anime :: "'s env \<Rightarrow> cursor \<Rightarrow> datetime option \<Rightarrow> names \<Rightarrow> names \<Rightarrow> nat \<Rightarrow> ('s, batch_result) io" where
  "clean_anime e after since tags studios batch_size =
     bnd (monotonic e) (\<lambda>read_started.
     bnd (get_batch e since after batch_size) (\<lambda>rows.
     if rows = [] then ret \<lparr>b_next_after = None, b_counts = zero_counts, b_tags = tags, b_studios = studios\<rparr>
     else
       bnd (load_payloads e rows) (\<lambda>docs.
       bnd (monotonic e) (\<lambda>read_done.
       let counts = zero_counts\<lparr>c_rows_read := int (length rows), c_read_seconds := read_done - read_started\<rparr> in
       bnd (monotonic e) (\<lambda>write_started.
       bnd (write_batch e docs counts tags studios) (\<lambda>(new_tags, new_studios, counts).
       bnd (monotonic e) (\<lambda>now.
       ret \<lparr>b_next_after = Some (raw_key (last rows)),
         b_counts = counts\<lparr>c_write_seconds := now - write_started\<rparr>,
         b_tags = dict_update new_tags tags, b_studios = dict_update new_studios studios\<rparr>)))))))"

section \<open>The loop\<close>

record clean_locals =
  k_totals :: clean_counts
  k_batches :: int
  k_slowest :: rat
  k_after :: cursor
  k_tags :: names
  k_studios :: names

text \<open>`isoformat()` of a UTC time.\<close>

definition padded :: "nat \<Rightarrow> int \<Rightarrow> string" where
  "padded width n = (let s = str_int n in replicate (width - length s) (CHR ''0'') @ s)"

definition civil :: "datetime \<Rightarrow> int \<times> int \<times> int" where
  "civil t = (let z = t div 86400000000 + 719468; era = z div 146097; doe = z mod 146097;
       yoe = (doe - doe div 1460 + doe div 36524 - doe div 146096) div 365;
       doy = doe - (365 * yoe + yoe div 4 - yoe div 100); mp = (5 * doy + 2) div 153
     in (yoe + era * 400 + (if 10 \<le> mp then 1 else 0), if mp < 10 then mp + 3 else mp - 9,
         doy - (153 * mp + 2) div 5 + 1))"

definition isoformat :: "datetime \<Rightarrow> string" where
  "isoformat t = (case civil t of (year, month, day) \<Rightarrow> let us = t mod 86400000000 in
     padded 4 year @ ''-'' @ padded 2 month @ ''-'' @ padded 2 day @ ''T''
     @ padded 2 (us div 3600000000) @ '':'' @ padded 2 (us div 60000000 mod 60) @ '':''
     @ padded 2 (us div 1000000 mod 60)
     @ (if us mod 1000000 = 0 then [] else ''.'' @ padded 6 (us mod 1000000)) @ ''+00:00'')"

definition round1 :: "rat \<Rightarrow> json" where
  "round1 q = JFloat (FNum (of_int (py_round (q * 10)) / 10))"

definition clean_summary :: "rat \<Rightarrow> datetime option \<Rightarrow> clean_locals \<Rightarrow> (string, json) dict" where
  "clean_summary elapsed since k = (let c = k_totals k in
     [(''rows_read'', JInt (c_rows_read c)), (''anime_changed'', JInt (c_anime_changed c)),
      (''tags_upserted'', JInt (c_tags_upserted c)), (''studios_upserted'', JInt (c_studios_upserted c)),
      (''tag_links_changed'', JInt (c_tag_links c)), (''studio_links_changed'', JInt (c_studio_links c)),
      (''relation_links_changed'', JInt (c_relation_links c)), (''statistics_written'', JInt (c_statistics c)),
      (''episodes_written'', JInt (c_episodes c)), (''reviews_written'', JInt (c_reviews c)),
      (''parse_failed'', JInt (c_parse_failed c)), (''skipped_no_anime'', JInt (c_skipped_no_anime c)),
      (''skipped_unsupported'', JInt (c_skipped_unsupported c)), (''read_seconds'', round3 (c_read_seconds c)),
      (''write_seconds'', round3 (c_write_seconds c)),
      (''rows_written'', JInt (c_anime_changed c + c_tags_upserted c + c_studios_upserted c + c_statistics c
         + c_episodes c + c_reviews c)),
      (''since'', case since of None \<Rightarrow> JNull | Some t \<Rightarrow> JStr (isoformat t)),
      (''batches'', JInt (k_batches k)), (''elapsed_seconds'', round3 elapsed),
      (''max_batch_seconds'', round3 (k_slowest k))]
     @ (if k_batches k \<noteq> 0
        then [(''avg_batch_ms'', round3 ((c_read_seconds c + c_write_seconds c) / of_int (k_batches k) * 1000))]
        else [])
     @ (if elapsed \<noteq> 0 then [(''rows_read_per_second'', round1 (of_int (c_rows_read c) / elapsed))] else []))"

definition clean_summary_since :: "'s env \<Rightarrow> rat \<Rightarrow> datetime option \<Rightarrow> clean_locals \<Rightarrow> ('s, (string, json) dict) io" where
  "clean_summary_since e started since k = bnd (monotonic e) (\<lambda>now. ret (clean_summary (now - started) since k))"

definition progress_every_batches :: int where "progress_every_batches = 20"

text \<open>One round of the loop; the summary of a progress line raises nothing.\<close>

definition clean_round :: "'s env \<Rightarrow> rat \<Rightarrow> datetime option \<Rightarrow> nat \<Rightarrow> unit
    \<Rightarrow> ('s world \<times> clean_locals, ingest_exn, unit + unit) prog" where
  "clean_round e started since batch_size _ =
     bnd (local id) (\<lambda>k.
     bnd (lifted (clean_anime e (k_after k) since (k_tags k) (k_studios k) batch_size)) (\<lambda>b.
     bnd (locals (\<lambda>k. k\<lparr>k_tags := b_tags b, k_studios := b_studios b\<rparr>)) (\<lambda>_.
     case b_next_after b of
       None \<Rightarrow> ret (Inr ())
     | Some next_key \<Rightarrow>
         bnd (locals (\<lambda>k. k\<lparr>k_after := Some next_key, k_batches := k_batches k + 1,
           k_totals := add_counts (k_totals k) (b_counts b),
           k_slowest := max (k_slowest k) (c_read_seconds (b_counts b) + c_write_seconds (b_counts b))\<rparr>)) (\<lambda>_.
         bnd (local id) (\<lambda>k.
         bnd (if k_batches k mod progress_every_batches = 0
              then bnd (lifted (clean_summary_since e started since k)) (\<lambda>_. ret ()) else ret ()) (\<lambda>_.
         ret (Inl ())))))))"

definition clean_batches :: "'s env \<Rightarrow> nat \<Rightarrow> rat \<Rightarrow> datetime option \<Rightarrow> nat
    \<Rightarrow> ('s world \<times> clean_locals, ingest_exn, unit option) prog" where
  "clean_batches e fuel started since batch_size =
     bnd (lifted (get_tags e)) (\<lambda>tags.
     bnd (locals (\<lambda>k. k\<lparr>k_tags := tags\<rparr>)) (\<lambda>_.
     bnd (lifted (get_studios e)) (\<lambda>studios.
     bnd (locals (\<lambda>k. k\<lparr>k_studios := studios\<rparr>)) (\<lambda>_.
     loop fuel (clean_round e started since batch_size) ()))))"

fun resume_after :: "cursor \<Rightarrow> json" where
  "resume_after None = JNull"
| "resume_after (Some (i, r)) = JList [JInt i, JStr (resource_value r)]"

definition clean_failed :: "'s env \<Rightarrow> rat \<Rightarrow> datetime option \<Rightarrow> nat \<Rightarrow> ingest_exn \<Rightarrow> clean_locals \<Rightarrow> ('s, 'a) io" where
  "clean_failed e started since run_id x k =
     bnd (clean_summary_since e started since k) (\<lambda>failed.
     bnd (record_run e run_id RUN_FAILED (JObj (failed @ [(''resume_after'', resume_after (k_after k))]))
       (Some (describe x))) (\<lambda>_.
     raise x))"

definition clean_finished :: "'s env \<Rightarrow> rat \<Rightarrow> datetime option \<Rightarrow> nat \<Rightarrow> clean_locals \<Rightarrow> ('s, json) io" where
  "clean_finished e started since run_id k =
     bnd (clean_summary_since e started since k) (\<lambda>metrics.
     let summary = JObj (metrics @ [(''resume_after'', JNull)]) in
     bnd (record_run e run_id RUN_SUCCEEDED summary None) (\<lambda>_. ret summary))"

text \<open>`full_clean_loop`; None is a run that is out of fuel.\<close>

definition clean_since :: "'s env \<Rightarrow> datetime option \<Rightarrow> bool \<Rightarrow> ('s, datetime option) io" where
  "clean_since e since full_pass = (if full_pass then ret None
     else case since of Some t \<Rightarrow> ret (Some t) | None \<Rightarrow> last_succeeded_run_start e clean_job_name)"

definition full_clean_loop :: "'s env \<Rightarrow> nat \<Rightarrow> datetime option \<Rightarrow> cursor \<Rightarrow> nat \<Rightarrow> bool \<Rightarrow> ('s, json option) io" where
  "full_clean_loop e fuel since after batch_size full_pass =
     bnd (clean_since e since full_pass) (\<lambda>since.
     bnd (monotonic e) (\<lambda>started.
     bnd (start_run e clean_job_name) (\<lambda>run_id.
     bnd (commit_metrics e) (\<lambda>_.
     bnd (with_locals \<lparr>k_totals = zero_counts, k_batches = 0, k_slowest = 0, k_after = after, k_tags = [], k_studios = []\<rparr>
            (clean_batches e fuel started since batch_size)) (\<lambda>(r, k).
     case r of
       Inl x \<Rightarrow> clean_failed e started since run_id x k
     | Inr None \<Rightarrow> ret None
     | Inr (Some _) \<Rightarrow> bnd (clean_finished e started since run_id k) (\<lambda>summary. ret (Some summary)))))))"

end
