(* ===== verification/Imdb.thy ===== *)
theory Imdb
  imports Clean_Job
begin

text \<open>
  The IMDb download: app/ingestion/adapters/imdb.py, storage/imdb_store.py,
  repository/imdb_snapshot_repository.py, jobs/imdb/download_file_job.py and
  run_scripts/imdb_download.py.  The three dataset files are downloaded to a temporary directory,
  checked, uploaded and recorded in one row of `imdb_snapshot`.  The host, the object store and the
  integrity check of `gzip` are parameters; the bytes of a file are a string.  Logging is left out.
\<close>

section \<open>Data\<close>

datatype imdb_file = BASICS | EPISODE | RATINGS

fun imdb_value :: "imdb_file \<Rightarrow> string" where
  "imdb_value BASICS = ''title.basics''"
| "imdb_value EPISODE = ''title.episode''"
| "imdb_value RATINGS = ''title.ratings''"

definition filename :: "imdb_file \<Rightarrow> string" where
  "filename f = imdb_value f @ ''.tsv.gz''"

definition imdb_files :: "imdb_file list" where
  "imdb_files = [BASICS, EPISODE, RATINGS]"

datatype snapshot_status = SNAPSHOT_RUNNING | ARCHIVED | SKIPPED | SNAPSHOT_FAILED

fun snapshot_status_value :: "snapshot_status \<Rightarrow> string" where
  "snapshot_status_value SNAPSHOT_RUNNING = ''running''"
| "snapshot_status_value ARCHIVED = ''archived''"
| "snapshot_status_value SKIPPED = ''skipped''"
| "snapshot_status_value SNAPSHOT_FAILED = ''failed''"

text \<open>The columns `<file>_etag` and `<file>_size_bytes` are functions of the file.\<close>

record imdb_snapshot =
  sn_id :: nat
  sn_finished_at :: "datetime option"
  sn_etag :: "imdb_file \<Rightarrow> string option"
  sn_size_bytes :: "imdb_file \<Rightarrow> int option"
  sn_status :: snapshot_status

record file_info =
  fi_etag :: string
  fi_size_bytes :: "int option"

record downloaded_file =
  dl_file :: imdb_file
  dl_path :: string
  dl_etag :: string
  dl_size_bytes :: int
  dl_seconds :: rat

section \<open>The surroundings\<close>

datatype stream_end = StreamDone | StreamBroken string | StreamRaised py_exn | StreamCancelled

datatype imdb_outcome =
    ImdbTransport string
  | ImdbRaised py_exn
  | ImdbCancelled
  | ImdbResponse int "string option" "string option" "string list" stream_end
    \<comment> \<open>status, the headers etag and content-length, the raw chunks and how they end\<close>

record 's imdb_env =
  im_mclock :: "nat \<Rightarrow> rat"
  im_utc :: "nat \<Rightarrow> datetime"
  im_db_fault :: "nat \<Rightarrow> db_failure option"
  im_disk_fault :: "nat \<Rightarrow> bool"      \<comment> \<open>an OSError of the temporary directory\<close>
  im_cancelled :: "nat \<Rightarrow> bool"       \<comment> \<open>the wait for the worker thread is interrupted\<close>
  im_request :: "nat \<Rightarrow> string \<Rightarrow> string \<Rightarrow> imdb_outcome"  \<comment> \<open>method and path\<close>
  im_gzip :: "string \<Rightarrow> string option"  \<comment> \<open>None for an intact file, or the error's class name\<close>
  im_upload :: "string \<Rightarrow> string \<Rightarrow> 's \<Rightarrow> (s3_fault + unit) \<times> 's"
  im_bucket :: "string option"
  max_file_bytes :: int

record 's imdb_world =
  im_sess :: "imdb_snapshot list session"
  im_seq :: nat
  im_disk :: "(string, string) dict"  \<comment> \<open>the temporary directory\<close>
  im_s3 :: 's
  im_steps :: nat

type_synonym ('s, 'a) imio = "('s imdb_world, ingest_exn, 'a) prog"

definition imdb_tick :: "('s, nat) imio" where
  "imdb_tick = (\<lambda>w. (Inr (im_steps w), w\<lparr>im_steps := Suc (im_steps w)\<rparr>))"

definition imdb_exec :: "'s imdb_env \<Rightarrow> (imdb_snapshot list, 'a) stmt \<Rightarrow> ('s, 'a) imio" where
  "imdb_exec e stmt = bnd imdb_tick (\<lambda>n w.
     case sess_exec (im_utc e n) (map_option db_exn (im_db_fault e n)) stmt (im_sess w) of
       (r, se) \<Rightarrow> (r, w\<lparr>im_sess := se\<rparr>))"

definition imdb_commit :: "'s imdb_env \<Rightarrow> ('s, unit) imio" where
  "imdb_commit e = bnd imdb_tick (\<lambda>n w.
     case sess_commit (map_option db_exn (im_db_fault e n)) (im_sess w) of (r, se) \<Rightarrow> (r, w\<lparr>im_sess := se\<rparr>))"

definition imdb_rollback :: "('s, unit) imio" where
  "imdb_rollback = update (\<lambda>w. w\<lparr>im_sess := sess_rollback (im_sess w)\<rparr>)"

definition disk_do :: "'s imdb_env \<Rightarrow> ((string, string) dict \<Rightarrow> (string, string) dict) \<Rightarrow> ('s, unit) imio" where
  "disk_do e f = bnd imdb_tick (\<lambda>n. if im_disk_fault e n then raise (OtherError (LibraryError ''OSError''))
     else update (\<lambda>w. w\<lparr>im_disk := f (im_disk w)\<rparr>))"

section \<open>ImdbAdapter\<close>

definition imdb_host :: string where "imdb_host = ''datasets.imdbws.com''"
definition default_max_file_bytes :: int where "default_max_file_bytes = 1024 ^ 3"

definition imdb_error :: "imdb_file \<Rightarrow> string \<Rightarrow> string" where
  "imdb_error f why = filename f @ '': '' @ why"

definition new_imdb_adapter :: "string \<Rightarrow> string \<Rightarrow> string \<Rightarrow> ingest_exn + unit" where
  "new_imdb_adapter scheme host base_url = (if scheme \<noteq> ''https'' \<or> host \<noteq> imdb_host
     then Inl (UntrustedSourceError (''only https://'' @ imdb_host @ '' is allowed, got '' @ base_url) None) else Inr ())"

definition content_length :: "string option \<Rightarrow> int option" where
  "content_length header = (case header of None \<Rightarrow> None | Some s \<Rightarrow> py_int_of_str s)"

definition check_status :: "int \<Rightarrow> imdb_file \<Rightarrow> ingest_exn + unit" where
  "check_status code f = (let what = str_int code @ '' '' @ filename f in
     if code = 200 then Inr ()
     else if 300 \<le> code \<and> code < 400 then Inl (UntrustedSourceError (''redirect refused for '' @ filename f) (Some code))
     else if code = 401 \<or> code = 403 then Inl (AccessDeniedError what (Some code))
     else if code = 404 then Inl (GoneError (''404 '' @ filename f) (Some 404))
     else if 500 \<le> code \<or> code = 429 then Inl (TransientError what (Some code))
     else Inl (PermanentError what (Some code)))"

definition etag_of :: "string option \<Rightarrow> imdb_file \<Rightarrow> ingest_exn + string" where
  "etag_of header f = (case header of None \<Rightarrow> Inl (PermanentError (filename f @ '' came without an ETag'') None)
     | Some etag \<Rightarrow> if etag = [] then Inl (PermanentError (filename f @ '' came without an ETag'') None) else Inr etag)"

definition head_file :: "'s imdb_env \<Rightarrow> imdb_file \<Rightarrow> ('s, file_info) imio" where
  "head_file e f = bnd imdb_tick (\<lambda>n. case im_request e n ''HEAD'' (''/'' @ filename f) of
       ImdbTransport name \<Rightarrow> raise (NetworkError (imdb_error f name) None)
     | ImdbRaised x \<Rightarrow> raise (OtherError x)
     | ImdbCancelled \<Rightarrow> raise Interrupted
     | ImdbResponse code etag len _ _ \<Rightarrow>
         bnd (lift_sum (check_status code f)) (\<lambda>_.
         bnd (lift_sum (etag_of etag f)) (\<lambda>etag.
         ret \<lparr>fi_etag = etag, fi_size_bytes = content_length len\<rparr>)))"

text \<open>The loop over `aiter_raw`; the exception that ends the stream comes after its chunks.\<close>

fun write_chunks :: "'s imdb_env \<Rightarrow> imdb_file \<Rightarrow> string list \<Rightarrow> stream_end \<Rightarrow> int \<Rightarrow> ('s, int) imio" where
  "write_chunks e f [] ending written = (case ending of
       StreamDone \<Rightarrow> ret written
     | StreamBroken name \<Rightarrow> raise (NetworkError (imdb_error f name) None)
     | StreamRaised x \<Rightarrow> raise (OtherError x)
     | StreamCancelled \<Rightarrow> raise Interrupted)"
| "write_chunks e f (chunk # rest) ending written = (let written = written + int (length chunk) in
     if max_file_bytes e < written
     then raise (DownloadTooLargeError (filename f @ '' passed the cap of '' @ str_int (max_file_bytes e) @ '' bytes''))
     else bnd (disk_do e (\<lambda>d. AList.update (filename f) (the (map_of d (filename f)) @ chunk) d)) (\<lambda>_.
       write_chunks e f rest ending written))"

definition stream_to_disk :: "'s imdb_env \<Rightarrow> imdb_file \<Rightarrow> ('s, string \<times> int) imio" where
  "stream_to_disk e f = bnd imdb_tick (\<lambda>n. case im_request e n ''GET'' (''/'' @ filename f) of
       ImdbTransport name \<Rightarrow> raise (NetworkError (imdb_error f name) None)
     | ImdbRaised x \<Rightarrow> raise (OtherError x)
     | ImdbCancelled \<Rightarrow> raise Interrupted
     | ImdbResponse code etag len parts ending \<Rightarrow>
         bnd (lift_sum (check_status code f)) (\<lambda>_.
         bnd (lift_sum (etag_of etag f)) (\<lambda>etag.
         let expected = content_length len in
         if (case expected of None \<Rightarrow> False | Some m \<Rightarrow> max_file_bytes e < m)
         then raise (DownloadTooLargeError (filename f @ '' is '' @ str_int (the expected) @ '' bytes, the cap is '' @ str_int (max_file_bytes e)))
         else bnd (disk_do e (AList.update (filename f) [])) (\<lambda>_.
              bnd (write_chunks e f parts ending 0) (\<lambda>written.
              if expected \<noteq> None \<and> expected \<noteq> Some written
              then raise (CorruptDownloadError (filename f @ '' is truncated: got '' @ str_int written @ '' of '' @ str_int (the expected) @ '' bytes''))
              else ret (etag, written))))))"

text \<open>`asyncio.to_thread(_verify_gzip, path)`: an OSError of the reading is a corrupt download too.\<close>

definition verify_gzip :: "'s imdb_env \<Rightarrow> imdb_file \<Rightarrow> ('s, unit) imio" where
  "verify_gzip e f = bnd imdb_tick (\<lambda>n. bnd (look im_disk) (\<lambda>d.
     let failed = (\<lambda>name. raise (CorruptDownloadError (filename f @ '' failed the gzip check: '' @ name))) in
     if im_cancelled e n then raise Interrupted
     else if im_disk_fault e n then failed ''OSError''
     else case im_gzip e (the (map_of d (filename f))) of None \<Rightarrow> ret () | Some name \<Rightarrow> failed name))"

definition imdb_monotonic :: "'s imdb_env \<Rightarrow> ('s, rat) imio" where
  "imdb_monotonic e = bnd imdb_tick (\<lambda>n. ret (im_mclock e n))"

definition download :: "'s imdb_env \<Rightarrow> imdb_file \<Rightarrow> ('s, downloaded_file) imio" where
  "download e f =
     bnd (imdb_monotonic e) (\<lambda>started.
     bnd (handle (bnd (stream_to_disk e f) (\<lambda>r. bnd (verify_gzip e f) (\<lambda>_. ret r)))
            (\<lambda>x. bnd (update (\<lambda>w. w\<lparr>im_disk := AList.delete (filename f) (im_disk w)\<rparr>)) (\<lambda>_. raise x))) (\<lambda>(etag, written).
     bnd (imdb_monotonic e) (\<lambda>now.
     ret \<lparr>dl_file = f, dl_path = filename f, dl_etag = etag, dl_size_bytes = written, dl_seconds = now - started\<rparr>)))"

section \<open>ImdbStore\<close>

definition imdb_prefix :: string where "imdb_prefix = ''imdb''"

definition new_imdb_store :: "'s imdb_env \<Rightarrow> py_exn + string" where
  "new_imdb_store e = (case im_bucket e of None \<Rightarrow> Inl ValueError
     | Some bucket \<Rightarrow> if bucket = [] then Inl ValueError else Inr bucket)"

text \<open>`strftime('%Y-%m-%dT%H%M%SZ')`; the time is aware.\<close>

definition stamp_text :: "datetime \<Rightarrow> string" where
  "stamp_text t = (case civil t of (year, month, day) \<Rightarrow> let us = t mod 86400000000 in
     str_int year @ ''-'' @ padded 2 month @ ''-'' @ padded 2 day @ ''T'' @ padded 2 (us div 3600000000)
     @ padded 2 (us div 60000000 mod 60) @ padded 2 (us div 1000000 mod 60) @ ''Z'')"

definition imdb_key :: "datetime \<Rightarrow> imdb_file \<Rightarrow> string" where
  "imdb_key finished_at f = imdb_prefix @ ''/'' @ stamp_text finished_at @ ''/'' @ filename f"

definition imdb_put :: "'s imdb_env \<Rightarrow> datetime \<Rightarrow> imdb_file \<Rightarrow> string \<Rightarrow> ('s, string) imio" where
  "imdb_put e finished_at f path = (\<lambda>w. let key = imdb_key finished_at f in
     case im_upload e key (the (map_of (im_disk w) path)) (im_s3 w) of (r, objects) \<Rightarrow>
       ((case r of Inl (S3Refused name) \<Rightarrow> Inl (RawStoreError (''put '' @ key @ '' failed: '' @ name))
         | Inl S3Cancelled \<Rightarrow> Inl Interrupted
         | Inr _ \<Rightarrow> Inr key), w\<lparr>im_s3 := objects\<rparr>))"

section \<open>ImdbSnapshotRepository\<close>

definition new_snapshot :: "nat \<Rightarrow> imdb_snapshot" where
  "new_snapshot i = \<lparr>sn_id = i, sn_finished_at = None, sn_etag = (\<lambda>_. None), sn_size_bytes = (\<lambda>_. None),
     sn_status = SNAPSHOT_RUNNING\<rparr>"

definition start_snapshot :: "'s imdb_env \<Rightarrow> ('s, nat) imio" where
  "start_snapshot e =
     bnd (look im_seq) (\<lambda>i.
     bnd (update (\<lambda>w. w\<lparr>im_seq := Suc i\<rparr>)) (\<lambda>_.
     bnd (imdb_exec e (\<lambda>_ rows. Inr ((), rows @ [new_snapshot i]))) (\<lambda>_. ret i)))"

fun newest_snapshot :: "imdb_snapshot list \<Rightarrow> imdb_snapshot option" where
  "newest_snapshot [] = None"
| "newest_snapshot (r # rs) = (case newest_snapshot rs of None \<Rightarrow> Some r
     | Some q \<Rightarrow> if sn_id q < sn_id r then Some r else Some q)"

definition latest_archived :: "'s imdb_env \<Rightarrow> ('s, imdb_snapshot option) imio" where
  "latest_archived e = imdb_exec e (query (\<lambda>rows. newest_snapshot (filter (\<lambda>r. sn_status r = ARCHIVED) rows)))"

definition update_snapshot :: "'s imdb_env \<Rightarrow> nat \<Rightarrow> (imdb_snapshot \<Rightarrow> imdb_snapshot) \<Rightarrow> ('s, unit) imio" where
  "update_snapshot e i f = imdb_exec e (\<lambda>_ rows. Inr ((), map (\<lambda>r. if sn_id r = i then f r else r) rows))"

definition archived_as :: "datetime \<Rightarrow> downloaded_file list \<Rightarrow> imdb_snapshot \<Rightarrow> imdb_snapshot" where
  "archived_as finished_at files r = foldl (\<lambda>r d.
       r\<lparr>sn_etag := (sn_etag r)(dl_file d := Some (dl_etag d)),
         sn_size_bytes := (sn_size_bytes r)(dl_file d := Some (dl_size_bytes d))\<rparr>)
     (r\<lparr>sn_status := ARCHIVED, sn_finished_at := Some finished_at\<rparr>) files"

definition mark_archived :: "'s imdb_env \<Rightarrow> nat \<Rightarrow> datetime \<Rightarrow> downloaded_file list \<Rightarrow> ('s, unit) imio" where
  "mark_archived e i finished_at files = update_snapshot e i (archived_as finished_at files)"

definition imdb_now :: "'s imdb_env \<Rightarrow> ('s, datetime) imio" where
  "imdb_now e = bnd imdb_tick (\<lambda>n. ret (im_utc e n))"

definition mark_skipped :: "'s imdb_env \<Rightarrow> nat \<Rightarrow> ('s, unit) imio" where
  "mark_skipped e i = bnd (imdb_now e) (\<lambda>now.
     update_snapshot e i (\<lambda>r. r\<lparr>sn_status := SKIPPED, sn_finished_at := Some now\<rparr>))"

definition mark_snapshot_failed :: "'s imdb_env \<Rightarrow> nat \<Rightarrow> ('s, unit) imio" where
  "mark_snapshot_failed e i = bnd (imdb_now e) (\<lambda>now.
     update_snapshot e i (\<lambda>r. r\<lparr>sn_status := SNAPSHOT_FAILED, sn_finished_at := Some now\<rparr>))"

section \<open>ImdbDownloadJob\<close>

definition unchanged :: "imdb_snapshot \<Rightarrow> (imdb_file \<times> file_info) list \<Rightarrow> bool" where
  "unchanged latest infos = list_all (\<lambda>(f, info). sn_etag latest f = Some (fi_etag info)) infos"

definition round_cents :: "rat \<Rightarrow> json" where
  "round_cents q = JFloat (FNum (of_int (py_round (q * 100)) / 100))"

definition upload_one :: "'s imdb_env \<Rightarrow> datetime \<Rightarrow> downloaded_file \<Rightarrow> ('s, rat) imio" where
  "upload_one e finished_at d =
     bnd (imdb_monotonic e) (\<lambda>uploading.
     bnd (imdb_put e finished_at (dl_file d) (dl_path d)) (\<lambda>_.
     bnd (imdb_monotonic e) (\<lambda>now. ret (now - uploading))))"

text \<open>`TemporaryDirectory`: it is there for the block and removed however the block ends.\<close>

definition in_temp_dir :: "'s imdb_env \<Rightarrow> ('s, 'a) imio \<Rightarrow> ('s, 'a) imio" where
  "in_temp_dir e m = bnd (disk_do e (\<lambda>_. [])) (\<lambda>_ w. case m w of (r, v) \<Rightarrow> (r, v\<lparr>im_disk := []\<rparr>))"

definition archive_files :: "'s imdb_env \<Rightarrow> datetime \<Rightarrow> ('s, downloaded_file list \<times> rat list) imio" where
  "archive_files e finished_at = in_temp_dir e
     (bnd (map_prog (download e) imdb_files) (\<lambda>downloaded.
      bnd (map_prog (upload_one e finished_at) downloaded) (\<lambda>seconds. ret (downloaded, seconds))))"

definition archived_summary :: "downloaded_file list \<Rightarrow> rat list \<Rightarrow> (string, json) dict" where
  "archived_summary downloaded seconds =
     [(''status'', JStr (snapshot_status_value ARCHIVED)),
      (''files'', JObj (map (\<lambda>(d, s). (imdb_value (dl_file d), JObj [(''bytes'', JInt (dl_size_bytes d)),
         (''download_seconds'', round_cents (dl_seconds d)), (''upload_seconds'', round_cents s)])) (zip downloaded seconds))),
      (''total_bytes'', JInt (sum_list (map dl_size_bytes downloaded)))]"

definition skipped_summary :: "(string, json) dict" where
  "skipped_summary = [(''status'', JStr (snapshot_status_value SKIPPED)), (''files'', JObj [])]"

definition run_snapshot :: "'s imdb_env \<Rightarrow> nat \<Rightarrow> datetime \<Rightarrow> ('s, (string, json) dict) imio" where
  "run_snapshot e i finished_at =
     bnd (latest_archived e) (\<lambda>latest.
     bnd (map_prog (\<lambda>f. bnd (head_file e f) (\<lambda>info. ret (f, info))) imdb_files) (\<lambda>infos.
     if (case latest of None \<Rightarrow> False | Some row \<Rightarrow> unchanged row infos)
     then bnd (mark_skipped e i) (\<lambda>_. bnd (imdb_commit e) (\<lambda>_. ret skipped_summary))
     else bnd (archive_files e finished_at) (\<lambda>(downloaded, seconds).
          bnd (mark_archived e i finished_at downloaded) (\<lambda>_.
          bnd (imdb_commit e) (\<lambda>_. ret (archived_summary downloaded seconds))))))"

definition record_snapshot_failure :: "'s imdb_env \<Rightarrow> nat \<Rightarrow> ('s, unit) imio" where
  "record_snapshot_failure e i = handle
     (bnd imdb_rollback (\<lambda>_. bnd (mark_snapshot_failed e i) (\<lambda>_. imdb_commit e)))
     (\<lambda>x. if is_exception x then ret () else raise x)"

definition imdb_run :: "'s imdb_env \<Rightarrow> ('s, (string, json) dict) imio" where
  "imdb_run e =
     bnd (imdb_monotonic e) (\<lambda>started.
     bnd (imdb_now e) (\<lambda>now.
     let finished_at = now - now mod 1000000 in
     bnd (start_snapshot e) (\<lambda>i.
     bnd (imdb_commit e) (\<lambda>_.
     bnd (handle (run_snapshot e i finished_at) (\<lambda>x. bnd (record_snapshot_failure e i) (\<lambda>_. raise x))) (\<lambda>summary.
     bnd (imdb_monotonic e) (\<lambda>now.
     ret (summary @ [(''seconds'', round_cents (now - started))])))))))"

section \<open>The script\<close>

definition exit_skipped :: int where "exit_skipped = 99"

definition imdb_exit_of :: "ingest_exn \<Rightarrow> int" where
  "imdb_exit_of x =
     (if is_transient x then 3
      else if is_access_denied x \<or> is_gone x \<or> is_permanent x then 4
      else if is_sqlalchemy x then 5
      else if is_raw_store x then 6
      else 1)"

definition imdb_session :: "('s, 'a) imio \<Rightarrow> ('s, 'a) imio" where
  "imdb_session m = (\<lambda>w. case m (w\<lparr>im_sess := sess_rollback (im_sess w)\<rparr>) of
     (r, v) \<Rightarrow> (r, v\<lparr>im_sess := sess_rollback (im_sess v)\<rparr>))"

definition imdb_main :: "'s imdb_env \<Rightarrow> ('s, int) imio" where
  "imdb_main e = (case new_imdb_store e of Inl _ \<Rightarrow> ret 2
     | Inr _ \<Rightarrow> handle
         (bnd (imdb_session (imdb_run e)) (\<lambda>summary.
          ret (if map_of summary ''status'' = Some (JStr (snapshot_status_value SKIPPED)) then exit_skipped else 0)))
         (\<lambda>x. if is_exception x then ret (imdb_exit_of x) else raise x))"

definition imdb_script :: "bool \<Rightarrow> 's imdb_env \<Rightarrow> 's imdb_world \<Rightarrow> int \<times> 's imdb_world" where
  "imdb_script by_sigterm e w = (case imdb_main e w of
     (Inr code, v) \<Rightarrow> (code, v) | (Inl _, v) \<Rightarrow> (if by_sigterm then 143 else 130, v))"

end
