(* ===== verification/Imdb_Correct.thy ===== *)
theory Imdb_Correct
  imports Imdb
begin

text \<open>
  What an archived snapshot means: its three objects are in the store, intact and within the size cap,
  under the keys that its row names.
\<close>

section \<open>Effects\<close>

lemma wp_imdb_tick [wp_simps]: "wp imdb_tick Q E w = Q (im_steps w) (w\<lparr>im_steps := Suc (im_steps w)\<rparr>)"
  by (simp add: wp_def imdb_tick_def)

lemma wp_imdb_monotonic [wp_simps]:
  "wp (imdb_monotonic e) Q E w = Q (im_mclock e (im_steps w)) (w\<lparr>im_steps := Suc (im_steps w)\<rparr>)"
  by (simp add: imdb_monotonic_def wp_simps)

lemma wp_imdb_now [wp_simps]:
  "wp (imdb_now e) Q E w = Q (im_utc e (im_steps w)) (w\<lparr>im_steps := Suc (im_steps w)\<rparr>)"
  by (simp add: imdb_now_def wp_simps)

lemma wp_disk_do:
  assumes "\<And>n. Q () (w\<lparr>im_steps := n, im_disk := f (im_disk w)\<rparr>)" and "\<And>x n. E x (w\<lparr>im_steps := n\<rparr>)"
  shows "wp (disk_do e f) Q E w"
  using assms by (simp add: disk_do_def wp_simps)

lemma wp_imdb_exec:
  assumes "\<And>now a d n se. stmt now (cur (im_sess w)) = Inr (a, d) \<Longrightarrow> cur se = d \<Longrightarrow> saved se = saved (im_sess w)
      \<Longrightarrow> Q a (w\<lparr>im_steps := n, im_sess := se\<rparr>)"
    and "\<And>x n se. cur se = cur (im_sess w) \<Longrightarrow> saved se = saved (im_sess w) \<Longrightarrow> E x (w\<lparr>im_steps := n, im_sess := se\<rparr>)"
  shows "wp (imdb_exec e stmt) Q E w"
  unfolding imdb_exec_def wp_bnd wp_imdb_tick
  by (rule wpI) (auto split: prod.splits dest!: sess_exec_Inr sess_exec_Inl intro: assms)

lemma wp_imdb_commit:
  assumes "\<And>n se. cur se = cur (im_sess w) \<Longrightarrow> saved se = cur (im_sess w) \<Longrightarrow> Q () (w\<lparr>im_steps := n, im_sess := se\<rparr>)"
    and "\<And>x n se. cur se = cur (im_sess w) \<Longrightarrow> saved se = saved (im_sess w) \<Longrightarrow> E x (w\<lparr>im_steps := n, im_sess := se\<rparr>)"
  shows "wp (imdb_commit e) Q E w"
proof -
  have same: "E x (w\<lparr>im_steps := n\<rparr>)" for x n
    using assms(2) [of "im_sess w" x n] by (cases w) simp
  show ?thesis
    unfolding imdb_commit_def wp_bnd wp_imdb_tick
    by (rule wpI) (auto simp: sess_commit_def split: prod.splits option.splits if_splits intro: assms same)
qed

section \<open>A download\<close>

definition imdb_rest :: "'s imdb_world \<Rightarrow> imdb_snapshot list session \<times> nat \<times> 's" where
  "imdb_rest w = (im_sess w, im_seq w, im_s3 w)"

lemma imdb_rest_simps [simp]:
  "imdb_rest (w\<lparr>im_steps := n\<rparr>) = imdb_rest w" "imdb_rest (w\<lparr>im_disk := d\<rparr>) = imdb_rest w"
  by (simp_all add: imdb_rest_def)

lemma filename_inj [simp]: "filename f = filename g \<longleftrightarrow> f = g"
  by (cases f; cases g) (simp_all add: filename_def)

text \<open>The file is on the disk with `n` bytes, all other files as before.\<close>

definition written_to :: "imdb_file \<Rightarrow> int \<Rightarrow> 's imdb_world \<Rightarrow> 's imdb_world \<Rightarrow> bool" where
  "written_to f n w v \<longleftrightarrow> imdb_rest v = imdb_rest w
     \<and> (\<forall>k. k \<noteq> filename f \<longrightarrow> map_of (im_disk v) k = map_of (im_disk w) k)
     \<and> (\<exists>body. map_of (im_disk v) (filename f) = Some body \<and> int (length body) = n)"

lemma wp_write_chunks:
  assumes "written_to f n w0 w" and "n \<le> max_file_bytes e"
  shows "wp (write_chunks e f parts ending n) (\<lambda>m v. written_to f m w0 v \<and> m \<le> max_file_bytes e)
     (\<lambda>_ v. imdb_rest v = imdb_rest w0) w"
  using assms
proof (induction parts arbitrary: n w)
  case Nil
  then show ?case by (auto simp: wp_simps written_to_def split: stream_end.split)
next
  case (Cons chunk parts)
  show ?case
  proof (cases "max_file_bytes e < n + int (length chunk)")
    case True
    then show ?thesis using Cons.prems by (simp add: Let_def wp_simps written_to_def)
  next
    case False
    show ?thesis
      unfolding write_chunks.simps Let_def if_not_P [OF False] wp_bnd
    proof (rule wp_disk_do, rule Cons.IH, goal_cases)
      case (1 s)
      then show ?case using Cons.prems(1) by (auto simp: written_to_def imdb_rest_def update_conv)
    qed (use False Cons.prems in \<open>simp_all add: written_to_def\<close>)
  qed
qed

lemma wp_stream_to_disk:
  assumes "0 \<le> max_file_bytes e"
  shows "wp (stream_to_disk e f) (\<lambda>(etag, n) v. etag \<noteq> [] \<and> written_to f n w v \<and> n \<le> max_file_bytes e)
     (\<lambda>_ v. imdb_rest v = imdb_rest w) w"
proof -
  have body: "wp (bnd (disk_do e (AList.update (filename f) [])) (\<lambda>_.
              bnd (write_chunks e f parts ending 0) (\<lambda>written.
              if expected \<noteq> None \<and> expected \<noteq> Some written then raise (x written) else ret (etag, written))))
     (\<lambda>(etag, n) v. etag \<noteq> [] \<and> written_to f n w v \<and> n \<le> max_file_bytes e) (\<lambda>_ v. imdb_rest v = imdb_rest w) w'"
    if "etag \<noteq> []" "w' = w\<lparr>im_steps := s\<rparr>" for parts ending expected x etag s w'
    unfolding wp_bnd
  proof (rule wp_disk_do, goal_cases)
    case (1 n)
    have "written_to f 0 w (w'\<lparr>im_steps := n, im_disk := AList.update (filename f) [] (im_disk w')\<rparr>)"
      using that by (simp add: written_to_def imdb_rest_def update_conv)
    from wp_write_chunks [OF this assms] show ?case
      by (rule wp_mono) (use that in \<open>auto simp: wp_simps written_to_def\<close>)
  qed (use that in simp)
  show ?thesis
  proof (cases "im_request e (im_steps w) ''GET'' (''/'' @ filename f)")
    case (ImdbResponse code header len parts ending)
    show ?thesis
    proof (cases "check_status code f")
      case status: (Inr u)
      show ?thesis
      proof (cases "etag_of header f")
        case (Inr etag)
        then have etag: "etag \<noteq> []" by (auto simp: etag_of_def split: option.splits if_splits)
        note body [OF etag refl, of parts ending "content_length len"]
        then show ?thesis
          unfolding stream_to_disk_def wp_bnd [of imdb_tick] wp_imdb_tick ImdbResponse imdb_outcome.case wp_bnd [of "lift_sum s" for s]
            wp_lift_sum status Inr sum.case Let_def
          by (simp only: wp_if) (simp add: wp_raise)
      qed (simp add: stream_to_disk_def wp_simps ImdbResponse [simplified] status)
    qed (simp add: stream_to_disk_def wp_simps ImdbResponse [simplified])
  qed (simp_all add: stream_to_disk_def wp_simps)
qed

text \<open>A downloaded file: intact and within the cap, on the disk as it was received.\<close>

definition on_disk :: "'s imdb_env \<Rightarrow> 's imdb_world \<Rightarrow> downloaded_file \<Rightarrow> bool" where
  "on_disk e w d \<longleftrightarrow> dl_path d = filename (dl_file d) \<and> dl_etag d \<noteq> [] \<and> dl_size_bytes d \<le> max_file_bytes e
     \<and> (\<exists>body. map_of (im_disk w) (dl_path d) = Some body \<and> im_gzip e body = None \<and> int (length body) = dl_size_bytes d)"

lemma written_to_steps [simp]: "written_to f n w (v\<lparr>im_steps := s\<rparr>) = written_to f n w v"
  "written_to f n (w\<lparr>im_steps := s\<rparr>) v = written_to f n w v"
  by (simp_all add: written_to_def)

lemma on_disk_steps [simp]: "on_disk e (w\<lparr>im_steps := n\<rparr>) d = on_disk e w d"
  by (simp add: on_disk_def)

lemma wp_download:
  assumes "0 \<le> max_file_bytes e"
  shows "wp (download e f) (\<lambda>d v. dl_file d = f \<and> on_disk e v d \<and> written_to f (dl_size_bytes d) w v)
     (\<lambda>_ v. imdb_rest v = imdb_rest w) w"
proof -
  let ?w = "w\<lparr>im_steps := Suc (im_steps w)\<rparr>"
  have "wp (stream_to_disk e f) (\<lambda>r. wp (bnd (verify_gzip e f) (\<lambda>_. ret r))
      (\<lambda>(etag, n) v. etag \<noteq> [] \<and> written_to f n w v \<and> n \<le> max_file_bytes e
         \<and> im_gzip e (the (map_of (im_disk v) (filename f))) = None)
      (\<lambda>_ v. imdb_rest v = imdb_rest w)) (\<lambda>_ v. imdb_rest v = imdb_rest w) ?w"
    by (rule wp_mono [OF wp_stream_to_disk [OF assms]])
      (auto simp: verify_gzip_def wp_simps Let_def written_to_def split: option.split)
  then have "wp (handle (bnd (stream_to_disk e f) (\<lambda>r. bnd (verify_gzip e f) (\<lambda>_. ret r)))
            (\<lambda>x. bnd (update (\<lambda>w. w\<lparr>im_disk := AList.delete (filename f) (im_disk w)\<rparr>)) (\<lambda>_. raise x)))
      (\<lambda>(etag, n) v. etag \<noteq> [] \<and> written_to f n w v \<and> n \<le> max_file_bytes e
         \<and> im_gzip e (the (map_of (im_disk v) (filename f))) = None)
      (\<lambda>_ v. imdb_rest v = imdb_rest w) ?w"
    unfolding wp_handle wp_bnd [of "stream_to_disk e f"]
    by (rule wp_mono) (erule wp_mono, simp_all add: wp_simps)
  then show ?thesis
    unfolding download_def wp_bnd [of "imdb_monotonic e"] wp_imdb_monotonic wp_bnd [of "handle m h" for m h]
    by (rule wp_mono) (auto simp: wp_simps on_disk_def written_to_def)
qed

lemma wp_downloads:
  assumes "0 \<le> max_file_bytes e" and "distinct fs"
  shows "wp (map_prog (download e) fs) (\<lambda>ds v. map dl_file ds = fs \<and> (\<forall>d\<in>set ds. on_disk e v d) \<and> imdb_rest v = imdb_rest w
       \<and> (\<forall>k. k \<notin> filename ` set fs \<longrightarrow> map_of (im_disk v) k = map_of (im_disk w) k))
     (\<lambda>_ v. imdb_rest v = imdb_rest w) w"
  using assms(2)
proof (induction fs arbitrary: w)
  case (Cons f fs)
  show ?case
    unfolding map_prog.simps wp_bnd
  proof (rule wp_mono [OF wp_download [OF assms(1)]], goal_cases)
    case (1 d v)
    have fs: "distinct fs" "f \<notin> set fs" using Cons.prems by simp_all
    show ?case
    proof (rule wp_mono [OF Cons.IH [OF fs(1)]], goal_cases)
      case (1 ds u)
      have "filename f \<notin> filename ` set fs" using fs(2) by auto
      with 1 have "map_of (im_disk u) (filename f) = map_of (im_disk v) (filename f)" by blast
      then have "on_disk e u d"
        using \<open>dl_file d = f \<and> on_disk e v d \<and> written_to f (dl_size_bytes d) w v\<close> by (auto simp: on_disk_def)
      with 1 \<open>dl_file d = f \<and> on_disk e v d \<and> written_to f (dl_size_bytes d) w v\<close> show ?case
        by (auto simp: wp_simps written_to_def)
    qed (use 1 in \<open>simp add: written_to_def\<close>)
  qed simp
qed (simp add: wp_simps)

section \<open>The upload\<close>

text \<open>
  What S3 promises: a put that succeeds stores the body under its key, and a put touches no other key.
\<close>

definition upload_laws :: "'s imdb_env \<Rightarrow> (string \<Rightarrow> string \<Rightarrow> 's \<Rightarrow> bool) \<Rightarrow> bool" where
  "upload_laws e stored \<longleftrightarrow> (\<forall>k b s r s'. im_upload e k b s = (r, s') \<longrightarrow> (r = Inr () \<longrightarrow> stored k b s')
     \<and> (\<forall>j c. j \<noteq> k \<and> stored j c s \<longrightarrow> stored j c s'))"

definition in_store :: "'s imdb_env \<Rightarrow> (string \<Rightarrow> string \<Rightarrow> 's \<Rightarrow> bool) \<Rightarrow> datetime \<Rightarrow> 's \<Rightarrow> downloaded_file \<Rightarrow> bool" where
  "in_store e stored t objects d \<longleftrightarrow> dl_etag d \<noteq> [] \<and> dl_size_bytes d \<le> max_file_bytes e
     \<and> (\<exists>body. stored (imdb_key t (dl_file d)) body objects \<and> im_gzip e body = None \<and> int (length body) = dl_size_bytes d)"

lemma imdb_key_inj [simp]: "imdb_key t f = imdb_key t g \<longleftrightarrow> f = g"
  by (simp add: imdb_key_def)

lemma wp_imdb_put:
  assumes "im_upload e (imdb_key t f) (the (map_of (im_disk w) p)) (im_s3 w) = (r, objects)"
  shows "wp (imdb_put e t f p) Q E w = (case r of
       Inl (S3Refused name) \<Rightarrow> E (RawStoreError (''put '' @ imdb_key t f @ '' failed: '' @ name)) (w\<lparr>im_s3 := objects\<rparr>)
     | Inl S3Cancelled \<Rightarrow> E Interrupted (w\<lparr>im_s3 := objects\<rparr>)
     | Inr _ \<Rightarrow> Q (imdb_key t f) (w\<lparr>im_s3 := objects\<rparr>))"
  using assms by (simp add: wp_def imdb_put_def Let_def split: sum.split s3_fault.split)

lemma wp_upload_one:
  assumes "upload_laws e stored" and "on_disk e w d"
  shows "wp (upload_one e t d) (\<lambda>_ v. in_store e stored t (im_s3 v) d \<and> im_disk v = im_disk w \<and> im_sess v = im_sess w
       \<and> (\<forall>d'. dl_file d' \<noteq> dl_file d \<longrightarrow> in_store e stored t (im_s3 w) d' \<longrightarrow> in_store e stored t (im_s3 v) d'))
     (\<lambda>_ v. im_sess v = im_sess w) w"
proof -
  obtain body where body: "dl_path d = filename (dl_file d)" "map_of (im_disk w) (dl_path d) = Some body"
    "im_gzip e body = None" "int (length body) = dl_size_bytes d" "dl_etag d \<noteq> []" "dl_size_bytes d \<le> max_file_bytes e"
    using assms(2) by (auto simp: on_disk_def)
  obtain r objects where put: "im_upload e (imdb_key t (dl_file d)) body (im_s3 w) = (r, objects)" by fastforce
  then have "r = Inr () \<Longrightarrow> stored (imdb_key t (dl_file d)) body objects"
    and others: "\<And>j c. j \<noteq> imdb_key t (dl_file d) \<Longrightarrow> stored j c (im_s3 w) \<Longrightarrow> stored j c objects"
    using assms(1) by (auto simp: upload_laws_def)
  then have "r = Inr () \<Longrightarrow> in_store e stored t objects d" using body by (auto simp: in_store_def)
  moreover have "in_store e stored t objects d'" if "dl_file d' \<noteq> dl_file d" "in_store e stored t (im_s3 w) d'" for d'
    using that others [of "imdb_key t (dl_file d')"] unfolding in_store_def by (metis imdb_key_inj)
  ultimately show ?thesis
    using body(2) put
    by (auto simp: upload_one_def wp_simps wp_imdb_put [where r = r and objects = objects] split: sum.split s3_fault.split)
qed

lemma on_disk_disk: "im_disk v = im_disk w \<Longrightarrow> on_disk e v d = on_disk e w d"
  by (simp add: on_disk_def)

lemma wp_uploads:
  assumes "upload_laws e stored" and "distinct (map dl_file ds)" and "\<forall>d\<in>set ds. on_disk e w d"
  shows "wp (map_prog (upload_one e t) ds) (\<lambda>_ v. (\<forall>d\<in>set ds. in_store e stored t (im_s3 v) d) \<and> im_sess v = im_sess w
       \<and> (\<forall>d. dl_file d \<notin> dl_file ` set ds \<longrightarrow> in_store e stored t (im_s3 w) d \<longrightarrow> in_store e stored t (im_s3 v) d))
     (\<lambda>_ v. im_sess v = im_sess w) w"
  using assms(2,3)
proof (induction ds arbitrary: w)
  case (Cons d ds)
  have d: "on_disk e w d" "distinct (map dl_file ds)" "dl_file d \<notin> dl_file ` set ds" using Cons.prems by simp_all
  show ?case
    unfolding map_prog.simps wp_bnd
  proof (rule wp_mono [OF wp_upload_one [OF assms(1) d(1), of t]], goal_cases)
    case one: (1 s v)
    then have "\<forall>d\<in>set ds. on_disk e v d" using Cons.prems(2) on_disk_disk [of v w] by simp
    from Cons.IH [OF d(2) this] show ?case
      by (rule wp_mono) (use one d(3) in \<open>auto simp: wp_simps\<close>)
  qed simp
qed (simp add: wp_simps)

lemma wp_ending:
  "wp (\<lambda>w. case m w of (r, v) \<Rightarrow> (r, f v)) Q E w = wp m (\<lambda>a v. Q a (f v)) (\<lambda>x v. E x (f v)) w"
  by (simp add: wp_def split: prod.split sum.split)

lemma wp_archive_files:
  assumes "upload_laws e stored" and "0 \<le> max_file_bytes e"
  shows "wp (archive_files e t) (\<lambda>(ds, _) v. map dl_file ds = imdb_files \<and> (\<forall>d\<in>set ds. in_store e stored t (im_s3 v) d)
       \<and> im_sess v = im_sess w) (\<lambda>_ v. im_sess v = im_sess w) w"
proof -
  have body: "wp (bnd (map_prog (download e) imdb_files) (\<lambda>ds. bnd (map_prog (upload_one e t) ds) (\<lambda>s. ret (ds, s))))
     (\<lambda>(ds, _) v. map dl_file ds = imdb_files \<and> (\<forall>d\<in>set ds. in_store e stored t (im_s3 v) d) \<and> im_sess v = im_sess w)
     (\<lambda>_ v. im_sess v = im_sess w) u" if "im_sess u = im_sess w" for u
    unfolding wp_bnd
  proof (rule wp_mono [OF wp_downloads [OF assms(2)]], goal_cases)
    case (2 ds v)
    then have ds: "distinct (map dl_file ds)" "\<forall>d\<in>set ds. on_disk e v d" by (simp_all add: imdb_files_def)
    show ?case
      by (rule wp_mono [OF wp_uploads [OF assms(1) ds]]) (use 2 that in \<open>simp_all add: wp_simps imdb_rest_def\<close>)
  qed (simp_all add: imdb_files_def imdb_rest_def that)
  show ?thesis
    unfolding archive_files_def in_temp_dir_def wp_bnd [of "disk_do e f" for f] wp_ending
    by (intro wp_disk_do) (rule wp_mono [OF body], auto)
qed

section \<open>The rows\<close>

definition archived_ok :: "'s imdb_env \<Rightarrow> (string \<Rightarrow> string \<Rightarrow> 's \<Rightarrow> bool) \<Rightarrow> 's \<Rightarrow> imdb_snapshot \<Rightarrow> bool" where
  "archived_ok e stored objects r \<longleftrightarrow> (\<exists>t. sn_finished_at r = Some t \<and> (\<forall>f. \<exists>body etag.
     stored (imdb_key t f) body objects \<and> im_gzip e body = None \<and> int (length body) \<le> max_file_bytes e
     \<and> sn_size_bytes r f = Some (int (length body)) \<and> sn_etag r f = Some etag \<and> etag \<noteq> []))"

definition snapshots :: "imdb_snapshot list session \<Rightarrow> nat \<Rightarrow> imdb_snapshot set" where
  "snapshots se i = {r. (r \<in> set (cur se) \<or> r \<in> set (saved se)) \<and> sn_id r = i}"

definition sound :: "'s imdb_env \<Rightarrow> (string \<Rightarrow> string \<Rightarrow> 's \<Rightarrow> bool) \<Rightarrow> nat \<Rightarrow> 's imdb_world \<Rightarrow> bool" where
  "sound e stored i w \<longleftrightarrow> (\<forall>r\<in>snapshots (im_sess w) i. sn_status r = ARCHIVED \<longrightarrow> archived_ok e stored (im_s3 w) r)"

definition opened :: "nat \<Rightarrow> imdb_snapshot list session \<Rightarrow> bool" where
  "opened i se \<longleftrightarrow> (\<forall>r\<in>snapshots se i. sn_status r \<noteq> ARCHIVED) \<and> i \<in> sn_id ` set (cur se)"

lemma opened_sound: "opened i (im_sess w) \<Longrightarrow> sound e stored i w"
  by (simp add: opened_def sound_def)

lemma archived_as_ok:
  assumes "map dl_file ds = imdb_files" and "\<forall>d\<in>set ds. in_store e stored t objects d"
  shows "archived_ok e stored objects (archived_as t ds r)" and "sn_status (archived_as t ds r) = ARCHIVED"
    and "sn_id (archived_as t ds r) = sn_id r"
proof -
  obtain a b c where ds: "ds = [a, b, c]" "dl_file a = BASICS" "dl_file b = EPISODE" "dl_file c = RATINGS"
    using assms(1) by (auto simp: imdb_files_def map_eq_Cons_conv)
  have "\<exists>body etag. stored (imdb_key t f) body objects \<and> im_gzip e body = None \<and> int (length body) \<le> max_file_bytes e
     \<and> sn_size_bytes (archived_as t ds r) f = Some (int (length body)) \<and> sn_etag (archived_as t ds r) f = Some etag \<and> etag \<noteq> []" for f
    using assms(2) ds by (cases f) (auto simp: archived_as_def in_store_def)
  then show "archived_ok e stored objects (archived_as t ds r)"
    by (auto simp: archived_ok_def archived_as_def ds(1))
  show "sn_status (archived_as t ds r) = ARCHIVED" "sn_id (archived_as t ds r) = sn_id r"
    by (simp_all add: archived_as_def ds(1))
qed

lemma keeps_heads: "keeps (\<lambda>v. im_sess v = se) (map_prog (\<lambda>f. bnd (head_file e f) (\<lambda>info. ret (f, info))) fs)"
proof (intro keeps_map_prog keeps_bnd keeps_ret keeps_wpI)
  fix f and v :: "'a imdb_world" assume "im_sess v = se"
  then show "wp (head_file e f) (\<lambda>_ v. im_sess v = se) (\<lambda>_ v. im_sess v = se) v"
    by (auto simp: head_file_def wp_simps split: imdb_outcome.split sum.split)
qed

lemma wp_run_snapshot:
  assumes "upload_laws e stored" and "0 \<le> max_file_bytes e" and "opened i (im_sess w)"
  shows "wp (run_snapshot e i t) (\<lambda>s v. sound e stored i v \<and> (map_of s ''status'' = Some (JStr ''archived'')
       \<longrightarrow> (\<exists>r\<in>set (saved (im_sess v)). sn_id r = i \<and> sn_status r = ARCHIVED))) (\<lambda>_ v. sound e stored i v) w"
  unfolding run_snapshot_def latest_archived_def wp_bnd
proof (rule wp_imdb_exec, goal_cases)
  case (1 now latest d n se)
  then have se: "opened i se" using assms(3) by (auto simp: query_def opened_def snapshots_def)
  show ?case
  proof (rule wp_mono [OF keeps_wp [OF keeps_heads, of _ se]], goal_cases)
    case (2 infos v)
    show ?case
    proof (cases "case latest of None \<Rightarrow> False | Some row \<Rightarrow> unchanged row infos")
      case True
      show ?thesis
        unfolding if_P [OF True] wp_bnd mark_skipped_def wp_imdb_now update_snapshot_def
        by (rule wp_imdb_exec, rule wp_imdb_commit)
          (use 2 se in \<open>auto simp: wp_simps skipped_summary_def sound_def opened_def snapshots_def\<close>)
    next
      case False
      show ?thesis
        unfolding if_not_P [OF False] wp_bnd
      proof (rule wp_mono [OF wp_archive_files [OF assms(1,2)]], goal_cases)
        case (1 r u)
        obtain ds secs where r: "r = (ds, secs)" by (cases r)
        with 1 have ds: "map dl_file ds = imdb_files" "\<forall>d\<in>set ds. in_store e stored t (im_s3 u) d" "im_sess u = se"
          using 2 by simp_all
        note row = archived_as_ok [OF ds(1,2)]
        obtain r0 where r0: "r0 \<in> set (cur se)" "sn_id r0 = i" using se by (auto simp: opened_def)
        then have "\<exists>r\<in>set (map (\<lambda>r. if sn_id r = i then archived_as t ds r else r) (cur se)). sn_id r = i \<and> sn_status r = ARCHIVED"
          using row(2,3) by (intro bexI [of _ "archived_as t ds r0"]) (auto intro: rev_image_eqI)
        note there = this [folded ds(3)]
        show ?case
          unfolding r prod.case wp_bnd mark_archived_def update_snapshot_def
        proof (rule wp_imdb_exec, rule wp_imdb_commit, goal_cases)
          case (1 now a d n se1 n2 se2)
          then have "sound e stored i (u\<lparr>im_steps := n2, im_sess := se2\<rparr>)"
            using ds(3) se row by (auto simp: sound_def opened_def snapshots_def)
          with 1 there show ?case by (simp add: wp_ret)
        qed (use ds(3) se row in \<open>auto simp: sound_def opened_def snapshots_def\<close>)
      next
        case (2 x u)
        then show ?case using \<open>im_sess v = se\<close> se by (simp add: opened_sound)
      qed
    qed
  qed (use se in \<open>simp_all add: opened_sound\<close>)
next
  case (2 x n se)
  then show ?case using assms(3) by (auto simp: sound_def opened_def snapshots_def)
qed

lemma sound_rows:
  assumes "sound e stored i w" and "\<And>r. r \<in> snapshots se i \<Longrightarrow> sn_status r = ARCHIVED \<Longrightarrow> r \<in> snapshots (im_sess w) i"
    and "im_s3 v = im_s3 w" and "im_sess v = se"
  shows "sound e stored i v"
  using assms by (simp add: sound_def)

lemma wp_record_snapshot_failure:
  assumes "sound e stored i w" shows "wp (record_snapshot_failure e i) (\<lambda>_. sound e stored i) (\<lambda>_. sound e stored i) w"
proof -
  let ?f = "\<lambda>r. if sn_id r = i then r\<lparr>sn_status := SNAPSHOT_FAILED, sn_finished_at := Some (im_utc e (im_steps w))\<rparr> else r"
  have failed: "sound e stored i v"
    if "cur (im_sess v) = map ?f (saved (im_sess w))" and "saved (im_sess v) = map ?f (saved (im_sess w)) \<or> saved (im_sess v) = saved (im_sess w)"
      and "im_s3 v = im_s3 w" for v
  proof (rule sound_rows [OF assms _ that(3) refl])
    fix r assume r: "r \<in> snapshots (im_sess v) i" "sn_status r = ARCHIVED"
    then have "r \<in> set (map ?f (saved (im_sess w))) \<or> r \<in> set (saved (im_sess w))" and i: "sn_id r = i"
      using that(1,2) unfolding snapshots_def by auto
    then have "(\<exists>q\<in>set (saved (im_sess w)). r = ?f q) \<or> r \<in> set (saved (im_sess w))" by (simp only: set_map image_iff)
    then have "r \<in> set (saved (im_sess w))"
    proof (elim disjE bexE)
      fix q assume q: "q \<in> set (saved (im_sess w))" and image: "r = ?f q"
      have "r = q" using r(2) image by (cases "sn_id q = i") simp_all
      with q show "r \<in> set (saved (im_sess w))" by (simp only:)
    qed
    with i show "r \<in> snapshots (im_sess w) i" by (simp add: snapshots_def)
  qed
  have "wp (bnd imdb_rollback (\<lambda>_. bnd (mark_snapshot_failed e i) (\<lambda>_. imdb_commit e)))
     (\<lambda>_. sound e stored i) (\<lambda>_. sound e stored i) w"
    unfolding wp_bnd imdb_rollback_def wp_update mark_snapshot_failed_def wp_imdb_now update_snapshot_def
  proof (rule wp_imdb_exec, rule wp_imdb_commit, goal_cases)
    case (3 x n se)
    then have "cur se = saved (im_sess w)" "saved se = saved (im_sess w)" by simp_all
    then show ?case by (intro sound_rows [OF assms _ _ refl]) (simp_all add: snapshots_def)
  qed (rule failed; simp cong: if_cong)+
  then show ?thesis unfolding record_snapshot_failure_def wp_handle
  proof (rule wp_mono, goal_cases)
    case (2 x v)
    then show ?case by (simp add: wp_if wp_ret wp_raise)
  qed
qed

section \<open>Properties\<close>

text \<open>
  C36. However a run of the download ends, its snapshot is marked archived only if all three files are in the
  store under the keys the row names, each one intact by the gzip check, of the recorded size, within
  the cap and with an ETag; and a run that reports that it has archived has committed such a row.
\<close>

theorem archived_is_stored:
  assumes "upload_laws e stored" and "0 \<le> max_file_bytes e"
    and "\<forall>r\<in>set (cur (im_sess w)) \<union> set (saved (im_sess w)). sn_id r \<noteq> im_seq w" and "imdb_run e w = (r, v)"
  shows "(\<forall>row\<in>set (saved (im_sess v)). sn_id row = im_seq w \<and> sn_status row = ARCHIVED \<longrightarrow> archived_ok e stored (im_s3 v) row)
     \<and> (\<forall>s. r = Inr s \<and> map_of s ''status'' = Some (JStr ''archived'')
          \<longrightarrow> (\<exists>row\<in>set (saved (im_sess v)). sn_id row = im_seq w \<and> sn_status row = ARCHIVED))"
proof -
  let ?i = "im_seq w"
  let ?done = "\<lambda>s v. map_of s ''status'' = Some (JStr ''archived'')
     \<longrightarrow> (\<exists>r\<in>set (saved (im_sess v)). sn_id r = ?i \<and> sn_status r = ARCHIVED)"
  have "wp (imdb_run e) (\<lambda>s v. sound e stored ?i v \<and> ?done s v) (\<lambda>_. sound e stored ?i) w"
    unfolding imdb_run_def wp_bnd wp_imdb_monotonic wp_imdb_now Let_def start_snapshot_def wp_look wp_update wp_ret
  proof (rule wp_imdb_exec, rule wp_imdb_commit, goal_cases)
    case (1 now a d n se n2 se2)
    then have "opened ?i se2" using assms(3) by (auto simp: opened_def snapshots_def new_snapshot_def)
    then have run: "wp (run_snapshot e ?i t) (\<lambda>s v. sound e stored ?i v \<and> ?done s v) (\<lambda>_. sound e stored ?i) (u\<lparr>im_steps := n2, im_sess := se2\<rparr>)" for t u
      by (intro wp_run_snapshot [OF assms(1,2)]) simp
    show ?case
      unfolding wp_handle wp_bnd wp_raise
      by (simp, rule wp_mono [OF run])
        (auto simp: sound_def intro: wp_mono [OF wp_record_snapshot_failure])
  next
    case (2 now a d n se x n2 se2)
    then show ?case using assms(3) by (auto simp: sound_def snapshots_def new_snapshot_def)
  next
    case (3 x n se)
    then show ?case using assms(3) by (auto simp: sound_def snapshots_def)
  qed
  then show ?thesis
    by (auto simp: wp_def assms(4) sound_def snapshots_def split: sum.splits)
qed

text \<open>A host that sends the same small file for every name, and a store that is a list of its objects.\<close>

definition quiet_imdb :: "(string \<times> string) list imdb_env" where
  "quiet_imdb = \<lparr>im_mclock = (\<lambda>n. of_nat n), im_utc = (\<lambda>_. 0), im_db_fault = (\<lambda>_. None), im_disk_fault = (\<lambda>_. False),
     im_cancelled = (\<lambda>_. False), im_request = (\<lambda>_ _ _. ImdbResponse 200 (Some ''v1'') (Some ''4'') [''ab'', ''cd''] StreamDone),
     im_gzip = (\<lambda>_. None), im_upload = (\<lambda>k b objs. (Inr (), (k, b) # objs)), im_bucket = Some ''bucket'', max_file_bytes = 1024\<rparr>"

definition first_imdb :: "(string \<times> string) list imdb_world" where
  "first_imdb = \<lparr>im_sess = fresh_session [], im_seq = 1, im_disk = [], im_s3 = [], im_steps = 0\<rparr>"

lemma archived_is_stored_witness:
  "\<exists>row\<in>set (saved (im_sess (snd (imdb_run quiet_imdb first_imdb)))). sn_id row = 1 \<and> sn_status row = ARCHIVED
     \<and> archived_ok quiet_imdb (\<lambda>k b objs. map_of objs k = Some b) (im_s3 (snd (imdb_run quiet_imdb first_imdb))) row"
proof -
  have laws: "upload_laws quiet_imdb (\<lambda>k b objs. map_of objs k = Some b)"
    by (auto simp: upload_laws_def quiet_imdb_def)
  have env: "im_db_fault quiet_imdb n = None" "im_disk_fault quiet_imdb n = False" "im_cancelled quiet_imdb n = False"
    "im_request quiet_imdb n m p = ImdbResponse 200 (Some ''v1'') (Some ''4'') [''ab'', ''cd''] StreamDone"
    "im_gzip quiet_imdb b = None" "im_upload quiet_imdb k b objs = (Inr (), (k, b) # objs)" "max_file_bytes quiet_imdb = 1024" for n m p b k objs
    by (simp_all add: quiet_imdb_def)
  have len: "content_length (Some ''4'') = Some 4" by code_simp
  have get: "download quiet_imdb f w = (Inr \<lparr>dl_file = f, dl_path = filename f, dl_etag = ''v1'', dl_size_bytes = 4,
       dl_seconds = of_nat (im_steps w + 6) - of_nat (im_steps w)\<rparr>,
       w\<lparr>im_steps := im_steps w + 7, im_disk := AList.update (filename f) ''abcd'' (AList.update (filename f) ''ab''
         (AList.update (filename f) [] (im_disk w)))\<rparr>)" for f w
    by (cases w) (simp add: download_def imdb_monotonic_def stream_to_disk_def verify_gzip_def disk_do_def imdb_tick_def check_status_def
        etag_of_def len env prog_defs Let_def update_conv quiet_imdb_def [THEN arg_cong [of _ _ im_mclock]])
  have "\<exists>s v. imdb_run quiet_imdb first_imdb = (Inr s, v) \<and> map_of s ''status'' = Some (JStr ''archived'')"
    by (simp add: imdb_run_def run_snapshot_def start_snapshot_def imdb_exec_def imdb_commit_def sess_exec_def sess_commit_def
        latest_archived_def query_def head_file_def archive_files_def in_temp_dir_def disk_do_def upload_one_def imdb_put_def
        mark_archived_def update_snapshot_def imdb_files_def imdb_monotonic_def imdb_now_def imdb_tick_def check_status_def etag_of_def
        env get prog_defs Let_def update_conv' first_imdb_def fresh_session_def archived_summary_def new_snapshot_def)
  then obtain s v where run: "imdb_run quiet_imdb first_imdb = (Inr s, v)" "map_of s ''status'' = Some (JStr ''archived'')" by blast
  have start: "0 \<le> max_file_bytes quiet_imdb" "im_seq first_imdb = 1"
    "\<forall>r\<in>set (cur (im_sess first_imdb)) \<union> set (saved (im_sess first_imdb)). sn_id r \<noteq> im_seq first_imdb"
    by (simp_all add: env first_imdb_def fresh_session_def)
  from archived_is_stored [OF laws start(1,3) run(1)] run(2) show ?thesis
    unfolding run(1) snd_conv start(2) by blast
qed

end
