(* ===== verification/Discovery_Job.thy ===== *)
theory Discovery_Job
  imports Fetch_Job Catalogue
begin

text \<open>
  app/ingestion/jobs/discovery_job.py: the job pages through Tenrai's anime list and creates (or,
  for a refresh, sends back to pending) the tasks of every anime it lists, one commit per page.
  The summary of a run is read in the except clause, so it is a local variable of the run.
  What the job only logs is left out, but not the metrics a progress line computes.
\<close>

definition discovery_resources :: "resource list" where
  "discovery_resources = [DETAILS, STATISTICS, REVIEWS, EPISODES]"

definition list_types :: string where "list_types = ''tv,movie,ova,special,ona,tv_special''"
definition excluded_types :: "string list" where "excluded_types = [''Music'', ''CM'', ''PV'']"
definition progress_every_pages :: int where "progress_every_pages = 25"
definition overall_job_name :: string where "overall_job_name = ''discovery_overall''"
definition weekly_job_name :: string where "weekly_job_name = ''discovery_weekly''"
definition monthly_job_name :: string where "monthly_job_name = ''discovery_monthly''"
definition popular_anime :: int where "popular_anime = 500"
definition list_page_size :: int where "list_page_size = 100"

definition popular_pages :: int where
  "popular_pages = \<lceil>(of_int popular_anime / of_int list_page_size :: rat)\<rceil>"

definition monthly_resources :: "resource list" where
  "monthly_resources = [DETAILS, STATISTICS, REVIEWS]"

definition weekly_list_statuses :: "string list" where
  "weekly_list_statuses = [''airing'', ''upcoming'']"

definition active_catalogue_statuses :: "string list" where
  "active_catalogue_statuses = [''Currently Airing'', ''Not yet aired'']"

definition resume_max_age :: int where "resume_max_age = 24 * 3600 * 1000000"
definition tasks_per_statement :: nat where "tasks_per_statement = 5000"

section \<open>The local variables of a run\<close>

record listing =
  d_page :: int
  d_start_page :: int
  d_pages :: int
  d_seen :: int
  d_skipped :: int
  d_skipped_type :: int
  d_inserted :: int
  d_reset :: int
  d_unchanged :: int
  d_list_seconds :: rat
  d_db_seconds :: rat
  d_max_list_seconds :: rat
  d_counters :: "(string, json) dict"  \<comment> \<open>rate_limited_amount, requests, retries\<close>

definition new_listing :: "int \<Rightarrow> listing" where
  "new_listing page = \<lparr>d_page = page, d_start_page = page, d_pages = 0, d_seen = 0, d_skipped = 0,
     d_skipped_type = 0, d_inserted = 0, d_reset = 0, d_unchanged = 0, d_list_seconds = 0,
     d_db_seconds = 0, d_max_list_seconds = 0, d_counters = []\<rparr>"

section \<open>One page of the list\<close>

text \<open>Iterating a truthy value: a list's items, a dict's keys, a string's characters.\<close>

fun iterate :: "json \<Rightarrow> py_exn + json list" where
  "iterate (JList xs) = Inr xs"
| "iterate (JObj kvs) = Inr (map (JStr \<circ> fst) kvs)"
| "iterate (JStr s) = Inr (map (\<lambda>c. JStr [c]) s)"
| "iterate _ = Inl TypeError"

text \<open>`value in EXCLUDED_TYPES`, which hashes the value.\<close>

fun excluded_type :: "json \<Rightarrow> py_exn + bool" where
  "excluded_type (JStr s) = Inr (s \<in> set excluded_types)"
| "excluded_type (JList _) = Inl TypeError"
| "excluded_type (JObj _) = Inl TypeError"
| "excluded_type _ = Inr False"

fun valid_mal_id :: "json \<Rightarrow> int option" where
  "valid_mal_id (JInt i) = (if i \<le> 0 then None else Some i)"
| "valid_mal_id _ = None"

text \<open>
  The body of the loop over the anime of a page, as a program on the summary alone: the counts it
  has changed stay changed when it raises.
\<close>

type_synonym pairs = "(int \<times> resource) list"

definition list_one :: "resource list \<Rightarrow> json \<Rightarrow> pairs \<Rightarrow> (listing, py_exn, pairs) prog" where
  "list_one resources anime rows =
     bnd (update (\<lambda>l. l\<lparr>d_seen := d_seen l + 1\<rparr>)) (\<lambda>_.
     bnd (lift_sum (dget anime ''mal_id'')) (\<lambda>raw_id.
     case valid_mal_id raw_id of
       None \<Rightarrow> bnd (update (\<lambda>l. l\<lparr>d_skipped := d_skipped l + 1\<rparr>)) (\<lambda>_. ret rows)
     | Some mal_id \<Rightarrow>
         bnd (lift_sum (dget anime ''type'')) (\<lambda>ty.
         bnd (lift_sum (excluded_type ty)) (\<lambda>excluded.
         if excluded then bnd (update (\<lambda>l. l\<lparr>d_skipped_type := d_skipped_type l + 1\<rparr>)) (\<lambda>_. ret rows)
         else ret (rows @ map (Pair mal_id) resources)))))"

fun list_all_of :: "resource list \<Rightarrow> json list \<Rightarrow> pairs \<Rightarrow> (listing, py_exn, pairs) prog" where
  "list_all_of resources [] rows = ret rows"
| "list_all_of resources (anime # rest) rows =
     bnd (list_one resources anime rows) (list_all_of resources rest)"

definition page_rows :: "resource list \<Rightarrow> json \<Rightarrow> (listing, py_exn, pairs) prog" where
  "page_rows resources result =
     bnd (lift_sum (dget result ''data'')) (\<lambda>items.
     bnd (lift_sum (if truthy items then iterate items else Inr [])) (\<lambda>anime.
     bnd (list_all_of resources anime []) (\<lambda>rows. ret (uniq rows))))"

text \<open>A program on the locals alone, inside a run.\<close>

definition on_listing :: "(listing, py_exn, 'a) prog \<Rightarrow> ('s world \<times> listing, ingest_exn, 'a) prog" where
  "on_listing m = (\<lambda>(w, l). case m l of (r, l') \<Rightarrow>
     ((case r of Inl x \<Rightarrow> Inl (OtherError x) | Inr a \<Rightarrow> Inr a), (w, l')))"

section \<open>The summary\<close>

text \<open>`_metrics`, with the wall time it measures.\<close>

definition listing_metrics :: "rat \<Rightarrow> listing \<Rightarrow> py_exn + (string, json) dict" where
  "listing_metrics elapsed l =
     sbind (if d_pages l = 0 then Inr []
            else case map_of (d_counters l) ''requests'' of
                Some (JInt requests) \<Rightarrow>
                  sbind (py_div (of_int requests) elapsed) (\<lambda>per_s.
                  sbind (py_div (d_list_seconds l) (of_int (d_pages l))) (\<lambda>avg_list.
                  sbind (py_div (d_db_seconds l) (of_int (d_pages l))) (\<lambda>avg_db.
                  Inr [(''requests_per_minute'', round3 (per_s * 60)), (''avg_list_ms'', round3 (avg_list * 1000)),
                       (''avg_db_ms'', round3 (avg_db * 1000))])))
              | _ \<Rightarrow> Inl KeyError) (\<lambda>rates.
     Inr ([(''start_page'', JInt (d_start_page l)), (''pages'', JInt (d_pages l)),
           (''anime_seen'', JInt (d_seen l)), (''anime_skipped'', JInt (d_skipped l)),
           (''anime_skipped_type'', JInt (d_skipped_type l)), (''tasks_inserted'', JInt (d_inserted l)),
           (''tasks_reset'', JInt (d_reset l)), (''tasks_unchanged'', JInt (d_unchanged l)),
           (''list_seconds'', round3 (d_list_seconds l)), (''db_seconds'', round3 (d_db_seconds l)),
           (''max_list_seconds'', round3 (d_max_list_seconds l))] @ d_counters l
          @ [(''elapsed_seconds'', round3 elapsed)] @ rates))"

definition listing_metrics_since :: "'s env \<Rightarrow> rat \<Rightarrow> listing \<Rightarrow> ('s, (string, json) dict) io" where
  "listing_metrics_since e started l = bnd (monotonic e) (\<lambda>now. lift_py (listing_metrics (now - started) l))"

definition request_counters :: "counts \<Rightarrow> 's world \<Rightarrow> (string, json) dict" where
  "request_counters start w = (case start of (limited, requests, retries) \<Rightarrow>
     [(''rate_limited_amount'', JInt (rate_limited_count w - limited)),
      (''requests'', JInt (request_count w - requests)),
      (''retries'', JInt (retry_count w - retries))])"

section \<open>The paging loop\<close>

type_synonym ('s, 'a) run = "('s world \<times> listing, ingest_exn, 'a) prog"

definition store_page :: "'s env \<Rightarrow> bool \<Rightarrow> pairs \<Rightarrow> ('s, unit) run" where
  "store_page e reset_existing rows =
     (if reset_existing then
        bnd (lifted (insert_or_reset_tasks e rows)) (\<lambda>(new, again).
        locals (\<lambda>l. l\<lparr>d_inserted := d_inserted l + new, d_reset := d_reset l + again,
                      d_unchanged := d_unchanged l + (int (length rows) - new - again)\<rparr>))
      else
        bnd (lifted (insert_tasks e rows)) (\<lambda>new. locals (\<lambda>l. l\<lparr>d_inserted := d_inserted l + new\<rparr>)))"

text \<open>`has_next` after the page number `page`; a `max_pages` of 0 is no limit.\<close>

definition goes_on :: "int option \<Rightarrow> int \<Rightarrow> bool \<Rightarrow> bool" where
  "goes_on max_pages page has_next = (case max_pages of None \<Rightarrow> has_next
     | Some m \<Rightarrow> has_next \<and> \<not> (m \<noteq> 0 \<and> m \<le> page))"

definition discover_page :: "'s env \<Rightarrow> counts \<Rightarrow> rat \<Rightarrow> (string \<times> string option) list \<Rightarrow> resource list
    \<Rightarrow> bool \<Rightarrow> int option \<Rightarrow> unit \<Rightarrow> ('s, unit + unit) run" where
  "discover_page e start started params resources reset_existing max_pages _ =
     bnd (lifted (monotonic e)) (\<lambda>list_started.
     bnd (local d_page) (\<lambda>page.
     bnd (lifted (list_anime e page params)) (\<lambda>result.
     bnd (lifted (monotonic e)) (\<lambda>now.
     bnd (locals (\<lambda>l. l\<lparr>d_list_seconds := d_list_seconds l + (now - list_started),
                       d_max_list_seconds := max (d_max_list_seconds l) (now - list_started)\<rparr>)) (\<lambda>_.
     bnd (lifted (lift_py (has_next_page result))) (\<lambda>has_next.
     bnd (on_listing (page_rows resources result)) (\<lambda>rows.
     bnd (lifted (monotonic e)) (\<lambda>db_started.
     bnd (store_page e reset_existing rows) (\<lambda>_.
     bnd (lifted (commit_work e)) (\<lambda>_.
     bnd (lifted (monotonic e)) (\<lambda>now.
     bnd (lifted (look (request_counters start))) (\<lambda>counts.
     bnd (locals (\<lambda>l. l\<lparr>d_db_seconds := d_db_seconds l + (now - db_started), d_pages := d_pages l + 1,
                       d_counters := counts\<rparr>)) (\<lambda>_.
     bnd (local id) (\<lambda>l.
     bnd (if d_pages l mod progress_every_pages = 0
          then bnd (lifted (listing_metrics_since e started l)) (\<lambda>_. ret ()) else ret ()) (\<lambda>_.
     bnd (locals (\<lambda>l. l\<lparr>d_page := d_page l + 1\<rparr>)) (\<lambda>_.
     ret (if goes_on max_pages page has_next then Inl () else Inr ())))))))))))))))))"

definition discovery_failed :: "'s env \<Rightarrow> counts \<Rightarrow> rat \<Rightarrow> nat \<Rightarrow> ingest_exn \<Rightarrow> listing \<Rightarrow> ('s, 'a) io" where
  "discovery_failed e start started run_id x l =
     bnd (listing_metrics_since e started l) (\<lambda>failed.
     bnd (look (request_counters start)) (\<lambda>counts.
     bnd (record_run e run_id RUN_FAILED
       (JObj (put_all ([(''failed_page'', JInt (d_page l)), (''resume_page'', JInt (d_page l))] @ counts) failed))
       (Some (describe x))) (\<lambda>_.
     raise x)))"

definition discovery_finished :: "'s env \<Rightarrow> counts \<Rightarrow> rat \<Rightarrow> nat \<Rightarrow> listing \<Rightarrow> ('s, json) io" where
  "discovery_finished e start started run_id l =
     bnd (listing_metrics_since e started l) (\<lambda>metrics.
     bnd (look (request_counters start)) (\<lambda>counts.
     let summary = JObj (put_all ((''resume_page'', JNull) # counts) metrics) in
     bnd (record_run e run_id RUN_SUCCEEDED summary None) (\<lambda>_. ret summary)))"

text \<open>
  `_run`.  The result is None only when the fuel runs out before the list ends: Tenrai decides how
  many pages there are, unless `max_pages` does.
\<close>

definition discovery_run :: "'s env \<Rightarrow> nat \<Rightarrow> string \<Rightarrow> int \<Rightarrow> (string, string) dict \<Rightarrow> resource list
    \<Rightarrow> bool \<Rightarrow> int option \<Rightarrow> ('s, json option) io" where
  "discovery_run e fuel job_name page filters resources reset_existing max_pages =
     (let params = map (\<lambda>(k, v). (k, Some v)) (foldl (\<lambda>d (k, v). AList.update k v d) [(''type'', list_types)] filters) in
      bnd (monotonic e) (\<lambda>started.
      bnd (look adapter_counts) (\<lambda>start.
      bnd (start_run e job_name) (\<lambda>run_id.
      bnd (commit_metrics e) (\<lambda>_.
      bnd (with_locals (new_listing page)
             (loop fuel (discover_page e start started params resources reset_existing max_pages) ())) (\<lambda>(r, l).
      case r of
        Inl x \<Rightarrow> discovery_failed e start started run_id x l
      | Inr None \<Rightarrow> ret None
      | Inr (Some _) \<Rightarrow> bnd (discovery_finished e start started run_id l) (\<lambda>summary. ret (Some summary))))))))"

section \<open>Where a run starts\<close>

text \<open>
  The page a recorded summary resumes from.  Only this job writes the column, an int or null;
  any other truthy value fails where the run adds one to it.
\<close>

definition resume_of :: "json \<Rightarrow> py_exn + int" where
  "resume_of summary = sbind (dget summary ''resume_page'') (\<lambda>v.
     case py_or v (JInt 1) of JInt page \<Rightarrow> Inr page | _ \<Rightarrow> Inl TypeError)"

definition resume_page :: "'s env \<Rightarrow> string \<Rightarrow> ('s, int) io" where
  "resume_page e job_name =
     bnd (latest_run e job_name) (\<lambda>found. case found of
       None \<Rightarrow> ret 1
     | Some r \<Rightarrow> (case r_summary r of
         None \<Rightarrow> ret 1
       | Some summary \<Rightarrow>
           if \<not> (r_status r = RUN_FAILED \<and> truthy summary) then ret 1
           else bnd (utc_now e) (\<lambda>now.
             if resume_max_age < now - r_started_at r then ret 1 else lift_py (resume_of summary))))"

section \<open>The jobs\<close>

definition run_job_overall :: "'s env \<Rightarrow> nat \<Rightarrow> int \<Rightarrow> ('s, json option) io" where
  "run_job_overall e fuel page = discovery_run e fuel overall_job_name page [] discovery_resources False None"

definition run_job_refresh :: "'s env \<Rightarrow> nat \<Rightarrow> string \<Rightarrow> (string, string) dict \<Rightarrow> resource list \<Rightarrow> int
    \<Rightarrow> ('s, json option) io" where
  "run_job_refresh e fuel job_name filters resources page =
     discovery_run e fuel job_name page filters resources True None"

text \<open>`sorted(ids)` with the resources of each, in statements of 5000 rows.\<close>

fun reset_chunks :: "'s env \<Rightarrow> pairs list \<Rightarrow> int \<Rightarrow> int \<Rightarrow> ('s, int \<times> int) io" where
  "reset_chunks e [] inserted reset = ret (inserted, reset)"
| "reset_chunks e (chunk # rest) inserted reset =
     bnd (insert_or_reset_tasks e chunk) (\<lambda>(new, again). reset_chunks e rest (inserted + new) (reset + again))"

definition reset_active_from_catalogue :: "'s env \<Rightarrow> resource list \<Rightarrow> ('s, json) io" where
  "reset_active_from_catalogue e resources =
     bnd (anime_ids_with_status e active_catalogue_statuses) (\<lambda>ids.
     let rows = concat (map (\<lambda>mal_id. map (Pair mal_id) resources) (sort ids)) in
     bnd (reset_chunks e (chunks tasks_per_statement rows) 0 0) (\<lambda>(inserted, reset).
     bnd (commit_work e) (\<lambda>_.
     ret (JObj [(''anime'', JInt (int (length ids))), (''tasks_inserted'', JInt inserted),
                (''tasks_reset'', JInt reset)]))))"

text \<open>
  A named list of the weekly or monthly refresh, from where its last run stopped.  None is a run
  that is out of fuel.
\<close>

definition refresh_list :: "'s env \<Rightarrow> nat \<Rightarrow> string \<Rightarrow> string \<Rightarrow> (string, string) dict \<Rightarrow> resource list
    \<Rightarrow> int option \<Rightarrow> ('s, json option) io" where
  "refresh_list e fuel job_name key filters resources max_pages =
     (let name = job_name @ ''_'' @ key in
      bnd (resume_page e name) (\<lambda>page. discovery_run e fuel name page filters resources True max_pages))"

definition and_then :: "('s, json option) io \<Rightarrow> (json \<Rightarrow> ('s, json option) io) \<Rightarrow> ('s, json option) io" where
  "and_then m k = bnd m (\<lambda>r. case r of None \<Rightarrow> ret None | Some j \<Rightarrow> k j)"

definition run_job_weekly :: "'s env \<Rightarrow> nat \<Rightarrow> bool \<Rightarrow> string \<Rightarrow> resource list \<Rightarrow> ('s, json option) io" where
  "run_job_weekly e fuel has_catalogue job_name resources =
     (if \<not> has_catalogue then raise (OtherError ValueError) else
      and_then (refresh_list e fuel job_name ''airing'' [(''status'', ''airing'')] resources None) (\<lambda>airing.
      and_then (refresh_list e fuel job_name ''upcoming'' [(''status'', ''upcoming'')] resources None) (\<lambda>upcoming.
      bnd (reset_active_from_catalogue e resources) (\<lambda>catalogue.
      ret (Some (JObj [(''airing'', airing), (''upcoming'', upcoming), (''catalogue'', catalogue)]))))))"

text \<open>The year of a UTC time, by the proleptic Gregorian calendar, as `datetime` computes it.\<close>

definition year_of :: "datetime \<Rightarrow> int" where
  "year_of t = (let z = t div 86400000000 + 719468; era = z div 146097; doe = z mod 146097;
       yoe = (doe - doe div 1460 + doe div 36524 - doe div 146096) div 365;
       doy = doe - (365 * yoe + yoe div 4 - yoe div 100); mp = (5 * doy + 2) div 153
     in yoe + era * 400 + (if 10 \<le> mp then 1 else 0))"

definition run_job_monthly :: "'s env \<Rightarrow> nat \<Rightarrow> string \<Rightarrow> resource list \<Rightarrow> ('s, json option) io" where
  "run_job_monthly e fuel job_name resources =
     bnd (utc_now e) (\<lambda>now.
     let last_year = year_of now - 1 in
     and_then (refresh_list e fuel job_name ''recent_years'' [(''start_date'', str_int last_year)] resources None) (\<lambda>recent.
     and_then (refresh_list e fuel job_name ''popular'' [(''order_by'', ''popularity''), (''sort'', ''asc'')]
                 resources (Some popular_pages)) (\<lambda>popular.
     ret (Some (JObj [(''recent_years'', recent), (''popular'', popular)])))))"

end
