(* ===== verification/Run_Scripts.thy ===== *)
theory Run_Scripts
  imports Discovery_Job Clean_Job
begin

text \<open>
  app/ingestion/run_scripts/one_pass.py and refresh.py: the command lines that run the discovery, fetch
  and cleaning jobs one after another, where each of them starts, and the exit code.  `argparse` itself
  (the options, their types and choices) is in Dags; what the scripts check beyond it is here.  A run
  is a process of its own: a fresh limiter, breaker and pair of sessions.  Logging is left out.
\<close>

section \<open>Arguments\<close>

datatype stage = StageAll | StageDiscovery | StageFetch | StageClean

datatype tier = Weekly | Monthly

definition refresh_job :: string where "refresh_job = ''discovery_refresh''"

definition exit_ok :: int where "exit_ok = 0"
definition exit_unexpected :: int where "exit_unexpected = 1"
definition exit_bad_arguments :: int where "exit_bad_arguments = 2"
definition exit_tenrai_down :: int where "exit_tenrai_down = 3"
definition exit_needs_attention :: int where "exit_needs_attention = 4"
definition exit_database :: int where "exit_database = 5"
definition exit_storage :: int where "exit_storage = 6"
definition exit_interrupted :: int where "exit_interrupted = 130"
definition exit_terminated :: int where "exit_terminated = 143"

record pass_args =
  a_stage :: stage
  a_page :: "int option"
  a_after :: cursor
  a_fresh :: bool
  a_refresh :: bool

text \<open>`value.split(c)`\<close>

fun py_split :: "char \<Rightarrow> string \<Rightarrow> string list" where
  "py_split c [] = [[]]"
| "py_split c (x # xs) = (if x = c then [] # py_split c xs
     else case py_split c xs of [] \<Rightarrow> [[x]] | p # ps \<Rightarrow> (x # p) # ps)"

text \<open>None is the ValueError that ends in `parser.error`.\<close>

definition parse_cursor :: "string \<Rightarrow> (int \<times> resource) option" where
  "parse_cursor value = (case py_split (CHR '':'') value of
     [mal_id, res] \<Rightarrow> (case py_int_of_str mal_id of None \<Rightarrow> None
       | Some i \<Rightarrow> (case resource_of res of None \<Rightarrow> None | Some r \<Rightarrow> Some (i, r)))
   | _ \<Rightarrow> None)"

text \<open>The checks of `read_args` after the parsing; `Inl` is the exit of `parser.error`.\<close>

definition read_args :: "stage \<Rightarrow> int option \<Rightarrow> string option \<Rightarrow> bool \<Rightarrow> bool \<Rightarrow> int + pass_args" where
  "read_args stage page after fresh refresh =
     (if (case page of None \<Rightarrow> False | Some p \<Rightarrow> p < 1) then Inl exit_bad_arguments
      else if refresh \<and> stage \<noteq> StageAll \<and> stage \<noteq> StageDiscovery then Inl exit_bad_arguments
      else let args = \<lparr>a_stage = stage, a_page = page, a_after = None, a_fresh = fresh, a_refresh = refresh\<rparr> in
        case after of None \<Rightarrow> Inr args
        | Some value \<Rightarrow> if value = [] then Inr args
            else case parse_cursor value of None \<Rightarrow> Inl exit_bad_arguments
              | Some c \<Rightarrow> Inr (args\<lparr>a_after := Some c\<rparr>))"

definition discovery_job_name :: "bool \<Rightarrow> string" where
  "discovery_job_name refresh = (if refresh then refresh_job else overall_job_name)"

section \<open>Where the jobs start\<close>

text \<open>`run and run.status == FAILED and run.summary`, the summary if so.\<close>

definition failed_summary_of :: "ingestion_run option \<Rightarrow> json option" where
  "failed_summary_of run = (case run of None \<Rightarrow> None
     | Some r \<Rightarrow> (case r_summary r of None \<Rightarrow> None
       | Some summary \<Rightarrow> if r_status r = RUN_FAILED \<and> truthy summary then Some summary else None))"

text \<open>
  `saved[0], Resource(saved[1])`.  The cleaning job writes the list `[mal_id, resource]` and nothing
  else; a first item that is no int fails in the statement that uses it.
\<close>

fun saved_cursor :: "json \<Rightarrow> py_exn + int \<times> resource" where
  "saved_cursor (JList (JInt i # JStr s # _)) = (case resource_of s of None \<Rightarrow> Inl ValueError | Some r \<Rightarrow> Inr (i, r))"
| "saved_cursor (JList (_ # JStr s # _)) = (case resource_of s of None \<Rightarrow> Inl ValueError | Some r \<Rightarrow> Inl TypeError)"
| "saved_cursor (JList (_ # _ # _)) = Inl ValueError"
| "saved_cursor (JList _) = Inl (LibraryError ''IndexError'')"
| "saved_cursor (JObj _) = Inl KeyError"
| "saved_cursor (JStr s) = Inl (if length s < 2 then LibraryError ''IndexError'' else ValueError)"
| "saved_cursor _ = Inl TypeError"

definition resume_cursor :: "json \<Rightarrow> py_exn + cursor" where
  "resume_cursor summary = sbind (dget summary ''resume_after'') (\<lambda>saved.
     if truthy saved then sbind (saved_cursor saved) (\<lambda>c. Inr (Some c)) else Inr None)"

definition saved_positions :: "'s env \<Rightarrow> string \<Rightarrow> ('s, json \<times> cursor) io" where
  "saved_positions e discovery_job =
     bnd (latest_run e discovery_job) (\<lambda>discovery.
     bnd (case failed_summary_of discovery of None \<Rightarrow> ret JNull
          | Some summary \<Rightarrow> lift_py (dget summary ''resume_page'')) (\<lambda>page.
     bnd (latest_run e clean_job_name) (\<lambda>clean.
     bnd (case failed_summary_of clean of None \<Rightarrow> ret None
          | Some summary \<Rightarrow> lift_py (resume_cursor summary)) (\<lambda>after.
     ret (page, after)))))"

text \<open>
  `args.page or page or 1`: the saved page is an int or null, anything else truthy fails where the run
  adds one to it.
\<close>

definition start_page :: "int option \<Rightarrow> json \<Rightarrow> py_exn + int" where
  "start_page given page = (case py_or (case given of None \<Rightarrow> JNull | Some p \<Rightarrow> JInt p) (py_or page (JInt 1)) of
     JInt p \<Rightarrow> Inr p | _ \<Rightarrow> Inl TypeError)"

definition clean_resume_max_age :: int where "clean_resume_max_age = 24 * 3600 * 1000000"

text \<open>refresh.py: only a recent run that failed and was incremental is continued.\<close>

definition clean_resume_cursor :: "'s env \<Rightarrow> ('s, cursor) io" where
  "clean_resume_cursor e =
     bnd (latest_run e clean_job_name) (\<lambda>clean.
     case (clean, failed_summary_of clean) of
       (Some r, Some summary) \<Rightarrow>
         bnd (utc_now e) (\<lambda>now.
         if clean_resume_max_age < now - r_started_at r then ret None
         else bnd (lift_py (dget summary ''since'')) (\<lambda>since.
           if \<not> truthy since then ret None else lift_py (resume_cursor summary)))
     | _ \<Rightarrow> ret None)"

section \<open>A process\<close>

text \<open>`async with` both sessions: new ones, and closed (so rolled back) however the block ends.\<close>

definition in_sessions :: "('s, 'a) io \<Rightarrow> ('s, 'a) io" where
  "in_sessions m = (\<lambda>w. case m (w\<lparr>wsess := sess_rollback (wsess w), msess := sess_rollback (msess w)\<rparr>) of
     (r, v) \<Rightarrow> (r, v\<lparr>wsess := sess_rollback (wsess v), msess := sess_rollback (msess v)\<rparr>))"

text \<open>The adapter of a new process: its limiter has let no request through.\<close>

definition new_adapter :: "'s env \<Rightarrow> ('s, unit) io" where
  "new_adapter e =
     bnd (lift_py (new_rate_limiter e)) (\<lambda>_.
     bnd (lift_py (new_breaker 5 300)) (\<lambda>b.
     update (\<lambda>w. w\<lparr>last_request_time := None, stamps := [], breaker := b, request_count := 0, retry_count := 0,
       rate_limited_count := 0\<rparr>)))"

fun is_repeated_unexpected :: "ingest_exn \<Rightarrow> bool" where
  "is_repeated_unexpected (RepeatedUnexpectedErrors _) = True"
| "is_repeated_unexpected _ = False"

definition exit_of :: "ingest_exn \<Rightarrow> int" where
  "exit_of x =
     (if is_circuit_open x \<or> is_transient x then exit_tenrai_down
      else if is_access_denied x \<or> is_permanent x \<or> is_repeated_unexpected x then exit_needs_attention
      else if is_sqlalchemy x then exit_database
      else if is_raw_store x then exit_storage
      else exit_unexpected)"

text \<open>
  The body of `main` around the stages; an interrupt goes on to `run`.  A stage whose jobs ran out of
  fuel gives None.
\<close>

definition guarded_main :: "'s env \<Rightarrow> stage \<Rightarrow> ('s, bool) io \<Rightarrow> ('s, int option) io" where
  "guarded_main e stage stages =
     (if stage \<noteq> StageDiscovery \<and> (case new_raw_store e of Inl _ \<Rightarrow> True | Inr _ \<Rightarrow> False)
      then ret (Some exit_bad_arguments)
      else bnd (new_adapter e) (\<lambda>_.
        handle (bnd (in_sessions stages) (\<lambda>finished. ret (if finished then Some exit_ok else None)))
          (\<lambda>x. if is_exception x then ret (Some (exit_of x)) else raise x)))"

text \<open>`if stage in ("all", s)`, and no later stage when this one is out of fuel.\<close>

definition in_stage :: "stage \<Rightarrow> stage \<Rightarrow> ('s, json option) io \<Rightarrow> ('s, bool) io \<Rightarrow> ('s, bool) io" where
  "in_stage stage s job rest =
     (if stage = StageAll \<or> stage = s
      then bnd job (\<lambda>r. case r of None \<Rightarrow> ret False | Some _ \<Rightarrow> rest) else rest)"

section \<open>one_pass.py\<close>

definition one_pass_stages :: "'s env \<Rightarrow> nat \<Rightarrow> pass_args \<Rightarrow> ('s, bool) io" where
  "one_pass_stages e fuel a =
     bnd (if a_fresh a then ret (JNull, None) else saved_positions e (discovery_job_name (a_refresh a))) (\<lambda>(page, after).
     let after = (case a_after a of Some c \<Rightarrow> Some c | None \<Rightarrow> after) in
     in_stage (a_stage a) StageDiscovery
       (bnd (lift_py (start_page (a_page a) page)) (\<lambda>page.
        if a_refresh a then run_job_refresh e fuel refresh_job [] discovery_resources page
        else run_job_overall e fuel page))
     (in_stage (a_stage a) StageFetch (fetch_from_tasks e fuel)
     (in_stage (a_stage a) StageClean (full_clean_loop e fuel None after batch_rows_default True)
     (ret True))))"

definition one_pass_main :: "'s env \<Rightarrow> nat \<Rightarrow> pass_args \<Rightarrow> ('s, int option) io" where
  "one_pass_main e fuel a = guarded_main e (a_stage a) (one_pass_stages e fuel a)"

section \<open>refresh.py\<close>

definition refresh_stages :: "'s env \<Rightarrow> nat \<Rightarrow> tier \<Rightarrow> stage \<Rightarrow> ('s, bool) io" where
  "refresh_stages e fuel tier stage =
     in_stage stage StageDiscovery
       (case tier of Weekly \<Rightarrow> run_job_weekly e fuel True weekly_job_name discovery_resources
        | Monthly \<Rightarrow> run_job_monthly e fuel monthly_job_name monthly_resources)
     (in_stage stage StageFetch (fetch_from_tasks e fuel)
     (in_stage stage StageClean
       (bnd (clean_resume_cursor e) (\<lambda>after. full_clean_loop e fuel None after batch_rows_default False))
     (ret True)))"

definition refresh_main :: "'s env \<Rightarrow> nat \<Rightarrow> tier \<Rightarrow> stage \<Rightarrow> ('s, int option) io" where
  "refresh_main e fuel tier stage = guarded_main e stage (refresh_stages e fuel tier stage)"

section \<open>The end of the process\<close>

text \<open>
  `run`: an interrupt that left `main` is Ctrl-C or, with the handler `_cancel_on_sigterm` installed, a
  SIGTERM; any other exception that leaves it ends the interpreter with 1.
\<close>

definition exit_code :: "bool \<Rightarrow> ('s, int option) io \<Rightarrow> 's world \<Rightarrow> int option \<times> 's world" where
  "exit_code by_sigterm main w = (case main w of (r, v) \<Rightarrow>
     (case r of Inr code \<Rightarrow> code
      | Inl x \<Rightarrow> Some (if is_exception x then exit_unexpected
                       else if by_sigterm then exit_terminated else exit_interrupted), v))"

definition run_one_pass :: "bool \<Rightarrow> 's env \<Rightarrow> nat \<Rightarrow> pass_args \<Rightarrow> 's world \<Rightarrow> int option \<times> 's world" where
  "run_one_pass by_sigterm e fuel a = exit_code by_sigterm (one_pass_main e fuel a)"

definition run_refresh :: "bool \<Rightarrow> 's env \<Rightarrow> nat \<Rightarrow> tier \<Rightarrow> stage \<Rightarrow> 's world \<Rightarrow> int option \<times> 's world" where
  "run_refresh by_sigterm e fuel tier stage = exit_code by_sigterm (refresh_main e fuel tier stage)"

end
