(* ===== verification/Fetch_Correct.thy ===== *)
theory Fetch_Correct
  imports Fetch_Job
begin

text \<open>
  The correctness of the fetch job: what one round does to the ledger, the index and the object
  store; that an exception leaves the committed database as it was; that the run ends; and that
  the whole run respects the request rate.
\<close>

section \<open>What the parts of a round leave alone\<close>

lemma keeps_session_endpoints [keeps_rules]:
  "keeps (session_is se) (get_full e i)" "keeps (session_is se) (get_statistics e i)"
  "keeps (session_is se) (get_episodes e i n)" "keeps (session_is se) (get_reviews e i n)"
  "keeps (session_is se) (list_anime e n fs)"
  by (simp_all add: tenrai_endpoints keeps_session_tenrai)

lemma keeps_lift_py [keeps_rules]: "keeps P (lift_py r)"
  by (simp add: lift_py_def)

lemma keeps_session_pages [keeps_rules]: "keeps (session_is se) (episode_pages e m left page pages)"
  by (induction left arbitrary: page pages) (auto intro!: keeps_rules)

lemma keeps_session_payload [keeps_rules]: "keeps (session_is se) (fetch_payload e t)"
  by (cases "t_resource t") (auto simp: fetch_payload_def fetch_episodes_def intro!: keeps_rules)

lemma keeps_s3_call [keeps_rules]: "(\<And>w x. P w \<Longrightarrow> P (w\<lparr>s3 := x\<rparr>)) \<Longrightarrow> keeps P (s3_call what f)"
  by (auto simp: keeps_def s3_call_def split_beta)

lemma keeps_session_put [keeps_rules]: "keeps (session_is se) (raw_store_put e m r payload)"
  by (auto simp: raw_store_put_def Let_def intro!: keeps_rules)

lemma keeps_session_counters [keeps_rules]:
  "keeps (session_is se) (denied_to n)" "keeps (session_is se) (unexpected_to n)"
  by (auto simp: denied_to_def unexpected_to_def intro!: keeps_rules)

text \<open>So they keep every predicate of the session.\<close>

lemma off_session:
  assumes "of_session P"
  shows "keeps P (fetch_payload e t)" "keeps P (raw_store_put e m r payload)" "keeps P (denied_to n)"
    "keeps P (unexpected_to n)" "keeps P (monotonic e)"
  by (rule keeps_of_session [OF _ assms], (auto intro!: keeps_rules)[1])+

section \<open>The ledger\<close>

lemma of_session_kept [simp]: "of_session (ledger_kept S)"
  by (simp add: ledger_kept_def)

lemma keeps_kept_raw_upsert: "keeps (ledger_kept S) (raw_upsert e m r n)"
  by (auto simp: ledger_kept_def raw_upsert_def upsert_many_def intro!: keeps_rules stmt_keeps_on_raw)

lemma keeps_kept_session: "keeps (ledger_kept S) (commit_work e)" "keeps (ledger_kept S) rollback_work"
  by (auto simp: ledger_kept_def intro!: keeps_rules)

definition tasks_are :: "ledger \<Rightarrow> 's world \<Rightarrow> bool" where
  "tasks_are ts w \<longleftrightarrow> tasks (cur (wsess w)) = ts"

lemma of_session_tasks_are [simp]: "of_session (tasks_are ts)"
  by (simp add: of_session_def tasks_are_def)

lemma keeps_tasks_exec:
  assumes "\<And>now d a d'. stmt now d = Inr (a, d') \<Longrightarrow> tasks d' = tasks d"
  shows "keeps (tasks_are ts) (exec_work e stmt)"
  by (rule keeps_wpI, rule wp_exec_work) (auto simp: tasks_are_def dest: assms)

lemma keeps_tasks_raw_upsert: "keeps (tasks_are ts) (raw_upsert e m r n)"
  unfolding raw_upsert_def upsert_many_def
  by (auto intro!: keeps_bnd keeps_if keeps_tasks_exec simp: on_raw_def split: sum.splits)

lemma of_session_holding [simp]: "of_session (holding S t)"
  by (simp add: of_session_def holding_def ledger_kept_def db_inv_def)

lemma keeps_holding_raw_upsert:
  fixes e :: "'s env"
  shows "keeps (holding S t) (raw_upsert e m r n)"
proof (rule keeps_wpI)
  fix w :: "'s world" assume w: "holding S t w"
  let ?ts = "tasks (cur (wsess w))"
  have "wp (raw_upsert e m r n) (\<lambda>_ v. tasks_are ?ts v \<and> ledger_kept S v) (\<lambda>_ v. tasks_are ?ts v \<and> ledger_kept S v) w"
    by (rule wp_conj [THEN wp_mono, OF keeps_wp [OF keeps_tasks_raw_upsert] keeps_wp [OF keeps_kept_raw_upsert]])
      (use w in \<open>auto simp: holding_def tasks_are_def\<close>)
  with w show "wp (raw_upsert e m r n) (\<lambda>_. holding S t) (\<lambda>_. holding S t) w"
    by (auto simp: holding_def tasks_are_def elim!: wp_mono)
qed

lemma wp_kept_store:
  assumes "holding S t w"
  shows "wp (fetch_and_store e t) (\<lambda>_. ledger_kept S) (\<lambda>_. holding S t) w"
  unfolding fetch_and_store_def
proof (subst wp_bnd, rule wp_kept [OF off_session(1) [OF of_session_holding] assms], goal_cases)
  case (1 payload v)
  show ?case
  proof (subst wp_bnd, rule wp_kept [OF off_session(2) [OF of_session_holding] 1], goal_cases)
    case (1 n v)
    show ?case
    proof (subst wp_bnd, rule wp_kept [OF keeps_holding_raw_upsert 1], goal_cases)
      case (1 a v)
      show ?case
        by (subst wp_bnd, rule wp_mono [OF wp_marked(1) [OF 1]])
          (simp_all add: wp_simps unexpected_to_def denied_to_def ledger_kept_def)
    qed
  qed
qed

lemma wp_kept_failed:
  fixes e :: "'s env"
  assumes "holding S t w"
  shows "wp (fetch_failed e t x) (\<lambda>_. ledger_kept S) (\<lambda>_. ledger_kept S) w"
proof -
  have mark: "wp (mark_gone e t) (\<lambda>_. ledger_kept S) (\<lambda>_. ledger_kept S) v"
    "wp (mark_dead e t err) (\<lambda>_. ledger_kept S) (\<lambda>_. ledger_kept S) v"
    "wp (mark_failed e t err) (\<lambda>_. ledger_kept S) (\<lambda>_. ledger_kept S) v"
    if "holding S t v" for v :: "'s world" and err
    using that by (auto intro: wp_mono [OF wp_marked(2)] wp_mono [OF wp_marked(3)] wp_mono [OF wp_marked(4)] holding_kept)
  have same: "holding S t (w\<lparr>j_denied_in_a_row := a\<rparr>)"
    "holding S t (w\<lparr>j_denied_in_a_row := a, j_unexpected_in_a_row := b\<rparr>)" for a b
    using assms by (simp_all add: holding_def ledger_kept_def)
  have undone: "ledger_kept S (w\<lparr>wsess := sess_rollback (wsess w)\<rparr>)"
    using assms by (simp add: holding_def ledger_kept_def db_inv_def)
  show ?thesis
    by (simp add: fetch_failed_def wp_simps denied_to_def unexpected_to_def mark same undone)
qed

lemma keeps_kept_raw_bytes: "keeps (ledger_kept S) (update (\<lambda>w. w\<lparr>j_raw_bytes := f w\<rparr>))"
  by (auto simp: ledger_kept_def intro!: keeps_rules)

lemma keeps_kept_job:
  fixes e :: "'s env"
  shows "keeps (ledger_kept S) (fetch_job_from_tasks e)"
proof (rule keeps_wpI)
  fix w :: "'s world"
  assume w: "ledger_kept S w"
  show "wp (fetch_job_from_tasks e) (\<lambda>_. ledger_kept S) (\<lambda>_. ledger_kept S) w"
    unfolding fetch_job_from_tasks_def wp_bnd [of "claim_next e"]
  proof (rule wp_mono [OF wp_claim_next [OF w]], goal_cases)
    case (1 task v)
    show ?case
    proof (cases task)
      case None
      with 1 show ?thesis by (simp add: wp_simps)
    next
      case (Some t)
      with 1 have t: "holding S t v" by simp
      let ?body = "handle (fetch_and_store e t) (\<lambda>x. bnd (fetch_failed e t x) (\<lambda>status. ret (status, 0)))"
      have tried: "wp ?body (\<lambda>_. ledger_kept S) (\<lambda>_. ledger_kept S) v"
        unfolding wp_handle
        by (rule wp_mono [OF wp_kept_store [OF t]]) (auto simp: wp_simps intro: wp_kept_failed)
      show ?thesis unfolding Some option.case wp_bnd [of ?body]
      proof (rule wp_mono [OF tried], goal_cases)
        case (1 r u)
        then show ?case
          by (intro keeps_wp [where P = "ledger_kept S"])
            (auto intro!: keeps_bnd keeps_ret keeps_if keeps_kept_session keeps_kept_raw_bytes split: prod.split)
      qed
    qed
  qed auto
qed

lemma of_session_metrics_blind: "of_session P \<Longrightarrow> metrics_blind P"
  unfolding metrics_blind_def by (intro allI impI conjI; erule (1) of_sessionD; simp)

lemma keeps_session_metrics [keeps_rules]:
  "keeps (session_is se) (start_run e job)" "keeps (session_is se) (finish_run e i st sm err)"
  "keeps (session_is se) (commit_metrics e)" "keeps (session_is se) (metrics_since e t s)"
  "keeps (session_is se) (record_run e i st sm err)"
  unfolding metrics_since_def record_run_def
  by (auto intro!: keeps_rules of_session_metrics_blind)

lemma keeps_session_start_fetch [keeps_rules]: "keeps (session_is se) start_fetch"
  by (auto simp: start_fetch_def session_is_def intro!: keeps_rules)

lemma keeps_session_after_task [keeps_rules]: "keeps (session_is se) (after_task e t s)"
  by (auto simp: after_task_def intro!: keeps_rules)

lemma off_session_run:
  assumes "of_session P"
  shows "keeps P (start_run e job)" "keeps P (commit_metrics e)" "keeps P (metrics_since e t s)"
    "keeps P (record_run e i st sm err)" "keeps P start_fetch" "keeps P (after_task e t s)"
  by (rule keeps_of_session [OF _ assms], (auto intro!: keeps_rules)[1])+

text \<open>A predicate of the session that the job and the count keep, the whole run keeps.\<close>

lemma keeps_fetch_round:
  assumes "of_session P" and "keeps P (fetch_job_from_tasks e)"
  shows "keeps P (fetch_round e start started s)"
  unfolding fetch_round_def
  by (auto simp: Let_def intro!: keeps_bnd keeps_outcome_of keeps_case_sum keeps_case_option
      assms(2) off_session off_session_run assms(1))

lemma keeps_fetch_from_tasks:
  assumes "of_session P" and "keeps P (fetch_job_from_tasks e)" and count: "keeps P (count_by_status e)"
  shows "keeps P (fetch_from_tasks e fuel)"
proof -
  have queue: "keeps P (queue_counts e)"
    unfolding queue_counts_def by (auto intro!: keeps_handle keeps_bnd keeps_if count)
  show ?thesis
    unfolding fetch_from_tasks_def stop_run_def finish_fetch_def Let_def
    by (auto intro!: keeps_bnd keeps_case_option keeps_case_prod keeps_loop keeps_fetch_round assms(1,2)
        queue off_session off_session_run)
qed

lemma keeps_kept_run: "keeps (ledger_kept S) (fetch_from_tasks e fuel)"
  by (rule keeps_fetch_from_tasks) (auto intro: keeps_kept_job keeps_count_by_status)

section \<open>One round: one task, all or nothing\<close>

text \<open>The row a task is left with, by the outcome the job reports.\<close>

definition row_after :: "ingestion_task \<Rightarrow> task_status \<Rightarrow> ingestion_task \<Rightarrow> bool" where
  "row_after t st r \<longleftrightarrow> task_key r = task_key t \<and>
     (case st of
        DONE \<Rightarrow> t_status r = DONE \<and> t_attempts r = t_attempts t
      | GONE \<Rightarrow> t_status r = GONE \<and> t_attempts r = t_attempts t
      | DEAD \<Rightarrow> t_status r = DEAD \<and> t_attempts r = t_attempts t + 1
      | FAILED \<Rightarrow> t_attempts r = t_attempts t + 1
          \<and> t_status r = (if t_attempts t + 1 < max_attempts then FAILED else DEAD)
      | PENDING \<Rightarrow> False)"

definition one_row :: "ingestion_task \<Rightarrow> task_status \<Rightarrow> ledger \<Rightarrow> ledger \<Rightarrow> bool" where
  "one_row t st ts ts' \<longleftrightarrow> (\<exists>r. row_after t st r \<and> ts' = map (\<lambda>u. if task_key u = task_key t then r else u) ts)"

lemma one_rowI:
  assumes "ledger_ok ts" and "t \<in> set ts" and "row_after t st ((f t)\<lparr>t_updated_at := now\<rparr>)"
  shows "one_row t st ts (map (\<lambda>u. if task_key u = task_key t then (f u)\<lparr>t_updated_at := now\<rparr> else u) ts)"
  unfolding one_row_def using assms ledger_ok_same_key [OF assms(1)]
  by (intro exI [of _ "(f t)\<lparr>t_updated_at := now\<rparr>"]) (auto dest: ledger_ok_same_key [OF assms(1)])

lemma wp_set_task:
  assumes "tasks_are ts w" and "ledger_ok ts" and "t \<in> set ts" and "\<And>now. row_after t st ((f t)\<lparr>t_updated_at := now\<rparr>)"
  shows "wp (set_task e t f) (\<lambda>_ v. one_row t st ts (tasks (cur (wsess v)))) (\<lambda>_. tasks_are ts) w"
  unfolding set_task_def
proof (rule wp_exec_work, goal_cases)
  case (1 now a d n se)
  then have "tasks d = map (\<lambda>u. if task_key u = task_key t then (f u)\<lparr>t_updated_at := now\<rparr> else u) ts"
    using assms(1) by (auto simp: on_tasks_def set_row_def tasks_are_def)
  with one_rowI [where f = f and st = st and now = now, OF assms(2,3) assms(4)] 1 show ?case by simp
next
  case (2 x n se)
  then show ?case using assms(1) by (simp add: tasks_are_def)
qed

lemma row_after_values:
  "row_after t DONE ((done_values t)\<lparr>t_updated_at := now\<rparr>)"
  "row_after t GONE ((gone_values t)\<lparr>t_updated_at := now\<rparr>)"
  "row_after t DEAD ((attempt_values DEAD (t_attempts t + 1) d err t)\<lparr>t_updated_at := now\<rparr>)"
  "max_attempts \<le> t_attempts t + 1
     \<Longrightarrow> row_after t FAILED ((attempt_values DEAD (t_attempts t + 1) d err t)\<lparr>t_updated_at := now\<rparr>)"
  "t_attempts t + 1 < max_attempts
     \<Longrightarrow> row_after t FAILED ((attempt_values FAILED (t_attempts t + 1) d err t)\<lparr>t_updated_at := now\<rparr>)"
  by (simp_all add: row_after_def done_values_def gone_values_def attempt_values_def task_key_def)

lemma wp_marks:
  assumes "tasks_are ts w" and "ledger_ok ts" and "t \<in> set ts"
  shows "wp (mark_done e t) (\<lambda>_ v. one_row t DONE ts (tasks (cur (wsess v)))) (\<lambda>_. tasks_are ts) w"
    and "wp (mark_gone e t) (\<lambda>_ v. one_row t GONE ts (tasks (cur (wsess v)))) (\<lambda>_. tasks_are ts) w"
    and "wp (mark_dead e t err) (\<lambda>_ v. one_row t DEAD ts (tasks (cur (wsess v)))) (\<lambda>_. tasks_are ts) w"
    and "wp (mark_failed e t err) (\<lambda>_ v. one_row t FAILED ts (tasks (cur (wsess v)))) (\<lambda>_. tasks_are ts) w"
proof -
  show "wp (mark_done e t) (\<lambda>_ v. one_row t DONE ts (tasks (cur (wsess v)))) (\<lambda>_. tasks_are ts) w"
    "wp (mark_gone e t) (\<lambda>_ v. one_row t GONE ts (tasks (cur (wsess v)))) (\<lambda>_. tasks_are ts) w"
    "wp (mark_dead e t err) (\<lambda>_ v. one_row t DEAD ts (tasks (cur (wsess v)))) (\<lambda>_. tasks_are ts) w"
    unfolding mark_done_def mark_gone_def mark_dead_def
    by (rule wp_set_task [OF assms], rule row_after_values)+
  have same: "tasks_are ts (w\<lparr>steps := n\<rparr>)" for n using assms(1) by (simp add: tasks_are_def)
  show "wp (mark_failed e t err) (\<lambda>_ v. one_row t FAILED ts (tasks (cur (wsess v)))) (\<lambda>_. tasks_are ts) w"
  proof (cases "max_attempts \<le> t_attempts t + 1")
    case True
    then show ?thesis unfolding mark_failed_def Let_def
      by (simp add: wp_set_task [OF assms] row_after_values)
  next
    case False
    then show ?thesis unfolding mark_failed_def Let_def utc_now_def
      by (simp add: wp_simps wp_set_task [OF same assms(2,3)] row_after_values)
  qed
qed

lemma wp_store:
  fixes e :: "'s env"
  assumes "tasks_are ts w" and "ledger_ok ts" and "t \<in> set ts"
  shows "wp (fetch_and_store e t) (\<lambda>(st, n) v. one_row t st ts (tasks (cur (wsess v)))) (\<lambda>_. tasks_are ts) w"
proof -
  have last: "wp (bnd (unexpected_to 0) (\<lambda>_. bnd (denied_to 0) (\<lambda>_. ret (DONE, n))))
      (\<lambda>(st, n) v. one_row t st ts (tasks (cur (wsess v)))) E v"
    if "one_row t DONE ts (tasks (cur (wsess v)))" for n :: int and E v
    using that by (simp add: wp_simps unexpected_to_def denied_to_def)
  show ?thesis
    unfolding fetch_and_store_def
  proof (subst wp_bnd, rule wp_kept [where P = "tasks_are ts", OF off_session(1)], simp, rule assms, goal_cases)
    case (1 payload v)
    show ?case
    proof (subst wp_bnd, rule wp_kept [where P = "tasks_are ts", OF off_session(2)], simp, rule 1, goal_cases)
      case (1 n v)
      show ?case
      proof (subst wp_bnd, rule wp_kept [OF keeps_tasks_raw_upsert], rule 1, goal_cases)
        case (1 a v)
        show ?case
          by (subst wp_bnd, rule wp_mono [OF wp_marks(1) [OF 1 assms(2,3)]], rule last)
      qed
    qed
  qed
qed

lemma wp_failed:
  fixes e :: "'s env"
  assumes "tasks_are ts w" and "ledger_ok ts" and "t \<in> set ts"
  shows "wp (fetch_failed e t x) (\<lambda>st v. one_row t st ts (tasks (cur (wsess v)))) (\<lambda>_ _. True) w"
proof -
  have mark: "wp (mark_gone e t) (\<lambda>_ v. one_row t GONE ts (tasks (cur (wsess v)))) (\<lambda>_ _. True) v"
    "wp (mark_dead e t err) (\<lambda>_ v. one_row t DEAD ts (tasks (cur (wsess v)))) (\<lambda>_ _. True) v"
    "wp (mark_failed e t err) (\<lambda>_ v. one_row t FAILED ts (tasks (cur (wsess v)))) (\<lambda>_ _. True) v"
    if "tasks_are ts v" for v :: "'s world" and err
    using that by (auto intro: wp_mono [OF wp_marks(2) [OF _ assms(2,3)]] wp_mono [OF wp_marks(3) [OF _ assms(2,3)]]
        wp_mono [OF wp_marks(4) [OF _ assms(2,3)]])
  have same: "tasks_are ts (w\<lparr>j_denied_in_a_row := a\<rparr>)"
    "tasks_are ts (w\<lparr>j_denied_in_a_row := a, j_unexpected_in_a_row := b\<rparr>)" for a b
    using assms(1) by (simp_all add: tasks_are_def)
  show ?thesis
    by (simp add: fetch_failed_def wp_simps denied_to_def unexpected_to_def mark same)
qed

text \<open>The claim: the view is unchanged, and the task is one of its claimable rows.\<close>

definition claims :: "ledger \<Rightarrow> ingestion_task option \<Rightarrow> bool" where
  "claims ts r = (case r of None \<Rightarrow> True | Some t \<Rightarrow> t \<in> set ts \<and> t_status t \<in> {PENDING, FAILED})"

lemma wp_claim:
  "wp (claim_next e) (\<lambda>r v. cur (wsess v) = cur (wsess w) \<and> saved (wsess v) = saved (wsess w)
      \<and> claims (tasks (cur (wsess w))) r) (\<lambda>_ v. saved (wsess v) = saved (wsess w)) w"
proof -
  have first: "claims ts (first_task (filter (claimable now) ts))" for now ts
  proof (cases "first_task (filter (claimable now) ts)")
    case (Some t)
    then show ?thesis using first_task_props [OF Some] by (simp add: claims_def claimable_def)
  qed (simp add: claims_def)
  show ?thesis
    unfolding claim_next_def utc_now_def wp_bnd wp_tick wp_look
    by (rule wp_exec_work) (auto simp: on_tasks_def query_def first)
qed

lemma wp_commit:
  "wp (commit_work e) (\<lambda>_ v. saved (wsess v) = cur (wsess w) \<and> cur (wsess v) = cur (wsess w))
     (\<lambda>_ v. saved (wsess v) = saved (wsess w)) w"
  unfolding commit_work_def wp_bnd wp_tick
  by (simp add: wp_def sess_commit_def split: option.split)

lemma keeps_saved_parts:
  "keeps (saved_is d) (mark_done e t)" "keeps (saved_is d) (mark_gone e t)"
  "keeps (saved_is d) (mark_dead e t err)" "keeps (saved_is d) (mark_failed e t err)"
  "keeps (saved_is d) (raw_upsert e m r n)" "keeps (saved_is d) (count_by_status e)"
  unfolding mark_done_def mark_gone_def mark_dead_def mark_failed_def set_task_def raw_upsert_def
    upsert_many_def count_by_status_def Let_def
  by (auto intro!: keeps_rules)

lemma keeps_saved_try:
  "keeps (saved_is d) (fetch_and_store e t)" "keeps (saved_is d) (fetch_failed e t x)"
  unfolding fetch_and_store_def fetch_failed_def
  by (auto intro!: keeps_bnd keeps_if keeps_saved_parts keeps_saved_rollback off_session)

text \<open>The round, by its three results.\<close>

definition round_ok :: "db \<Rightarrow> db \<Rightarrow> ingest_exn + task_outcome option \<Rightarrow> db session \<Rightarrow> bool" where
  "round_ok before committed r se = (case r of
     Inl _ \<Rightarrow> saved se = committed
   | Inr None \<Rightarrow> cur se = before \<and> saved se = committed
   | Inr (Some out) \<Rightarrow> saved se = cur se \<and>
       (\<exists>t. t \<in> set (tasks before) \<and> t_status t \<in> {PENDING, FAILED} \<and> o_resource out = t_resource t
         \<and> o_first_try out = (t_attempts t = 0) \<and> one_row t (o_status out) (tasks before) (tasks (cur se))))"

lemma wp_round:
  assumes ok: "ledger_ok (tasks (cur (wsess w)))"
  shows "wp (fetch_job_from_tasks e)
    (\<lambda>r v. round_ok (cur (wsess w)) (saved (wsess w)) (Inr r) (wsess v))
    (\<lambda>x v. round_ok (cur (wsess w)) (saved (wsess w)) (Inl x) (wsess v)) w"
proof -
  let ?d = "cur (wsess w)" let ?c = "saved (wsess w)"
  show ?thesis
    unfolding fetch_job_from_tasks_def wp_bnd [of "claim_next e"]
  proof (rule wp_mono [OF wp_claim], goal_cases)
    case (2 x v)
    then show ?case by (simp add: round_ok_def)
  next
    case (1 task v)
    then have v: "cur (wsess v) = ?d" "saved (wsess v) = ?c" by auto
    show ?case
    proof (cases task)
      case None
      then show ?thesis by (simp add: wp_simps round_ok_def v)
    next
      case (Some t)
      with 1 have t: "t \<in> set (tasks ?d)" "t_status t \<in> {PENDING, FAILED}" by (auto simp: claims_def)
      have v': "tasks_are (tasks ?d) v" "saved_is ?c v" using v by (simp_all add: tasks_are_def saved_is_def)
      let ?body = "handle (fetch_and_store e t) (\<lambda>x. bnd (fetch_failed e t x) (\<lambda>status. ret (status, 0)))"
      have "wp ?body (\<lambda>(st, n) u. one_row t st (tasks ?d) (tasks (cur (wsess u)))) (\<lambda>_ _. True) v"
        unfolding wp_handle
        by (rule wp_mono [OF wp_store [OF v'(1) ok t(1)]])
          (auto simp: wp_simps intro: wp_mono [OF wp_failed [OF _ ok t(1)]])
      moreover have "wp ?body (\<lambda>_. saved_is ?c) (\<lambda>_. saved_is ?c) v"
        by (rule keeps_wp [where P = "saved_is ?c", OF _ v'(2)])
          (auto intro!: keeps_handle keeps_bnd keeps_saved_try)
      ultimately have tried: "wp ?body (\<lambda>(st, n) u. one_row t st (tasks ?d) (tasks (cur (wsess u))) \<and> saved_is ?c u)
          (\<lambda>_. saved_is ?c) v"
        by (rule wp_mono [OF wp_conj]) auto
      show ?thesis
        unfolding Some option.case wp_bnd [of ?body]
      proof (rule wp_mono [OF tried], goal_cases)
        case (2 x u)
        then show ?case by (simp add: round_ok_def saved_is_def)
      next
        case (1 r u)
        obtain st n where r: "r = (st, n)" by fastforce
        with 1 have u: "one_row t st (tasks ?d) (tasks (cur (wsess u)))" "saved (wsess u) = ?c"
          by (auto simp: saved_is_def)
        show ?case
          unfolding r prod.case wp_bnd [of "commit_work e"]
          by (rule wp_mono [OF wp_commit]) (use u t in \<open>auto simp: wp_simps round_ok_def\<close>)
      qed
    qed
  qed
qed

section \<open>The run ends\<close>

text \<open>
  What is left to do: three attempts for a pending task, fewer for a failed one.  Every round that
  reports an outcome lowers it.
\<close>

definition work_left :: "ingestion_task \<Rightarrow> nat" where
  "work_left t = (if t_status t \<in> {PENDING, FAILED} then nat (max_attempts - t_attempts t) else 0)"

definition total_work :: "ledger \<Rightarrow> nat" where
  "total_work ts = sum_list (map work_left ts)"

lemma one_row_work:
  assumes ok: "ledger_ok ts" and t: "t \<in> set ts" "t_status t \<in> {PENDING, FAILED}" and row: "one_row t st ts ts'"
  shows "total_work ts' < total_work ts"
proof -
  from row obtain r where r: "row_after t st r" and ts': "ts' = map (\<lambda>u. if task_key u = task_key t then r else u) ts"
    by (auto simp: one_row_def)
  from t(1) obtain xs ys where ts: "ts = xs @ t # ys" by (metis split_list)
  have "task_key t \<notin> task_key ` (set xs \<union> set ys)"
    using ok by (auto simp: ledger_ok_def ts)
  then have "task_key u \<noteq> task_key t" if "u \<in> set xs \<union> set ys" for u
    using that by (metis imageI)
  then have same: "map (\<lambda>u. if task_key u = task_key t then r else u) xs = xs"
    "map (\<lambda>u. if task_key u = task_key t then r else u) ys = ys"
    by (auto intro!: map_idI)
  have "task_ok t" using ok t(1) by (simp add: ledger_ok_def list_all_iff)
  then have "work_left r < work_left t"
    using r t(2) by (cases st) (auto simp: work_left_def row_after_def task_ok_def max_attempts_def)
  then show ?thesis by (simp add: total_work_def ts' ts same)
qed

definition run_work :: "'s world \<Rightarrow> nat" where
  "run_work w = total_work (tasks (cur (wsess w)))"

lemma of_session_run_work [simp]: "of_session (\<lambda>v. run_work v < n)"
  by (simp add: of_session_def run_work_def)

lemma wp_fetch_round:
  assumes "ledger_kept S w"
  shows "wp (fetch_round e start started s)
    (\<lambda>r v. case r of Inl _ \<Rightarrow> run_work v < run_work w | Inr _ \<Rightarrow> True) (\<lambda>_ _. True) w"
proof -
  let ?P = "\<lambda>v. run_work v < run_work w"
  have ok: "ledger_ok (tasks (cur (wsess w)))"
    using assms by (simp add: ledger_kept_def db_inv_def ledger_from_def)
  have job: "wp (fetch_job_from_tasks e) (\<lambda>r v. r \<noteq> None \<longrightarrow> ?P v) (\<lambda>_ _. True) (w\<lparr>steps := n\<rparr>)" for n
    by (rule wp_mono [OF wp_round])
      (use ok in \<open>auto simp: round_ok_def run_work_def dest: one_row_work\<close>)
  have after: "wp (after_task e started s') (\<lambda>_. ?P) (\<lambda>_ _. True) v" if "?P v" for s' v
    by (rule wp_kept [where P = ?P, OF off_session_run(6) that]) simp_all
  have frame: "?P v \<Longrightarrow> ?P (v\<lparr>steps := n\<rparr>)" for v n
    by (simp add: run_work_def)
  show ?thesis
    unfolding fetch_round_def monotonic_def Let_def
  proof (simp only: wp_bnd wp_tick wp_look wp_outcome_of, rule wp_mono [OF job], goal_cases)
    case (1 r v)
    then show ?case by (cases r) (auto simp: wp_simps after frame)
  qed (simp add: wp_simps)
qed

interpretation fetching: draining "fetch_round e start started" "\<lambda>_. ledger_kept S" "\<lambda>_. run_work"
  for e :: "'s env" and start started S
proof unfold_locales
  fix a a' and w v :: "'s world"
  assume inv: "ledger_kept S w" and run: "fetch_round e start started a w = (Inr (Inl a'), v)"
  have "ledger_kept S v"
    using keepsD [OF keeps_fetch_round [OF of_session_kept keeps_kept_job] run inv] .
  with wp_Inr [OF run wp_fetch_round [OF inv]] show "ledger_kept S v \<and> run_work v < run_work w" by simp
qed

lemma wp_stop_run: "wp (stop_run e start started run_id x s) Q (\<lambda>_ _. True) v"
  unfolding stop_run_def wp_bnd
  by (rule wp_any, rule wp_any, rule wp_any, rule wp_any) (simp only: wp_raise)

lemma fetch_never_dry:
  fixes e :: "'s env"
  assumes ok: "ledger_kept S w" and fuel: "run_work w < fuel"
  shows "wp (fetch_from_tasks e fuel) (\<lambda>r _. r \<noteq> None) (\<lambda>_ _. True) w"
proof -
  let ?P = "\<lambda>v::'s world. ledger_kept S v \<and> run_work v < fuel"
  have P: "of_session ?P" by (auto simp: of_session_def ledger_kept_def db_inv_def run_work_def)
  have rest: "wp (loop fuel (fetch_round e start started) s) (\<lambda>r. wp (case r of
         None \<Rightarrow> ret None
       | Some (Some x, s) \<Rightarrow> stop_run e start started run_id x s
       | Some (None, s) \<Rightarrow> bnd (finish_fetch e start started run_id s) (\<lambda>summary. ret (Some summary)))
      (\<lambda>r _. r \<noteq> None) (\<lambda>_ _. True)) (\<lambda>_ _. True) v"
    if v: "?P v" for start started s v run_id
  proof (rule wpI, goal_cases)
    case (1 r u)
    have "r \<noteq> None"
    proof
      assume "r = None"
      with 1 have "loop fuel (fetch_round e start started) s v = (Inr None, u)" by simp
      with fetching.never_dry v show False by blast
    qed
    then show ?case
      by (cases r) (auto simp: wp_bnd wp_ret wp_stop_run intro!: wp_any split: prod.split option.split)
  qed simp
  show ?thesis
    unfolding fetch_from_tasks_def wp_bnd wp_look
  proof (rule wp_kept [where P = ?P, OF off_session_run(5) [OF P]], goal_cases)
    case (2 a v)
    show ?case
    proof (rule wp_kept [where P = ?P, OF off_session(5) [OF P] 2], goal_cases)
      case (1 started v)
      show ?case
      proof (rule wp_kept [where P = ?P, OF off_session_run(1) [OF P] 1], goal_cases)
        case (1 run_id v)
        show ?case
          by (rule wp_kept [where P = ?P, OF off_session_run(2) [OF P] 1]) (erule rest, rule TrueI)
      qed simp
    qed simp
  qed (use ok fuel in simp_all)
qed

section \<open>The request rate and the object store, over the whole run\<close>

text \<open>
  A predicate that none of the job's own steps can break: the fields it may read are the session's
  rows, the objects and the limiter's state, and those change only where the assumptions say.
\<close>

definition framed :: "'s env \<Rightarrow> ('s world \<Rightarrow> bool) \<Rightarrow> bool" where
  "framed e P \<longleftrightarrow> adapter_blind P \<and> metrics_blind P
     \<and> (\<forall>w n m k. P w \<longrightarrow> P (w\<lparr>j_raw_bytes := n, j_unexpected_in_a_row := m, j_denied_in_a_row := k\<rparr>))
     \<and> keeps P (acquire e) \<and> (\<forall>f::(ledger, unit) stmt. keeps P (exec_work e (on_tasks f)))
     \<and> (\<forall>f. keeps P (exec_work e (on_tasks (query (f :: ledger \<Rightarrow> ingestion_task option)))))
     \<and> keeps P (count_by_status e) \<and> keeps P (commit_work e) \<and> keeps P rollback_work"

lemma framedD:
  assumes "framed e P"
  shows "adapter_blind P" "metrics_blind P" "keeps P (acquire e)" "keeps P (exec_work e (on_tasks (f::(ledger, unit) stmt)))"
    "keeps P (exec_work e (on_tasks (query (g :: ledger \<Rightarrow> ingestion_task option))))"
    "keeps P (count_by_status e)" "keeps P (commit_work e)" "keeps P rollback_work"
  using assms by (auto simp: framed_def)

lemma framed_fields:
  assumes "framed e P" and "P w"
  shows "P (w\<lparr>j_raw_bytes := n\<rparr>)" "P (w\<lparr>j_unexpected_in_a_row := n\<rparr>)" "P (w\<lparr>j_denied_in_a_row := n\<rparr>)"
    "P (w\<lparr>steps := i\<rparr>)" "P (w\<lparr>j_unexpected_in_a_row := a, j_denied_in_a_row := b, j_raw_bytes := c\<rparr>)"
proof -
  have all: "P (w\<lparr>j_raw_bytes := a, j_unexpected_in_a_row := b, j_denied_in_a_row := c\<rparr>)" for a b c
    using assms by (auto simp: framed_def)
  show "P (w\<lparr>j_raw_bytes := n\<rparr>)"
    using all [where a = n and b = "j_unexpected_in_a_row w" and c = "j_denied_in_a_row w"] by simp
  show "P (w\<lparr>j_unexpected_in_a_row := n\<rparr>)"
    using all [where a = "j_raw_bytes w" and b = n and c = "j_denied_in_a_row w"] by simp
  show "P (w\<lparr>j_denied_in_a_row := n\<rparr>)"
    using all [where a = "j_raw_bytes w" and b = "j_unexpected_in_a_row w" and c = n] by simp
  show "P (w\<lparr>j_unexpected_in_a_row := a, j_denied_in_a_row := b, j_raw_bytes := c\<rparr>)"
    by (rule back_subst [where P = P, OF all [where a = c and b = a and c = b]]) simp
  show "P (w\<lparr>steps := i\<rparr>)"
    using metrics_blindD(2) [OF framedD(2) [OF assms(1)] assms(2)] .
qed

lemma keeps_framed_payload:
  assumes "framed e P" shows "keeps P (fetch_payload e t)"
proof -
  note get = keeps_tenrai_get [OF framedD(1) [OF assms] framedD(3) [OF assms]]
  have pages: "keeps P (episode_pages e m left page pages)" for m left page pages
    by (induction left arbitrary: page pages)
      (auto simp: get_episodes_def get intro!: keeps_bnd keeps_if keeps_lift_py)
  show ?thesis
    by (cases "t_resource t") (auto simp: fetch_payload_def fetch_episodes_def tenrai_endpoints get pages
        intro!: keeps_bnd)
qed

lemma keeps_framed_clock:
  assumes "framed e P" shows "keeps P (monotonic e)" "keeps P (utc_now e)"
  by (rule keeps_monotonic keeps_utc_now, erule framed_fields(4) [OF assms])+

lemma keeps_framed_counters:
  assumes "framed e P"
  shows "keeps P (denied_to n)" "keeps P (unexpected_to n)" "keeps P (update (\<lambda>w. w\<lparr>j_raw_bytes := f w\<rparr>))"
    "keeps P start_fetch"
  unfolding denied_to_def unexpected_to_def start_fetch_def
  by (rule keeps_update, erule framed_fields [OF assms])+

lemma keeps_framed_marks:
  assumes "framed e P"
  shows "keeps P (mark_done e t)" "keeps P (mark_gone e t)" "keeps P (mark_dead e t err)"
    "keeps P (mark_failed e t err)" "keeps P (claim_next e)"
  unfolding mark_done_def mark_gone_def mark_dead_def mark_failed_def set_task_def claim_next_def Let_def
  by (auto intro!: keeps_bnd keeps_if keeps_framed_clock [OF assms] framedD [OF assms])

lemma keeps_framed_failed:
  assumes "framed e P" shows "keeps P (fetch_failed e t x)"
  unfolding fetch_failed_def
  by (auto intro!: keeps_bnd keeps_if keeps_framed_marks [OF assms] keeps_framed_counters [OF assms]
      framedD(8) [OF assms])

lemma keeps_framed_run:
  assumes framed: "framed e P" and store: "\<And>t. keeps P (fetch_and_store e t)"
  shows "keeps P (fetch_from_tasks e fuel)"
proof -
  note metrics = keeps_run_metrics [OF framedD(2) [OF framed]]
  have job: "keeps P (fetch_job_from_tasks e)"
    unfolding fetch_job_from_tasks_def
    by (auto intro!: keeps_bnd keeps_case_option keeps_handle keeps_case_prod keeps_if store
        keeps_framed_failed keeps_framed_marks keeps_framed_counters framedD(7) framed)
  have since: "keeps P (metrics_since e t s)" for t s
    unfolding metrics_since_def
    by (auto intro!: keeps_bnd keeps_lift_py keeps_framed_clock framed)
  have after: "keeps P (after_task e t s)" for t s
    unfolding after_task_def by (auto intro!: keeps_bnd keeps_if since)
  have queue: "keeps P (queue_counts e)" and recorded: "keeps P (record_run e i st sm err)" for i st sm err
    unfolding queue_counts_def record_run_def
    by (auto intro!: keeps_handle keeps_bnd keeps_if framedD(6) framed metrics)
  have round: "keeps P (fetch_round e start t s)" for start t s
    unfolding fetch_round_def
    by (auto simp: Let_def intro!: keeps_bnd keeps_outcome_of keeps_case_sum keeps_case_option job after
        keeps_framed_clock framed)
  show ?thesis
    unfolding fetch_from_tasks_def stop_run_def finish_fetch_def Let_def
    by (auto intro!: keeps_bnd keeps_case_option keeps_case_prod keeps_loop round queue recorded since metrics
        keeps_framed_clock keeps_framed_counters framed)
qed

lemma framed_limiter:
  assumes "mono (mclock e)" shows "framed e (limiter_inv e)"
  using keeps_acquire [OF assms]
  by (auto simp: framed_def adapter_blind_def metrics_blind_def count_by_status_def rollback_work_def
      intro!: keeps_exec_work keeps_commit_work keeps_update)

lemma limiter_run:
  assumes "mono (mclock e)" shows "keeps (limiter_inv e) (fetch_from_tasks e fuel)"
proof (rule keeps_framed_run [OF framed_limiter [OF assms]])
  fix t
  have "keeps (limiter_inv e) (raw_store_put e m r p)" "keeps (limiter_inv e) (raw_upsert e m r n)" for m r p n
    unfolding raw_store_put_def raw_upsert_def upsert_many_def Let_def
    by (auto intro!: keeps_bnd keeps_if keeps_s3_call keeps_exec_work)
  then show "keeps (limiter_inv e) (fetch_and_store e t)"
    unfolding fetch_and_store_def
    by (auto intro!: keeps_bnd keeps_framed_payload keeps_framed_marks keeps_framed_counters
        framed_limiter assms)
qed

section \<open>Every index row points at an object\<close>

text \<open>
  What the object store promises: a put that returns has stored its key, and no call loses another
  object (a refused put may or may not have stored its own).
\<close>

definition s3_laws :: "'s env \<Rightarrow> (string \<Rightarrow> 's \<Rightarrow> bool) \<Rightarrow> bool" where
  "s3_laws e stored \<longleftrightarrow>
     (\<forall>k b s r s'. s3_put e k b s = (r, s') \<longrightarrow> (\<forall>j. stored j s \<longrightarrow> stored j s') \<and> (r = Inr () \<longrightarrow> stored k s'))
     \<and> (\<forall>k s r s'. s3_get e k s = (r, s') \<longrightarrow> (\<forall>j. stored j s \<longrightarrow> stored j s'))"

definition rows_backed :: "'s env \<Rightarrow> (string \<Rightarrow> 's \<Rightarrow> bool) \<Rightarrow> 's \<Rightarrow> raw_index \<Rightarrow> bool" where
  "rows_backed e stored objects rows \<longleftrightarrow> list_all (\<lambda>(m, r). stored (key_for e m r) objects) (map raw_key rows)"

definition backed :: "'s env \<Rightarrow> (string \<Rightarrow> 's \<Rightarrow> bool) \<Rightarrow> 's world \<Rightarrow> bool" where
  "backed e stored w \<longleftrightarrow> rows_backed e stored (s3 w) (raw_rows (cur (wsess w)))
     \<and> rows_backed e stored (s3 w) (raw_rows (saved (wsess w)))"

lemma keeps_backed_tasks: "keeps (backed e stored) (exec_work e' (on_tasks f))"
proof (rule keeps_wpI, rule wp_exec_work, goal_cases)
  case (1 s now a d n se)
  with on_tasks_Inr [OF 1(2)] show ?case by (simp add: backed_def)
next
  case (2 s x n se)
  then show ?case by (simp add: backed_def)
qed

lemma framed_backed: "framed e (backed e stored)"
  unfolding framed_def count_by_status_def
  by (auto simp: adapter_blind_def metrics_blind_def backed_def acquire_def stamp_def sess_commit_def
      intro!: keeps_backed_tasks keeps_bnd keeps_rules split: option.splits)

lemma keeps_backed_store:
  assumes "s3_laws e stored"
  shows "keeps (backed e stored) (bnd (raw_store_put e m r p) (\<lambda>n. bnd (raw_upsert e m r n) (\<lambda>_. ret n)))"
proof (rule keeps_wpI)
  fix w assume w: "backed e stored w"
  let ?key = "key_for e m r"
  obtain res objects where put: "s3_put e ?key (pack e p) (s3 w) = (res, objects)" by fastforce
  have more: "stored j (s3 w) \<Longrightarrow> stored j objects" and new: "res = Inr () \<Longrightarrow> stored ?key objects" for j
    using assms put by (auto simp: s3_laws_def)
  have w': "backed e stored (w\<lparr>s3 := objects\<rparr>)"
    using w more by (auto simp: backed_def rows_backed_def list_all_iff)
  have put_run: "raw_store_put e m r p w = (case res of
       Inl (S3Refused name) \<Rightarrow> (Inl (RawStoreError ((''put '' @ ?key) @ '' failed: '' @ name)), w\<lparr>s3 := objects\<rparr>)
     | Inl S3Cancelled \<Rightarrow> (Inl Interrupted, w\<lparr>s3 := objects\<rparr>)
     | Inr _ \<Rightarrow> (Inr (int (length (pack e p))), w\<lparr>s3 := objects\<rparr>))"
    by (simp add: raw_store_put_def s3_call_def bnd_def ret_def put Let_def split: sum.split s3_fault.split)
  have upsert: "wp (raw_upsert e m r n) (\<lambda>_. backed e stored) (\<lambda>_. backed e stored) (w\<lparr>s3 := objects\<rparr>)"
    if "res = Inr ()" for n
    unfolding raw_upsert_def upsert_many_def
  proof (simp add: wp_simps, rule wp_exec_work, goal_cases)
    case (1 now a d k se)
    then have stmt: "on_raw (raw_upsert_rows [(m, r, n)]) now (cur (wsess w)) = Inr (a, d)" by simp
    have "raw_key ` set (raw_rows d) = insert (m, r) (raw_key ` set (raw_rows (cur (wsess w))))"
      using raw_upsert_single(2) [OF conjunct1 [OF on_raw_Inr [OF stmt]]] .
    then have "set (map raw_key (raw_rows d)) = insert (m, r) (set (map raw_key (raw_rows (cur (wsess w)))))"
      by simp
    with 1 w' new [OF that] show ?case
      unfolding backed_def rows_backed_def list_all_iff by simp
  next
    case (2 x k se)
    with w' show ?case by (simp add: backed_def)
  qed
  show "wp (bnd (raw_store_put e m r p) (\<lambda>n. bnd (raw_upsert e m r n) (\<lambda>_. ret n))) (\<lambda>_. backed e stored) (\<lambda>_. backed e stored) w"
    unfolding wp_bnd using w' upsert
    by (auto simp: wp_def [of "raw_store_put e m r p"] put_run wp_ret split: sum.split s3_fault.split)
qed

lemma backed_run:
  assumes "s3_laws e stored" shows "keeps (backed e stored) (fetch_from_tasks e fuel)"
proof (rule keeps_framed_run [OF framed_backed])
  fix t
  have split: "fetch_and_store e t = bnd (fetch_payload e t) (\<lambda>payload.
     bnd (bnd (raw_store_put e (t_mal_id t) (t_resource t) payload) (\<lambda>bytes.
          bnd (raw_upsert e (t_mal_id t) (t_resource t) bytes) (\<lambda>_. ret bytes))) (\<lambda>bytes.
     bnd (mark_done e t) (\<lambda>_. bnd (unexpected_to 0) (\<lambda>_. bnd (denied_to 0) (\<lambda>_. ret (DONE, bytes))))))"
    by (simp add: fetch_and_store_def bnd_assoc)
  show "keeps (backed e stored) (fetch_and_store e t)"
    unfolding split
    by (auto intro!: keeps_bnd keeps_framed_payload keeps_framed_marks keeps_framed_counters framed_backed keeps_backed_store assms)
qed

section \<open>Episode pages\<close>

lemma episode_pages_shape:
  assumes "map has_next_page pages = replicate (length pages) (Inr True)"
  shows "wp (episode_pages e m left page pages)
     (\<lambda>ps _. \<exists>n. length ps = Suc n \<and> Suc n \<le> length pages + left
         \<and> map has_next_page ps = replicate n (Inr True) @ [Inr False]) (\<lambda>_ _. True) w"
  using assms
proof (induction left arbitrary: page pages w)
  case 0
  then show ?case by (simp add: wp_simps)
next
  case (Suc left)
  show ?case
    unfolding episode_pages.simps wp_bnd
  proof (rule wp_any)
    fix response v
    show "wp (lift_py (has_next_page response)) (\<lambda>a. wp (if a then episode_pages e m left (page + 1) (pages @ [response])
           else ret (pages @ [response]))
        (\<lambda>ps _. \<exists>n. length ps = Suc n \<and> Suc n \<le> length pages + Suc left
         \<and> map has_next_page ps = replicate n (Inr True) @ [Inr False]) (\<lambda>_ _. True)) (\<lambda>_ _. True) v"
    proof (cases "has_next_page response")
      case (Inl x)
      then show ?thesis by (simp add: lift_py_def wp_simps)
    next
      case (Inr more)
      have "map has_next_page (pages @ [response]) = replicate (length (pages @ [response])) (Inr True)" if more
        using Suc.prems Inr that by (simp add: replicate_append_same)
      then show ?thesis
        using Inr Suc.prems Suc.IH [of "pages @ [response]" "page + 1" v]
        by (cases more) (auto simp: lift_py_def wp_simps)
    qed
  qed
qed

text \<open>
  `fetched_pages e mal_id page w pages v`: the requests for the episode pages of an anime from `page`
  on, one page number after the other, were answered by `pages` and led from `w` to `v`.
\<close>

primrec fetched_pages :: "'s env \<Rightarrow> int \<Rightarrow> int \<Rightarrow> 's world \<Rightarrow> json list \<Rightarrow> 's world \<Rightarrow> bool" where
  "fetched_pages e mal_id page w [] v \<longleftrightarrow> v = w"
| "fetched_pages e mal_id page w (r # rs) v \<longleftrightarrow>
     (\<exists>u. tenrai_get e max_attempts_default (''/anime/'' @ str_int mal_id @ ''/episodes'')
            [(''page'', str_int page)] w = (Inr r, u)
        \<and> fetched_pages e mal_id (page + 1) u rs v)"

lemma lift_py_eq_Inr: "lift_py r w = (Inr a, v) \<longleftrightarrow> r = Inr a \<and> v = w"
  by (cases r) (auto simp: lift_py_def lift_sum_def)

lemma episode_pages_fetched:
  "episode_pages e m left page pages w = (Inr ps, v) \<Longrightarrow> \<exists>rs. ps = pages @ rs \<and> fetched_pages e m page w rs v"
proof (induction left arbitrary: page pages w)
  case 0
  then show ?case by (simp add: raise_def)
next
  case (Suc left)
  from Suc.prems obtain r u b where got: "get_episodes e m page w = (Inr r, u)"
    and rest: "(if b then episode_pages e m left (page + 1) (pages @ [r]) else ret (pages @ [r])) u = (Inr ps, v)"
    by (auto simp: bnd_eq_Inr lift_py_eq_Inr)
  show ?case
  proof (cases b)
    case True
    with rest Suc.IH [of "page + 1" "pages @ [r]" u] obtain rs where
      "ps = (pages @ [r]) @ rs" "fetched_pages e m (page + 1) u rs v" by auto
    with got show ?thesis by (intro exI [of _ "r # rs"]) (auto simp: get_episodes_def)
  next
    case False
    with rest got show ?thesis by (intro exI [of _ "[r]"]) (auto simp: ret_def get_episodes_def)
  qed
qed

section \<open>Properties\<close>

text \<open>C1. One round of the fetch job is all or nothing.  An exception, whatever its kind, leaves the
  committed database as it was (so no attempt is used); no claimable task leaves everything as it
  was; and otherwise exactly the row of one pending or failed task has changed, to the status the
  round reports (a failure that used up the attempts makes it dead), and the change is committed.\<close>

theorem fetch_one_task:
  assumes "ledger_ok (tasks (cur (wsess w)))"
  shows "case fetch_job_from_tasks e w of
      (Inl x, v) \<Rightarrow> saved (wsess v) = saved (wsess w)
    | (Inr None, v) \<Rightarrow> cur (wsess v) = cur (wsess w) \<and> saved (wsess v) = saved (wsess w)
    | (Inr (Some out), v) \<Rightarrow> saved (wsess v) = cur (wsess v) \<and>
        (\<exists>t. t \<in> set (tasks (cur (wsess w))) \<and> t_status t \<in> {PENDING, FAILED} \<and> o_resource out = t_resource t
           \<and> o_first_try out = (t_attempts t = 0)
           \<and> one_row t (o_status out) (tasks (cur (wsess w))) (tasks (saved (wsess v))))"
  using wp_round [OF assms, of e] unfolding wp_def round_ok_def
  by (auto split: prod.splits sum.splits option.splits)

definition one_task_world :: "(string \<times> string) list world" where
  "one_task_world = start_world [] (empty_db\<lparr>tasks := [new_task 0 (1, DETAILS)]\<rparr>)"

lemma one_task_ok: "ledger_ok (tasks (cur (wsess one_task_world)))" "ledger_ok (tasks (saved (wsess one_task_world)))"
  by (simp_all add: one_task_world_def start_world_def fresh_session_def ledger_ok_def task_ok_new)

theorem fetch_one_task_witness:
  "case fetch_job_from_tasks calm_env one_task_world of
      (Inl x, v) \<Rightarrow> saved (wsess v) = saved (wsess one_task_world)
    | (Inr None, v) \<Rightarrow> cur (wsess v) = cur (wsess one_task_world) \<and> saved (wsess v) = saved (wsess one_task_world)
    | (Inr (Some out), v) \<Rightarrow> saved (wsess v) = cur (wsess v) \<and>
        (\<exists>t. t \<in> set (tasks (cur (wsess one_task_world))) \<and> t_status t \<in> {PENDING, FAILED} \<and> o_resource out = t_resource t
           \<and> o_first_try out = (t_attempts t = 0)
           \<and> one_row t (o_status out) (tasks (cur (wsess one_task_world))) (tasks (saved (wsess v))))"
  by (rule fetch_one_task) (rule one_task_ok)

text \<open>C3. Through a whole run of the fetch job, however it ends, the ledger keeps one row per task with
  attempts, backoff and error text in order, both in the session and committed, and the rows of
  dead and gone tasks are still there unchanged: they are never claimed or marked again.\<close>

theorem fetch_keeps_ledger:
  assumes "ledger_ok (tasks (cur (wsess w)))" and "saved (wsess w) = cur (wsess w)"
    and "fetch_from_tasks e fuel w = (r, v)" and "d = cur (wsess v) \<or> d = saved (wsess v)"
  shows "ledger_ok (tasks d) \<and> filter settled (tasks (cur (wsess w))) = filter (\<lambda>t. t \<in> set (tasks d)) (filter settled (tasks (cur (wsess w))))"
proof -
  let ?S = "tasks (cur (wsess w))"
  have "ledger_kept ?S w"
    using assms(1,2) by (simp add: ledger_kept_def db_inv_def ledger_from_self)
  with assms(3) keeps_kept_run have "ledger_kept ?S v" by (metis keepsD)
  with assms(4) have "ledger_from ?S (tasks d)" by (auto simp: ledger_kept_def db_inv_def)
  then show ?thesis by (auto simp: ledger_from_settled ledger_from_def [of _ "tasks d"] intro!: filter_cong)
qed

theorem fetch_keeps_ledger_witness:
  "ledger_ok (tasks (saved (wsess (snd (fetch_from_tasks calm_env 4 one_task_world)))))"
  using fetch_keeps_ledger [of one_task_world calm_env 4 _ _ "saved (wsess (snd (fetch_from_tasks calm_env 4 one_task_world)))",
      OF one_task_ok(1) _ prod.collapse [symmetric]]
  by (simp add: one_task_world_def start_world_def fresh_session_def)

text \<open>C2. A run of the fetch job ends.  Every round uses up one of the attempts that the pending and
  failed tasks still have (three at most each), so a fuel above their number never runs out: the
  run returns a summary or raises, whatever the source, the store, the clock and the database do.\<close>

theorem fetch_terminates:
  assumes "ledger_ok (tasks (cur (wsess w)))" and "ledger_ok (tasks (saved (wsess w)))"
    and "total_work (tasks (cur (wsess w))) < fuel"
  shows "fst (fetch_from_tasks e fuel w) \<noteq> Inr None"
proof -
  have "ledger_kept [] w" using assms(1,2) by (simp add: ledger_kept_def db_inv_def ledger_from_def)
  from fetch_never_dry [OF this, of fuel e] assms(3) show ?thesis
    by (auto simp: run_work_def wp_def split: prod.splits)
qed

theorem fetch_terminates_witness: "fst (fetch_from_tasks calm_env 4 one_task_world) \<noteq> Inr None"
  by (rule fetch_terminates [OF one_task_ok])
    (simp add: one_task_world_def start_world_def fresh_session_def total_work_def work_left_def new_task_def
      max_attempts_def)

text \<open>C5. Over a whole run of the fetch job, retries and pages included, no window of 60 seconds sees more
  requests let through than the configured requests per minute (rounded up), if the clock is
  monotonic; this holds however long a sleep really takes.\<close>

theorem fetch_respects_rate:
  assumes "mono (mclock e)" and "0 < requests_per_minute e" and "limiter_inv e w"
  shows "int (length (filter (\<lambda>u. a \<le> u \<and> u < a + 60) (stamps (snd (fetch_from_tasks e fuel w)))))
           \<le> \<lceil>requests_per_minute e\<rceil>"
proof (rule spaced_count)
  have "limiter_inv e (snd (fetch_from_tasks e fuel w))"
    using limiter_run [OF assms(1)] assms(3) by (simp add: keeps_def)
  then show "spaced (60 / requests_per_minute e) (stamps (snd (fetch_from_tasks e fuel w)))"
    by (simp add: limiter_inv_def interval_def)
qed (rule assms(2))

theorem fetch_respects_rate_witness:
  "int (length (filter (\<lambda>u. 0 \<le> u \<and> u < 0 + 60) (stamps (snd (fetch_from_tasks calm_env 4 one_task_world))))) \<le> 50"
  using fetch_respects_rate [of calm_env one_task_world 0 4]
  by (simp add: calm_env_def one_task_world_def start_world_def limiter_inv_def mono_def)

text \<open>C4. If every index row points at a stored object, it still does after a run of the fetch job that
  ended in any way: the object is stored before the row that names it is written, so a reader of
  the committed index never meets a missing object.\<close>

theorem fetch_index_backed:
  assumes "s3_laws e stored" and "backed e stored w"
  shows "backed e stored (snd (fetch_from_tasks e fuel w))"
  using backed_run [OF assms(1)] assms(2) by (simp add: keeps_def)

theorem fetch_index_backed_witness:
  "backed calm_env (\<lambda>k objs. k \<in> fst ` set objs) (snd (fetch_from_tasks calm_env 4 one_task_world))"
proof (rule fetch_index_backed)
  show "s3_laws calm_env (\<lambda>k objs. k \<in> fst ` set objs)"
    by (auto simp: s3_laws_def calm_env_def)
  show "backed calm_env (\<lambda>k objs. k \<in> fst ` set objs) one_task_world"
    by (simp add: backed_def rows_backed_def one_task_world_def start_world_def fresh_session_def empty_db_def)
qed

text \<open>C10. The episodes of an anime are fetched whole or not at all: a payload is the list of the answers to
  the requests for page 1, page 2 and so on, between 1 and 100 of them and without a gap, of which
  exactly the last has no next page; nothing else is requested.\<close>

theorem episodes_whole:
  assumes "fetch_episodes e mal_id w = (Inr payload, v)"
  shows "\<exists>pages n. payload = JList pages \<and> length pages = Suc n \<and> n < 100
     \<and> map has_next_page pages = replicate n (Inr True) @ [Inr False]
     \<and> fetched_pages e mal_id 1 w pages v"
proof -
  from assms obtain pages where run: "episode_pages e mal_id max_episode_pages 1 [] w = (Inr pages, v)"
    and "payload = JList pages"
    by (auto simp: fetch_episodes_def bnd_eq_Inr ret_def)
  moreover from wp_Inr [OF run episode_pages_shape] obtain n where "length pages = Suc n" "n < 100"
      "map has_next_page pages = replicate n (Inr True) @ [Inr False]"
    by (auto simp: max_episode_pages_def)
  moreover from episode_pages_fetched [OF run] have "fetched_pages e mal_id 1 w pages v" by simp
  ultimately show ?thesis by blast
qed

definition two_page_env :: "(string \<times> string) list env" where
  "two_page_env = calm_env\<lparr>http := (\<lambda>_ _ params. Response 200 None (Some (JObj
     [(''page'', JStr (the (map_of params ''page''))),
      (''pagination'', JObj [(''has_next_page'', JBool (map_of params ''page'' = Some ''1''))])])))\<rparr>"

definition episode_page :: "string \<Rightarrow> bool \<Rightarrow> json" where
  "episode_page n next_page = JObj [(''page'', JStr n), (''pagination'', JObj [(''has_next_page'', JBool next_page)])]"

theorem episodes_whole_witness:
  "\<exists>pages v. pages = [episode_page ''1'' True, episode_page ''2'' False]
     \<and> fetch_episodes two_page_env 1 one_task_world = (Inr (JList pages), v)
     \<and> fetched_pages two_page_env 1 1 one_task_world pages v"
proof -
  have "fst (fetch_episodes two_page_env 1 one_task_world)
      = Inr (JList [episode_page ''1'' True, episode_page ''2'' False])"
    by code_simp
  then obtain v where v: "fetch_episodes two_page_env 1 one_task_world
      = (Inr (JList [episode_page ''1'' True, episode_page ''2'' False]), v)"
    by (metis prod.collapse)
  with episodes_whole [OF this] show ?thesis by auto
qed

end
