(* ===== verification/Discovery_Correct.thy ===== *)
theory Discovery_Correct
  imports Discovery_Job Fetch_Correct
begin

text \<open>
  The correctness of the discovery job: which tasks a page of the list asks for, what a run may do
  to the ledger, that a list with a page limit ends, and that a failed run is resumed where it
  stopped.
\<close>

section \<open>The rows of a page\<close>

definition accepted :: "json \<Rightarrow> bool" where
  "accepted a \<longleftrightarrow> valid_mal_id (field a ''mal_id'') \<noteq> None
     \<and> excluded_type (field a ''type'') = Inr False"

definition mal_id_of :: "json \<Rightarrow> int" where
  "mal_id_of a = (case valid_mal_id (field a ''mal_id'') of None \<Rightarrow> 0 | Some i \<Rightarrow> i)"

definition wanted_rows :: "resource list \<Rightarrow> json list \<Rightarrow> pairs" where
  "wanted_rows resources anime = concat (map (\<lambda>a. map (Pair (mal_id_of a)) resources) (filter accepted anime))"

definition unnamed :: "json \<Rightarrow> bool" where
  "unnamed a \<longleftrightarrow> valid_mal_id (field a ''mal_id'') = None"

text \<open>An item the loop gets through: a dict, whose type (if it is looked at) can be hashed.\<close>

definition readable :: "json \<Rightarrow> bool" where
  "readable a \<longleftrightarrow> is_dict a \<and> (\<not> unnamed a \<longrightarrow> (\<exists>b. excluded_type (field a ''type'') = Inr b))"

definition tally :: "json list \<Rightarrow> listing \<Rightarrow> listing" where
  "tally anime l = l\<lparr>d_seen := d_seen l + int (length anime),
     d_skipped := d_skipped l + int (length (filter unnamed anime)),
     d_skipped_type := d_skipped_type l + int (length (filter (\<lambda>a. \<not> unnamed a \<and> \<not> accepted a) anime))\<rparr>"

lemma dget_is_dict: "dget j k = Inr v \<Longrightarrow> is_dict j \<and> v = field j k"
  by (cases j) auto

lemma wp_list_one:
  "wp (list_one resources a rows) (\<lambda>rows' l'. readable a \<and> rows' = rows @ wanted_rows resources [a] \<and> l' = tally [a] l)
     (\<lambda>_ _. True) l"
  by (auto simp: list_one_def wp_simps wanted_rows_def tally_def accepted_def unnamed_def mal_id_of_def readable_def
      split: sum.split option.split dest!: dget_is_dict)

lemma wp_list_all_of:
  "wp (list_all_of resources anime rows)
     (\<lambda>rows' l'. list_all readable anime \<and> rows' = rows @ wanted_rows resources anime \<and> l' = tally anime l)
     (\<lambda>_ _. True) l"
proof (induction anime arbitrary: rows l)
  case Nil
  then show ?case by (simp add: wp_simps wanted_rows_def tally_def)
next
  case (Cons a anime)
  show ?case
    by (simp add: wp_simps, rule wp_mono [OF wp_list_one], rule wp_mono [OF Cons.IH])
      (auto simp: wanted_rows_def tally_def)
qed

lemma iterate_dicts:
  assumes "truthy j" "iterate j = Inr xs" "list_all readable xs" shows "list_items j = xs"
  using assms by (cases j) (auto simp: list_all_iff neq_Nil_conv readable_def)

lemma wp_page_rows:
  "wp (page_rows resources result) (\<lambda>rows l'. let anime = list_items (field result ''data'') in
     is_dict result \<and> list_all readable anime \<and> rows = uniq (wanted_rows resources anime) \<and> l' = tally anime l)
     (\<lambda>_ _. True) l"
proof (cases "dget result ''data''")
  case (Inl x)
  then show ?thesis by (simp add: page_rows_def wp_simps)
next
  case (Inr items)
  then have items: "is_dict result" "items = field result ''data''" by (auto dest: dget_is_dict)
  show ?thesis
  proof (cases "truthy items")
    case True
    show ?thesis
    proof (cases "iterate items")
      case xs: (Inr xs)
      show ?thesis
        by (simp add: page_rows_def wp_simps Inr True xs del: dget_dict, rule wp_mono [OF wp_list_all_of])
          (use items True xs in \<open>auto simp: Let_def iterate_dicts\<close>)
    qed (simp add: page_rows_def wp_simps Inr True del: dget_dict)
  next
    case False
    then have "list_items items = []" by (cases items) auto
    with items False Inr show ?thesis
      by (simp add: page_rows_def wp_simps wanted_rows_def tally_def)
  qed
qed

section \<open>What a run leaves alone\<close>

lemma keeps_on_listing [keeps_rules]: "keeps (of_world P) (on_listing m)"
  by (simp add: keeps_def on_listing_def of_world_def split: prod.split)

lemma keeps_session_listing [keeps_rules]:
  "keeps (session_is se) (listing_metrics_since e t l)"
  "keeps (session_is se) (latest_run e job)" "keeps (session_is se) (resume_page e job)"
  unfolding listing_metrics_since_def resume_page_def
  by (auto intro!: keeps_rules of_session_metrics_blind)

lemma off_session_listing:
  assumes "of_session P"
  shows "keeps P (list_anime e n fs)" "keeps P (listing_metrics_since e t l)" "keeps P (resume_page e job)"
    "keeps P (utc_now e)" "keeps P (monotonic e)"
  by (rule keeps_of_session [OF _ assms], (auto intro!: keeps_rules)[1])+

text \<open>
  A predicate of the session that the page's statement and the commit keep, every run keeps,
  however it ends.
\<close>

definition page_keeps :: "('s world \<Rightarrow> bool) \<Rightarrow> 's env \<Rightarrow> bool \<Rightarrow> bool" where
  "page_keeps P e reset_existing \<longleftrightarrow> of_session P \<and> keeps P (commit_work e)
     \<and> (\<forall>rows. if reset_existing then keeps P (insert_or_reset_tasks e rows) else keeps P (insert_tasks e rows))"

lemma keeps_discover_page:
  assumes "page_keeps P e reset_existing"
  shows "keeps (of_world P) (discover_page e start started params resources reset_existing mp u)"
proof -
  have store: "keeps (of_world P) (store_page e reset_existing rows)" for rows
    using assms unfolding store_page_def page_keeps_def by (auto intro!: keeps_rules)
  show ?thesis
    using assms unfolding discover_page_def page_keeps_def
    by (auto intro!: keeps_bnd keeps_if keeps_ret keeps_lifted keeps_locals keeps_local keeps_on_listing
        store keeps_look keeps_lift_py off_session_listing)
qed

lemma keeps_discovery_run:
  assumes "page_keeps P e reset_existing"
  shows "keeps P (discovery_run e fuel job page filters resources reset_existing mp)"
  using assms unfolding discovery_run_def Let_def discovery_failed_def discovery_finished_def
  by (auto simp: page_keeps_def intro!: keeps_bnd keeps_ret keeps_raise keeps_look keeps_case_sum
      keeps_case_option keeps_case_prod
      keeps_with_locals keeps_loop keeps_discover_page [OF assms] off_session_listing off_session_run)

lemma keeps_refresh_list:
  assumes "page_keeps P e True"
  shows "keeps P (refresh_list e fuel job key filters resources mp)"
  using assms unfolding refresh_list_def Let_def
  by (auto simp: page_keeps_def intro!: keeps_bnd keeps_discovery_run [OF assms] off_session_listing)

lemma keeps_reset_chunks:
  "page_keeps P e True \<Longrightarrow> keeps P (reset_chunks e cs i r)"
  by (induction cs arbitrary: i r) (auto simp: page_keeps_def intro!: keeps_bnd keeps_ret)

lemma keeps_and_then: "keeps P m \<Longrightarrow> (\<And>j. keeps P (k j)) \<Longrightarrow> keeps P (and_then m k)"
  unfolding and_then_def by (auto intro!: keeps_bnd keeps_case_option)

text \<open>A program that keeps a predicate also keeps it where reading the catalogue does.\<close>

lemma keeps_weekly:
  assumes "page_keeps P e True" and "\<And>xs. keeps P (anime_ids_with_status e xs)"
  shows "keeps P (run_job_weekly e fuel has_catalogue job resources)"
  using assms unfolding run_job_weekly_def reset_active_from_catalogue_def Let_def
  by (auto simp: page_keeps_def intro!: keeps_if keeps_raise keeps_ret keeps_and_then keeps_bnd
      keeps_refresh_list [OF assms(1)] keeps_reset_chunks [OF assms(1)])

lemma keeps_monthly:
  assumes "page_keeps P e True"
  shows "keeps P (run_job_monthly e fuel job resources)"
  unfolding run_job_monthly_def Let_def
  by (intro keeps_bnd keeps_ret keeps_and_then keeps_refresh_list [OF assms] off_session_listing)
    (use assms in \<open>simp add: page_keeps_def\<close>)

section \<open>The ledger\<close>

lemma insert_rows_stay:
  assumes "ledger_ok ts" and "insert_rows rows now ts = Inr (n, ts')"
  shows "ledger_ok ts' \<and> (\<exists>new. ts' = ts @ new \<and> (\<forall>t\<in>set new. t_status t = PENDING))"
proof -
  have "ledger_from [] ts'" by (rule insert_rows_from [OF _ assms(2)]) (simp add: ledger_from_def assms(1))
  then have "ledger_ok ts'" by (simp add: ledger_from_def)
  moreover have "ts' = foldl (insert_one now) ts rows"
    using assms(2) by (simp add: insert_rows_def Let_def split: if_splits)
  then obtain xs where "ts' = ts @ map (new_task now) xs" using insert_run by metis
  moreover have "\<forall>t\<in>set (map (new_task now) xs). t_status t = PENDING" by (simp add: new_task_def)
  ultimately show ?thesis by blast
qed

definition grown :: "ledger \<Rightarrow> ledger \<Rightarrow> bool" where
  "grown S ts \<longleftrightarrow> ledger_ok ts \<and> (\<exists>new. ts = S @ new \<and> (\<forall>t\<in>set new. t_status t = PENDING))"

definition rows_stay :: "ledger \<Rightarrow> 's world \<Rightarrow> bool" where
  "rows_stay S = db_inv (\<lambda>d. grown S (tasks d))"

lemma insert_rows_grown:
  assumes "grown S ts" and "insert_rows rows now ts = Inr (n, ts')"
  shows "grown S ts'"
proof -
  have ok: "ledger_ok ts" using assms(1) by (simp add: grown_def)
  from assms(1) obtain new where "ts = S @ new" "\<forall>t\<in>set new. t_status t = PENDING"
    by (auto simp: grown_def)
  moreover from insert_rows_stay [OF ok assms(2)] obtain more where "ts' = ts @ more"
    "\<forall>t\<in>set more. t_status t = PENDING" "ledger_ok ts'" by blast
  ultimately have "ts' = S @ (new @ more)" "\<forall>t\<in>set (new @ more). t_status t = PENDING" "ledger_ok ts'"
    by auto
  then show ?thesis unfolding grown_def by blast
qed

lemma page_keeps_rows_stay: "page_keeps (rows_stay S) e False"
proof -
  have "keeps (rows_stay S) (insert_tasks e rows)" for rows
    unfolding rows_stay_def insert_tasks_def
    by (intro keeps_if keeps_ret keeps_db_inv_exec stmt_keeps_on_tasks)
      (simp, erule (1) insert_rows_grown)
  moreover have "of_session (rows_stay S)" "keeps (rows_stay S) (commit_work e)"
    by (simp_all add: rows_stay_def keeps_db_inv_commit)
  ultimately show ?thesis by (simp add: page_keeps_def)
qed

lemma page_keeps_ledger: "page_keeps (ledger_kept S) e True"
  by (auto simp: page_keeps_def keeps_insert_or_reset_tasks keeps_kept_session)

lemma keeps_kept_catalogue: "keeps (ledger_kept S) (anime_ids_with_status e xs)"
  by (auto simp: ledger_kept_def anime_ids_with_status_def cat_query_def intro!: keeps_rules)

section \<open>A list with a page limit ends\<close>

definition page_is :: "int \<Rightarrow> 's world \<times> listing \<Rightarrow> bool" where
  "page_is n = (\<lambda>(w, l). d_page l = n)"

lemma keeps_page_lifted: "keeps (page_is n) (lifted m)"
  by (simp add: keeps_def page_is_def lifted_def split: prod.split)

lemma keeps_page_rows: "keeps (\<lambda>l. d_page l = n) (page_rows resources result)"
proof -
  have one: "keeps (\<lambda>l. d_page l = n) (list_one resources a rows)" for a rows
    unfolding list_one_def by (auto intro!: keeps_rules)
  have "keeps (\<lambda>l. d_page l = n) (list_all_of resources anime rows)" for anime rows
    by (induction anime arbitrary: rows) (auto intro!: keeps_rules one)
  then show ?thesis unfolding page_rows_def by (auto intro!: keeps_rules)
qed

lemma keeps_page_listing: "keeps (page_is n) (on_listing (page_rows resources result))"
  using keeps_page_rows [of n resources result]
  by (simp add: keeps_def on_listing_def page_is_def split: prod.split) (metis snd_conv)

lemma keeps_page_locals: "(\<And>l. d_page (f l) = d_page l) \<Longrightarrow> keeps (page_is n) (locals f)"
  by (auto simp: locals_def page_is_def intro!: keeps_update)

lemma keeps_page_store: "keeps (page_is n) (store_page e reset_existing rows)"
  unfolding store_page_def by (auto intro!: keeps_rules keeps_page_lifted keeps_page_locals)

lemma wp_discover_page:
  assumes "page_is n s"
  shows "wp (discover_page e start started params resources reset_existing mp u)
    (\<lambda>r t. case r of Inl _ \<Rightarrow> page_is (n + 1) t \<and> (case mp of None \<Rightarrow> True | Some m \<Rightarrow> m = 0 \<or> n < m) | Inr _ \<Rightarrow> True)
    (\<lambda>_ _. True) s"
proof -
  have lift: "wp (lifted m) Q (\<lambda>_ _. True) s" if "page_is n s" "\<And>a t. page_is n t \<Longrightarrow> Q a t" for m Q s
    by (rule wp_kept [where P = "page_is n", OF keeps_page_lifted that(1)]) (use that(2) in simp_all)
  have store: "wp (store_page e reset_existing rows) Q (\<lambda>_ _. True) s"
    if "page_is n s" "\<And>a t. page_is n t \<Longrightarrow> Q a t" for rows Q s
    by (rule wp_kept [where P = "page_is n", OF keeps_page_store that(1)]) (use that(2) in simp_all)
  have rows: "wp (on_listing (page_rows resources result)) Q (\<lambda>_ _. True) s"
    if "page_is n s" "\<And>a t. page_is n t \<Longrightarrow> Q a t" for result Q s
    by (rule wp_kept [where P = "page_is n", OF keeps_page_listing that(1)]) (use that(2) in simp_all)
  have set_local: "wp (locals f) Q (\<lambda>_ _. True) s"
    if "page_is n s" "\<And>l. d_page (f l) = d_page l" "\<And>a t. page_is n t \<Longrightarrow> Q a t" for f Q s
    by (rule wp_kept [where P = "page_is n", OF keeps_page_locals that(1)]) (use that(2,3) in simp_all)
  have get_local: "wp (local f) Q E s" if "\<And>l. d_page l = n \<Longrightarrow> Q (f l) s" "page_is n s" for f Q E s
    using that by (cases s) (simp add: wp_local page_is_def)
  have progress: "wp (if c then bnd (lifted m) (\<lambda>_. ret ()) else ret ()) Q (\<lambda>_ _. True) s"
    if "page_is n s" "\<And>a t. page_is n t \<Longrightarrow> Q a t" for c m Q s
    by (cases c) (use that in \<open>auto simp: wp_bnd wp_ret intro!: lift\<close>)
  have final: "wp (locals (\<lambda>l. l\<lparr>d_page := d_page l + 1\<rparr>)) Q E s"
    if "page_is n s" "\<And>t. page_is (n + 1) t \<Longrightarrow> Q () t" for Q E s
    using that by (cases s) (simp add: wp_locals page_is_def)
  show ?thesis
    unfolding discover_page_def wp_bnd
    apply (rule lift [OF assms])
    apply (rule get_local)
     apply (rule lift, assumption)
     apply (rule lift, assumption)
     apply (rule set_local, assumption, simp)
     apply (rule lift, assumption)
     apply (rule rows, assumption)
     apply (rule lift, assumption)
     apply (rule store, assumption)
     apply (rule lift, assumption)
     apply (rule lift, assumption)
     apply (rule lift, assumption)
     apply (rule set_local, assumption, simp)
     apply (rule get_local)
      apply (rule progress, assumption)
      apply (rule final, assumption)
      apply (auto simp: wp_ret goes_on_def split: option.splits)
    done
qed

interpretation limited: draining "discover_page e start started params resources reset_existing (Some m)"
    "\<lambda>_ _. 0 < m" "\<lambda>_ s. nat (m - d_page (snd s))"
  for e :: "'s env" and start started params resources reset_existing m
proof unfold_locales
  fix a a' :: unit and s t :: "'s world \<times> listing"
  assume m: "0 < m" and run: "discover_page e start started params resources reset_existing (Some m) a s = (Inr (Inl a'), t)"
  have "page_is (d_page (snd s)) s" by (simp add: page_is_def split_beta)
  from wp_Inr [OF run wp_discover_page [OF this]] m
  show "0 < m \<and> nat (m - d_page (snd t)) < nat (m - d_page (snd s))"
    by (auto simp: page_is_def split_beta)
qed

section \<open>The record of a failed run\<close>

lemma newest_map:
  assumes "\<And>r. r_id (f r) = r_id r" shows "newest (map f rs) = map_option f (newest rs)"
  by (induction rs) (auto simp: assms split: option.split)

lemma latest_of_map:
  assumes "\<And>r. r_id (f r) = r_id r" and "\<And>r. r_job (f r) = r_job r"
  shows "latest_of job (map f rs) = map_option f (latest_of job rs)"
  by (simp add: latest_of_def filter_map comp_def assms newest_map)

lemma map_of_put_all: "map_of (put_all new d) k = (case map_of (rev new) k of None \<Rightarrow> map_of d k | Some v \<Rightarrow> Some v)"
proof (induction new rule: rev_induct)
  case (snoc kv new)
  then show ?case by (cases kv) (simp add: put_all_def update_conv')
qed (simp add: put_all_def)

lemma failed_summary:
  "field (JObj (put_all ([(''failed_page'', JInt p), (''resume_page'', JInt p)] @ request_counters start w) failed)) ''resume_page''
     = JInt p"
  by (cases start) (simp add: map_of_put_all request_counters_def)

lemma put_all_not_empty: "new \<noteq> [] \<Longrightarrow> put_all new d \<noteq> []"
proof (induction new rule: rev_induct)
  case (snoc kv new)
  have "AList.update k v d' \<noteq> []" for k v and d' :: "(string, json) dict"
    by (cases d') auto
  then show ?case by (cases kv) (simp add: put_all_def)
qed simp

text \<open>When the database answers, the run is recorded and committed.\<close>

definition calm :: "'s env \<Rightarrow> bool" where
  "calm e \<longleftrightarrow> (\<forall>n. db_fault e n = None)"

definition finished_as :: "nat \<Rightarrow> run_status \<Rightarrow> datetime \<Rightarrow> json \<Rightarrow> string option \<Rightarrow> ingestion_run \<Rightarrow> ingestion_run" where
  "finished_as i status now summary error r = (if r_id r = i
     then r\<lparr>r_status := status, r_finished_at := Some now, r_summary := Some summary, r_error := trimmed error\<rparr> else r)"

lemma finished_as_keys [simp]:
  "r_id (finished_as i st now sm err r) = r_id r" "r_job (finished_as i st now sm err r) = r_job r"
  "r_started_at (finished_as i st now sm err r) = r_started_at r"
  by (simp_all add: finished_as_def)

lemma wp_exec_metrics_calm:
  assumes "calm e" and "\<not> broken (msess w)"
    and "\<And>now n. Q a (w\<lparr>steps := n, msess := (msess w)\<lparr>tx_time := Some now, cur := d\<rparr>\<rparr>)"
    and "\<And>now. stmt now (cur (msess w)) = Inr (a, d)"
  shows "wp (exec_metrics e stmt) Q E w"
  using assms unfolding exec_metrics_def wp_bnd wp_tick
  by (simp add: wp_def calm_def sess_exec_def Let_def)

lemma wp_commit_metrics_calm:
  assumes "calm e" and "\<not> broken (msess w)"
    and "\<And>v. cur (msess v) = cur (msess w) \<Longrightarrow> \<not> broken (msess v) \<Longrightarrow> slept v = slept w \<Longrightarrow> Q () v"
  shows "wp (commit_metrics e) Q E w"
  using assms(1,2) unfolding commit_metrics_def wp_bnd wp_tick
  by (simp add: wp_def sess_commit_def calm_def) (rule assms(3), simp_all)

lemma wp_record_run_calm:
  assumes "calm e" and "\<not> broken (msess w)"
    and "\<And>now v. cur (msess v) = map (finished_as i st now sm err) (cur (msess w)) \<Longrightarrow> \<not> broken (msess v)
           \<Longrightarrow> slept v = slept w \<Longrightarrow> Q () v"
  shows "wp (record_run e i st sm err) Q E w"
  unfolding record_run_def finish_run_def utc_now_def wp_handle wp_bnd wp_tick wp_look
  by (rule wp_exec_metrics_calm, rule assms(1), simp add: assms(2),
      rule wp_commit_metrics_calm, rule assms(1), simp add: assms(2),
      rule assms(3) [where now = "utc e (steps w) + micros (slept (w\<lparr>steps := Suc (steps w)\<rparr>))"],
      simp_all add: finished_as_def [abs_def])

lemma wp_resume_page:
  assumes "calm e" and "\<not> broken (msess w)" and "latest_of job (cur (msess w)) = Some r"
    and "r_status r = RUN_FAILED" and "r_summary r = Some sm" and "truthy sm"
    and "\<And>n. utc e n + micros (slept w) - r_started_at r \<le> resume_max_age" and "resume_of sm = Inr page"
  shows "wp (resume_page e job) (\<lambda>p _. p = page) (\<lambda>_ _. False) w"
  unfolding resume_page_def latest_run_def wp_bnd
proof (rule wp_exec_metrics_calm [OF assms(1,2)])
  show "query (latest_of job) now (cur (msess w)) = Inr (Some r, cur (msess w))" for now
    by (simp add: query_def assms(3))
  have "\<not> resume_max_age < utc e n + micros (slept w) - r_started_at r" for n
    using assms(7) [of n] by simp
  then show "wp (case Some r of None \<Rightarrow> ret 1
      | Some r \<Rightarrow> (case r_summary r of None \<Rightarrow> ret 1
        | Some summary \<Rightarrow> if \<not> (r_status r = RUN_FAILED \<and> truthy summary) then ret 1
            else bnd (utc_now e) (\<lambda>now. if resume_max_age < now - r_started_at r then ret 1 else lift_py (resume_of summary))))
      (\<lambda>p _. p = page) (\<lambda>_ _. False) (w\<lparr>steps := n, msess := (msess w)\<lparr>tx_time := Some now, cur := cur (msess w)\<rparr>\<rparr>)" for n now
    using assms(4-6,8) by (simp add: utc_now_def wp_simps lift_py_def)
qed

section \<open>Properties\<close>

text \<open>C11. A page of the list asks for exactly the tasks of a plain reading of it: every item that has a
  positive integer mal_id (booleans do not count) and no excluded type, in order, with each of the
  job's resources, a repeated anime once; and the counts of seen, skipped and filtered items add up.\<close>

theorem listed_rows:
  assumes "page_rows resources result l = (Inr rows, l')"
  shows "let anime = list_items (field result ''data'');
             named = filter (\<lambda>a. \<exists>i>0. field a ''mal_id'' = JInt i) anime;
             kept = filter (\<lambda>a. \<forall>ty\<in>set excluded_types. field a ''type'' \<noteq> JStr ty) named
         in rows = uniq (concat (map (\<lambda>a. map (Pair (mal_id_of a)) resources) kept))
            \<and> (\<forall>(i, r)\<in>set rows. 0 < i)
            \<and> d_seen l' = d_seen l + int (length anime)
            \<and> d_skipped l' - d_skipped l + (d_skipped_type l' - d_skipped_type l) + int (length kept) = int (length anime)"
proof -
  let ?anime = "list_items (field result ''data'')"
  have named: "(\<exists>i>0. field a ''mal_id'' = JInt i) = (\<not> unnamed a)" for a
    by (cases "field a ''mal_id''") (auto simp: unnamed_def)
  have l': "list_all readable ?anime" "rows = uniq (wanted_rows resources ?anime)" "l' = tally ?anime l"
    using wp_Inr [OF assms wp_page_rows] by (simp_all add: Let_def)
  have kept: "filter (\<lambda>a. \<forall>ty\<in>set excluded_types. field a ''type'' \<noteq> JStr ty) (filter (\<lambda>a. \<not> unnamed a) ?anime)
      = filter accepted ?anime"
    if ok: "\<And>a. a \<in> set ?anime \<Longrightarrow> \<not> unnamed a \<Longrightarrow> \<exists>b. excluded_type (field a ''type'') = Inr b"
  proof -
    have "accepted a \<longleftrightarrow> \<not> unnamed a \<and> (\<forall>ty\<in>set excluded_types. field a ''type'' \<noteq> JStr ty)"
      if "a \<in> set ?anime" for a
    proof (cases "unnamed a")
      case False
      with ok [OF that] show ?thesis by (cases "field a ''type''") (auto simp: accepted_def unnamed_def)
    qed (simp add: accepted_def unnamed_def)
    then show ?thesis by (auto intro!: filter_cong)
  qed
  have kept: "filter (\<lambda>a. \<forall>ty\<in>set excluded_types. field a ''type'' \<noteq> JStr ty) (filter (\<lambda>a. \<not> unnamed a) ?anime)
      = filter accepted ?anime"
    by (rule kept) (use l'(1) in \<open>auto simp: list_all_iff readable_def\<close>)
  have "0 < mal_id_of a" if "accepted a" for a
    using that by (cases "field a ''mal_id''") (auto simp: accepted_def mal_id_of_def split: if_splits)
  then have "\<forall>(i, r)\<in>set rows. 0 < i"
    by (auto simp: l'(2) wanted_rows_def)
  moreover have "int (length (filter unnamed xs)) + int (length (filter (\<lambda>a. \<not> unnamed a \<and> \<not> accepted a) xs))
      + int (length (filter accepted xs)) = int (length xs)" for xs
    by (induction xs) (auto simp: accepted_def unnamed_def)
  note this [of ?anime]
  ultimately show ?thesis
    unfolding named Let_def kept by (simp add: l'(2,3) wanted_rows_def tally_def)
qed

definition frieren :: json where
  "frieren = JObj [(''mal_id'', JInt 52991), (''type'', JStr ''TV'')]"

theorem listed_rows_witness:
  "\<exists>rows l'. page_rows [DETAILS] (JObj [(''data'', JList [frieren, JObj [], frieren])]) (new_listing 1) = (Inr rows, l')
     \<and> d_seen l' = 3 \<and> (\<forall>(i, r)\<in>set rows. 0 < i)"
proof -
  let ?run = "page_rows [DETAILS] (JObj [(''data'', JList [frieren, JObj [], frieren])]) (new_listing 1)"
  have "fst ?run = Inr [(52991, DETAILS)]" by code_simp
  then obtain l' where run: "?run = (Inr [(52991, DETAILS)], l')" by (metis prod.collapse)
  have "d_seen l' = d_seen (new_listing 1) + int (length (list_items (field (JObj [(''data'', JList [frieren, JObj [], frieren])]) ''data'')))"
    using listed_rows [OF run] unfolding Let_def by blast
  then have "d_seen l' = 3" by (simp add: new_listing_def)
  with run show ?thesis by auto
qed

text \<open>C12. The overall discovery never touches a task that exists: after a run that ended in any way, the
  ledger (committed and in the session) is the old one, row by row, followed by new pending tasks,
  one per (mal_id, resource).\<close>

theorem overall_only_adds:
  assumes "ledger_ok (tasks (cur (wsess w)))" and "saved (wsess w) = cur (wsess w)"
    and "run_job_overall e fuel page w = (r, v)" and "d = cur (wsess v) \<or> d = saved (wsess v)"
  shows "ledger_ok (tasks d) \<and> take (length (tasks (cur (wsess w)))) (tasks d) = tasks (cur (wsess w))
     \<and> list_all (\<lambda>t. t_status t = PENDING) (drop (length (tasks (cur (wsess w)))) (tasks d))"
proof -
  let ?S = "tasks (cur (wsess w))"
  have "rows_stay ?S w" using assms(1,2) by (simp add: rows_stay_def grown_def db_inv_def)
  then have "rows_stay ?S v"
    by (rule keepsD [OF keeps_discovery_run [OF page_keeps_rows_stay] assms(3) [unfolded run_job_overall_def]])
  with assms(4) have "grown ?S (tasks d)" by (auto simp: rows_stay_def db_inv_def)
  then obtain new where "ledger_ok (tasks d)" "tasks d = ?S @ new" "\<forall>t\<in>set new. t_status t = PENDING"
    by (auto simp: grown_def)
  then show ?thesis by (simp add: list_all_iff)
qed

theorem overall_only_adds_witness:
  "take 1 (tasks (saved (wsess (snd (run_job_overall calm_env 3 1 one_task_world))))) = [new_task 0 (1, DETAILS)]"
  using overall_only_adds [of one_task_world calm_env 3 1 _ _
      "saved (wsess (snd (run_job_overall calm_env 3 1 one_task_world)))", OF one_task_ok(1) _ prod.collapse [symmetric]]
  by (simp add: one_task_world_def start_world_def fresh_session_def)

text \<open>C13. The weekly and the monthly refresh, however they end, keep the ledger in order and give no
  second life to dead or gone tasks: their rows are still there, unchanged.\<close>

theorem refresh_keeps_settled:
  assumes "ledger_ok (tasks (cur (wsess w)))" and "saved (wsess w) = cur (wsess w)"
    and "run_job_weekly e fuel has_catalogue job resources w = (r, v)
       \<or> run_job_monthly e fuel job resources w = (r, v)"
    and "d = cur (wsess v) \<or> d = saved (wsess v)"
  shows "ledger_ok (tasks d) \<and> set (filter settled (tasks (cur (wsess w)))) \<subseteq> set (tasks d)"
proof -
  let ?S = "tasks (cur (wsess w))"
  have "ledger_kept ?S w"
    using assms(1,2) by (simp add: ledger_kept_def db_inv_def ledger_from_self)
  with assms(3) have "ledger_kept ?S v"
    using keepsD [OF keeps_weekly [OF page_keeps_ledger keeps_kept_catalogue]]
      keepsD [OF keeps_monthly [OF page_keeps_ledger]] by blast
  with assms(4) have "ledger_from ?S (tasks d)" by (auto simp: ledger_kept_def db_inv_def)
  then show ?thesis using ledger_from_settled by (auto simp: ledger_from_def [of _ "tasks d"])
qed

definition dead_world :: "(string \<times> string) list world" where
  "dead_world = start_world [] (empty_db\<lparr>tasks := [(new_task 0 (1, DETAILS))\<lparr>t_status := DEAD\<rparr>]\<rparr>)"

theorem refresh_keeps_settled_witness:
  "(new_task 0 (1, DETAILS))\<lparr>t_status := DEAD\<rparr>
     \<in> set (tasks (saved (wsess (snd (run_job_monthly calm_env 3 monthly_job_name monthly_resources dead_world)))))"
  using refresh_keeps_settled [of dead_world calm_env 3 True monthly_job_name monthly_resources
      "fst (run_job_monthly calm_env 3 monthly_job_name monthly_resources dead_world)"
      "snd (run_job_monthly calm_env 3 monthly_job_name monthly_resources dead_world)"
      "saved (wsess (snd (run_job_monthly calm_env 3 monthly_job_name monthly_resources dead_world)))"]
  by (simp add: dead_world_def start_world_def fresh_session_def ledger_ok_def task_ok_def new_task_def
      max_attempts_def settled_def)

text \<open>C14. A list with a page limit (the popular list of the monthly refresh) ends: from page p with limit
  m, m - p + 1 rounds (or one) are enough fuel, whatever Tenrai says about a next page.\<close>

theorem limited_list_ends:
  assumes "0 < m" and "m - page < int fuel" and "0 < fuel"
  shows "fst (discovery_run e fuel job page filters resources reset_existing (Some m) w) \<noteq> Inr None"
proof -
  have failed: "wp (discovery_failed e start started i x l) Q (\<lambda>_ _. True) v" for start started i x l v
    and Q :: "json option \<Rightarrow> 's world \<Rightarrow> bool" and e :: "'s env"
    unfolding discovery_failed_def wp_bnd by (rule wp_any, rule wp_any, rule wp_any) (simp only: wp_raise)
  have finished: "wp (bnd (discovery_finished e start started i l) (\<lambda>sm. ret (Some sm))) (\<lambda>r _. r \<noteq> None) (\<lambda>_ _. True) v"
    for start started i l v and e :: "'s env"
    unfolding wp_bnd by (rule wp_any) (simp add: wp_ret)
  have loop: "wp (with_locals (new_listing page)
        (loop fuel (discover_page e start started params resources reset_existing (Some m)) ()))
      (\<lambda>(r, l). wp (case r of
          Inl x \<Rightarrow> discovery_failed e start started i x l
        | Inr None \<Rightarrow> ret None
        | Inr (Some _) \<Rightarrow> bnd (discovery_finished e start started i l) (\<lambda>sm. ret (Some sm)))
        (\<lambda>r _. r \<noteq> None) (\<lambda>_ _. True)) (\<lambda>_ _. True) v" for start started params i v and e :: "'s env"
    unfolding wp_with_locals
  proof (rule wpI, goal_cases)
    case (1 r t)
    have "nat (m - d_page (snd (v, new_listing page))) < fuel"
      using assms(2,3) by (simp add: new_listing_def)
    note never = limited.never_dry [OF assms(1) this, of e start started params resources reset_existing "()" t]
    have "r \<noteq> None"
    proof
      assume "r = None"
      with 1 never show False by simp
    qed
    then show ?case by (cases t) (auto simp: finished simp del: not_None_eq)
  qed (auto simp: failed split: prod.split)
  have "wp (discovery_run e fuel job page filters resources reset_existing (Some m)) (\<lambda>r _. r \<noteq> None) (\<lambda>_ _. True) w"
    unfolding discovery_run_def Let_def wp_bnd
    by (rule wp_any, rule wp_any, rule wp_any, rule wp_any) (rule wp_mono [OF loop], auto)
  then show ?thesis by (auto simp: wp_def split: prod.splits)
qed

theorem limited_list_ends_witness:
  "fst (discovery_run calm_env 6 ''popular'' 1 [] monthly_resources True (Some popular_pages) one_task_world) \<noteq> Inr None"
  by (rule limited_list_ends) (simp_all add: popular_pages_def popular_anime_def list_page_size_def)

text \<open>C15. A failed run is resumed exactly where it stopped: when the database answers, the page that the
  failing run writes to the history is the page `_resume_page` reads back from it (if this run is
  the job's newest and started within 24 hours).\<close>

theorem failed_run_resumes:
  assumes "calm e" and "\<not> broken (msess w)" and "latest_of job (cur (msess w)) = Some run"
    and "d_page l \<noteq> 0" and "d_pages l = 0 \<or> (\<exists>m. listing_metrics (mclock e (steps w) + slept w - started) l = Inr m)"
    and "\<And>n. utc e n + micros (slept w) - r_started_at run \<le> resume_max_age"
    and "discovery_failed e start started (r_id run) x l w = (Inl x', v)"
  shows "x' = x \<and> fst (resume_page e job v) = Inr (d_page l)"
proof -
  let ?elapsed = "mclock e (steps w) + slept w - started"
  obtain failed where failed: "listing_metrics ?elapsed l = Inr failed"
    using assms(5) by (auto simp: listing_metrics_def)
  have "wp (discovery_failed e start started (r_id run) x l) (\<lambda>_ _. False)
     (\<lambda>x' v. x' = x \<and> wp (resume_page e job) (\<lambda>p _. p = d_page l) (\<lambda>_ _. False) v) w"
    unfolding discovery_failed_def listing_metrics_since_def monotonic_def wp_bnd wp_tick wp_look
  proof (simp add: lift_py_def failed wp_simps, rule wp_record_run_calm, rule assms(1), simp add: assms(2), goal_cases)
    case (1 now u)
    let ?sm = "JObj (put_all ((''failed_page'', JInt (d_page l)) # (''resume_page'', JInt (d_page l))
      # request_counters start (w\<lparr>steps := Suc (steps w)\<rparr>)) failed)"
    have newest: "latest_of job (cur (msess u))
        = Some (finished_as (r_id run) RUN_FAILED now ?sm (Some (describe x)) run)"
      by (simp add: 1 latest_of_map assms(3))
    have page: "resume_of ?sm = Inr (d_page l)"
      using failed_summary [of "d_page l" start "w\<lparr>steps := Suc (steps w)\<rparr>" failed] assms(4)
      by (simp add: resume_of_def py_or_def)
    have "wp (resume_page e job) (\<lambda>p _. p = d_page l) (\<lambda>_ _. False) u"
      by (rule wp_resume_page [OF assms(1) 1(2) newest _ _ _ _ page])
        (use assms(6) 1(3) in \<open>simp_all add: finished_as_def put_all_not_empty\<close>)
    then show ?case by (simp add: wp_simps)
  qed
  from wp_Inl [OF assms(7) this] show ?thesis
    by (auto simp: wp_def split: prod.splits sum.splits)
qed

definition stopped_world :: "(string \<times> string) list world" where
  "stopped_world = (start_world [] empty_db)\<lparr>msess := fresh_session [new_run 7 ''job'' 0]\<rparr>"

theorem failed_run_resumes_witness:
  "let e = calm_env\<lparr>utc := \<lambda>_. 0\<rparr>;
       v = snd (discovery_failed e (0, 0, 0) 0 7 Interrupted (new_listing 3) stopped_world :: (ingest_exn + unit) \<times> _)
   in fst (resume_page e ''job'' v) = Inr 3"
proof -
  let ?e = "calm_env\<lparr>utc := \<lambda>_. 0\<rparr>"
  let ?run = "discovery_failed ?e (0, 0, 0) 0 7 Interrupted (new_listing 3) stopped_world :: (ingest_exn + unit) \<times> _"
  have stop: "wp (discovery_failed ?e (0, 0, 0) 0 7 Interrupted (new_listing 3)) (\<lambda>_ :: unit. \<lambda>_. False) (\<lambda>_ _. True) stopped_world"
    unfolding discovery_failed_def wp_bnd by (rule wp_any, rule wp_any, rule wp_any) (simp only: wp_raise)
  obtain r v where run: "?run = (r, v)" by fastforce
  from stop have "case r of Inl _ \<Rightarrow> True | Inr _ \<Rightarrow> False" by (simp add: wp_def run split: sum.splits)
  with run obtain x where x: "(discovery_failed ?e (0, 0, 0) 0 (r_id (new_run 7 ''job'' 0)) Interrupted
      (new_listing 3) stopped_world :: (ingest_exn + unit) \<times> _) = (Inl x, v)"
    by (cases r) (auto simp: new_run_def)
  have "x = Interrupted \<and> fst (resume_page ?e ''job'' v) = Inr (d_page (new_listing 3))"
    by (rule failed_run_resumes [OF _ _ _ _ _ _ x])
      (simp_all add: calm_def calm_env_def stopped_world_def start_world_def fresh_session_def latest_of_def
        new_run_def new_listing_def resume_max_age_def micros_def)
  with run show ?thesis by (simp add: Let_def new_listing_def)
qed

end
