(* ===== verification/Parsers_Correct.thy ===== *)
theory Parsers_Correct
  imports Parsers
begin

text \<open>
  The correctness of the parsers: rows of one table have distinct keys, so that no upsert meets a
  row twice; every row fits its table's columns; the counts, votes, links and durations are the
  ones of a plain reading of the response.
\<close>

section \<open>Dicts filled by a loop\<close>

definition update_all :: "('k \<times> 'v) list \<Rightarrow> ('k, 'v) dict \<Rightarrow> ('k, 'v) dict" where
  "update_all kvs d = foldl (\<lambda>d (k, v). AList.update k v d) d kvs"

text \<open>A plain reading: the keys in the order of their first use, each with its last value.\<close>

definition last_values :: "('k \<times> 'v) list \<Rightarrow> ('k, 'v) dict" where
  "last_values kvs = map (\<lambda>k. (k, the (map_of (rev kvs) k))) (uniq (map fst kvs))"

lemma update_as_map:
  "distinct (map fst d) \<Longrightarrow> AList.update k v d =
     (if k \<in> fst ` set d then map (\<lambda>(j, u). (j, if j = k then v else u)) d else d @ [(k, v)])"
proof (induction d)
  case (Cons p d)
  obtain j u where p: "p = (j, u)" by (cases p)
  have "map (\<lambda>(j, u). (j, if j = k then v else u)) d = d" if "k \<notin> fst ` set d"
    using that by (auto simp: image_iff intro!: map_idI)
  with Cons p show ?case by auto
qed simp

lemma update_all_eq: "update_all kvs [] = last_values kvs"
proof (induction kvs rule: rev_induct)
  case Nil
  then show ?case by (simp add: update_all_def last_values_def)
next
  case (snoc kv kvs)
  obtain k v where kv: "kv = (k, v)" by (cases kv)
  let ?d = "last_values kvs"
  have keys: "map fst ?d = uniq (map fst kvs)" by (simp add: last_values_def comp_def)
  have "fst ` set ?d = fst ` set kvs" using arg_cong [OF keys, of set] by simp
  moreover have "distinct (map fst ?d)" by (simp add: keys)
  ultimately have "AList.update k v ?d = last_values (kvs @ [(k, v)])"
    by (subst update_as_map) (auto simp: last_values_def uniq_snoc intro!: map_cong [OF refl])
  with snoc kv show ?case by (simp add: update_all_def)
qed

lemma last_values_keys: "map fst (last_values kvs) = uniq (map fst kvs)"
  by (simp add: last_values_def comp_def)

lemma map_of_last_values: "map_of (last_values kvs) = map_of (rev kvs)"
proof
  fix k
  show "map_of (last_values kvs) k = map_of (rev kvs) k"
  proof (cases "k \<in> fst ` set kvs")
    case True
    then have "map_of (rev kvs) k \<noteq> None" by (simp add: map_of_eq_None_iff)
    then obtain v where v: "map_of (rev kvs) k = Some v" by blast
    have "(k, v) \<in> set (last_values kvs)"
      using True v by (auto simp: last_values_def image_iff)
    moreover have "distinct (map fst (last_values kvs))" by (simp add: last_values_keys)
    ultimately show ?thesis using v by (simp add: map_of_is_SomeI)
  next
    case False
    then have "k \<notin> fst ` set (last_values kvs)"
      using arg_cong [OF last_values_keys [of kvs], of set] by simp
    with False show ?thesis by (metis map_of_eq_None_iff set_rev)
  qed
qed

definition somes :: "'a option list \<Rightarrow> 'a list" where
  "somes xs = concat (map (\<lambda>x. case x of None \<Rightarrow> [] | Some a \<Rightarrow> [a]) xs)"

lemma somes_simps [simp]:
  "somes [] = []" "somes (None # xs) = somes xs" "somes (Some a # xs) = a # somes xs"
  by (simp_all add: somes_def)

lemma set_somes: "a \<in> set (somes xs) \<longleftrightarrow> Some a \<in> set xs"
  by (auto simp: somes_def split: option.splits)

lemma collect_run:
  "sfold (collect_row parse) items d = sbind (smap parse items) (\<lambda>rs. Inr (update_all (somes rs) d))"
proof (induction items arbitrary: d)
  case Nil
  then show ?case by (simp add: update_all_def)
next
  case (Cons item items)
  show ?case
  proof (cases "parse item")
    case (Inr r)
    then have "collect_row parse item d = Inr (update_all (somes [r]) d)"
      by (cases r) (auto simp: collect_row_def update_all_def)
    then have "sfold (collect_row parse) (item # items) d
        = sbind (smap parse items) (\<lambda>rs. Inr (update_all (somes rs) (update_all (somes [r]) d)))"
      by (simp add: Cons.IH)
    then show ?thesis
      using Inr by (cases r) (simp_all add: update_all_def sbind_def split: sum.split)
  next
    case (Inl x)
    then have "collect_row parse item d = Inl x" by (simp add: collect_row_def)
    with Inl show ?thesis by simp
  qed
qed

lemma smap_mem: "smap f xs = Inr ys \<Longrightarrow> y \<in> set ys \<Longrightarrow> \<exists>x\<in>set xs. f x = Inr y"
  by (auto simp: smap_eq_Inr list_all2_conv_all_nth in_set_conv_nth) fastforce

text \<open>
  The contract of an item parser: the key it hands out is the key of the row.  Then the rows a
  response gives have distinct keys, and each is the row of the last item with its key.
\<close>

locale keyed_parser =
  fixes parse :: "json \<Rightarrow> py_exn + ('k \<times> row_dict) option"
    and key_of :: "row_dict \<Rightarrow> 'k"
  assumes parse_key: "parse item = Inr (Some (k, row)) \<Longrightarrow> key_of row = k"
begin

lemma collected:
  assumes "collect_rows parse items = Inr d"
  shows "\<exists>rs. smap parse items = Inr rs \<and> d = last_values (somes rs)
     \<and> (\<forall>k row. (k, row) \<in> set (somes rs) \<longrightarrow> key_of row = k)"
proof -
  from assms obtain rs where rs: "smap parse items = Inr rs" "d = last_values (somes rs)"
    by (auto simp: collect_rows_def collect_run update_all_eq)
  have "key_of row = k" if "(k, row) \<in> set (somes rs)" for k row
    using that smap_mem [OF rs(1)] by (auto simp: set_somes intro: parse_key)
  with rs show ?thesis by blast
qed

lemma collected_rows:
  assumes "collect_rows parse items = Inr d"
  shows "distinct (map key_of (map snd d))"
    and "row \<in> set (map snd d) \<Longrightarrow> \<exists>item\<in>set items. \<exists>k. parse item = Inr (Some (k, row))"
proof -
  from collected [OF assms] obtain rs where rs: "smap parse items = Inr rs" "d = last_values (somes rs)"
    and key: "\<And>k row. (k, row) \<in> set (somes rs) \<Longrightarrow> key_of row = k"
    by blast
  have in_rs: "(k, row) \<in> set (somes rs)" if "(k, row) \<in> set d" for k row
  proof -
    have "map_of d k = Some row"
      using that by (intro map_of_is_SomeI) (simp_all add: rs(2) last_values_keys)
    then show ?thesis by (metis rs(2) map_of_last_values map_of_SomeD set_rev)
  qed
  then have "map key_of (map snd d) = map fst d" using key by fastforce
  then show "distinct (map key_of (map snd d))" by (simp add: rs(2) last_values_keys)
  show "\<exists>item\<in>set items. \<exists>k. parse item = Inr (Some (k, row))" if "row \<in> set (map snd d)"
    using that in_rs smap_mem [OF rs(1)] by (fastforce simp: set_somes)
qed

end

section \<open>Rows and their tables\<close>

fun typed :: "coltype \<Rightarrow> dbval \<Rightarrow> bool" where
  "typed _ VNull = True"
| "typed CInt (VInt _) = True"
| "typed CText (VText _) = True"
| "typed CBool (VBool _) = True"
| "typed CTime (VTime _) = True"
| "typed CNumeric (VNum _) = True"
| "typed _ _ = False"

definition cell_fits :: "table \<Rightarrow> string \<times> dbval \<Rightarrow> bool" where
  "cell_fits tb cell = (case map_of (table_columns tb) (fst cell) of
       None \<Rightarrow> False
     | Some (ty, nullable) \<Rightarrow> typed ty (snd cell) \<and> (snd cell = VNull \<longrightarrow> nullable))"

text \<open>A row dict that fits: each column once, of its type, and no column missing that needs a value.\<close>

definition row_fits :: "table \<Rightarrow> row_dict \<Rightarrow> bool" where
  "row_fits tb row \<longleftrightarrow> distinct (map fst row) \<and> list_all (cell_fits tb) row
     \<and> list_all (\<lambda>(c, ty, nullable). nullable \<or> c \<in> set (map fst row) \<or> default_value 0 c \<noteq> VNull) (table_columns tb)"

lemma row_of_cells:
  "row_of cells = Inr row \<Longrightarrow> map fst row = map fst cells \<and> list_all2 (\<lambda>(c, r) (c', v). c = c' \<and> r = Inr v) cells row"
proof (induction cells arbitrary: row)
  case (Cons a cells)
  then show ?case by (cases a) (auto simp: row_of_def)
qed (simp add: row_of_def)

definition result_fits :: "table \<Rightarrow> string \<times> (py_exn + dbval) \<Rightarrow> bool" where
  "result_fits tb cell = (case snd cell of Inl _ \<Rightarrow> True | Inr v \<Rightarrow> cell_fits tb (fst cell, v))"

lemma row_of_fits:
  assumes "row_of cells = Inr row" and "list_all (result_fits tb) cells"
    and "distinct (map fst cells)"
    and "list_all (\<lambda>(c, ty, nullable). nullable \<or> c \<in> set (map fst cells) \<or> default_value 0 c \<noteq> VNull) (table_columns tb)"
  shows "row_fits tb row"
proof -
  note row = row_of_cells [OF assms(1)]
  have "list_all (cell_fits tb) row"
    using row [THEN conjunct2] assms(2)
    by (induction cells row) (auto simp: result_fits_def)
  with row assms(3,4) show ?thesis by (simp add: row_fits_def)
qed

lemma typed_or_null [simp]:
  "typed CInt (int_or_null x)" "typed CText (text_or_null y)" "typed CTime (time_or_null z)" "typed CNumeric (num_or_null n)"
  by (simp_all add: int_or_null_def text_or_null_def time_or_null_def num_or_null_def split: option.split)

lemma result_fits_Inr [simp]: "result_fits tb (c, Inr v) = cell_fits tb (c, v)"
  by (simp add: result_fits_def)

lemma result_fits_sbind [simp]:
  "(\<And>x. cell_fits tb (c, f x)) \<Longrightarrow> result_fits tb (c, sbind r (\<lambda>x. Inr (f x)))"
  by (cases r) (simp_all add: result_fits_def)

text \<open>A nullable column takes what the parsers give it.\<close>

lemma cell_fits_null [simp]:
  "map_of (table_columns tb) c = Some (CInt, True) \<Longrightarrow> cell_fits tb (c, int_or_null x)"
  "map_of (table_columns tb) c = Some (CText, True) \<Longrightarrow> cell_fits tb (c, text_or_null y)"
  "map_of (table_columns tb) c = Some (CTime, True) \<Longrightarrow> cell_fits tb (c, time_or_null z)"
  "map_of (table_columns tb) c = Some (CNumeric, True) \<Longrightarrow> cell_fits tb (c, num_or_null n)"
  by (simp_all add: cell_fits_def)

lemma cell_fits_value [simp]:
  "cell_fits tb (c, VInt i) \<longleftrightarrow> map_option fst (map_of (table_columns tb) c) = Some CInt"
  "cell_fits tb (c, VText s) \<longleftrightarrow> map_option fst (map_of (table_columns tb) c) = Some CText"
  "cell_fits tb (c, VBool t) \<longleftrightarrow> map_option fst (map_of (table_columns tb) c) = Some CBool"
proof -
  have "typed ty (VInt i) = (ty = CInt)" "typed ty (VText s) = (ty = CText)" "typed ty (VBool t) = (ty = CBool)" for ty
    by (cases ty; simp)+
  then show "cell_fits tb (c, VInt i) \<longleftrightarrow> map_option fst (map_of (table_columns tb) c) = Some CInt"
    "cell_fits tb (c, VText s) \<longleftrightarrow> map_option fst (map_of (table_columns tb) c) = Some CText"
    "cell_fits tb (c, VBool t) \<longleftrightarrow> map_option fst (map_of (table_columns tb) c) = Some CBool"
    by (auto simp: cell_fits_def split: option.split prod.split)
qed

lemma anime_row_fits: "row_of (anime_cells l i title data) = Inr row \<Longrightarrow> row_fits TAnime row"
  by (erule row_of_fits) (simp_all add: anime_cells_def Let_def int_cell_of_def default_value_def)

lemma episode_row_fits: "row_of (episode_cells l a n item) = Inr row \<Longrightarrow> row_fits TEpisode row"
  by (erule row_of_fits) (simp_all add: episode_cells_def Let_def default_value_def)

lemma review_row_fits: "row_of (review_cells l a i text item) = Inr row \<Longrightarrow> row_fits TReview row"
  by (erule row_of_fits) (simp_all add: review_cells_def Let_def int_cell_of_def default_value_def reactions_def)

lemma clean_review_row:
  assumes "clean_review l anime_id item = Inr (Some (k, row))"
  shows "\<exists>body. row_of (review_cells l anime_id k body item) = Inr row"
  using assms by (cases "clean_html_text l (field item ''review'')")
    (auto simp: clean_review_def split: if_splits option.splits)

lemma row_of_lookup:
  "row_of cells = Inr row \<Longrightarrow> map_of cells c = Some r \<Longrightarrow> \<exists>v. r = Inr v \<and> map_of row c = Some v"
proof (induction cells arbitrary: row)
  case (Cons cell cells)
  then show ?case by (cases cell) (auto simp: row_of_def split: if_splits)
qed simp

interpretation episodes: keyed_parser "clean_episode l anime_id" "id_in ''episode_number''" for l anime_id
proof unfold_locales
  fix item k row
  assume "clean_episode l anime_id item = Inr (Some (k, row))"
  then have "row_of (episode_cells l anime_id k item) = Inr row"
    by (auto simp: clean_episode_def split: if_splits option.splits)
  from row_of_lookup [OF this, of "''episode_number''" "Inr (VInt k)"]
  show "id_in ''episode_number'' row = k" by (simp add: id_in_def episode_cells_def Let_def)
qed

interpretation reviews: keyed_parser "clean_review l anime_id" "id_in ''mal_id''" for l anime_id
proof unfold_locales
  fix item k row
  assume "clean_review l anime_id item = Inr (Some (k, row))"
  then obtain body where "row_of (review_cells l anime_id k body item) = Inr row"
    using clean_review_row by blast
  from row_of_lookup [OF this, of "''mal_id''" "Inr (VInt k)"]
  show "id_in ''mal_id'' row = k" by (simp add: id_in_def review_cells_def Let_def)
qed

lemma episode_rows:
  assumes "clean_episodes l payload anime_id = Inr rows"
  shows "distinct (map (id_in ''episode_number'') rows)" and "row \<in> set rows \<Longrightarrow> row_fits TEpisode row"
proof -
  from assms obtain d where d: "collect_rows (clean_episode l anime_id) (concat (map page_items (list_items payload))) = Inr d"
    and rows: "rows = map snd d" by (auto simp: clean_episodes_def)
  show "distinct (map (id_in ''episode_number'') rows)"
    using episodes.collected_rows(1) [OF d] by (simp add: rows)
  show "row_fits TEpisode row" if "row \<in> set rows"
    using episodes.collected_rows(2) [OF d that [unfolded rows]]
    by (auto simp: clean_episode_def split: if_splits option.splits intro: episode_row_fits)
qed

lemma review_rows:
  assumes "clean_reviews l payload anime_id = Inr rows"
  shows "distinct (map (id_in ''mal_id'') rows)" and "row \<in> set rows \<Longrightarrow> row_fits TReview row"
proof -
  from assms obtain d where d: "collect_rows (clean_review l anime_id) (page_items payload) = Inr d"
    and rows: "rows = map snd d" by (auto simp: clean_reviews_def)
  show "distinct (map (id_in ''mal_id'') rows)"
    using reviews.collected_rows(1) [OF d] by (simp add: rows)
  show "row_fits TReview row" if "row \<in> set rows"
    using reviews.collected_rows(2) [OF d that [unfolded rows]]
    using review_row_fits clean_review_row by blast
qed

lemma anime_fits: "clean_full l payload = Inr (Some row) \<Longrightarrow> row_fits TAnime row"
  by (auto simp: clean_full_def Let_def split: if_splits option.splits intro: anime_row_fits)

section \<open>Statistics\<close>

lemma count_vote_keys: "count_vote item votes = Inr votes' \<Longrightarrow> map fst votes = map votes_key [1..10] \<Longrightarrow>
    map fst votes' = map votes_key [1..10]"
  by (auto simp: count_vote_def update_keys split: if_splits option.splits)

lemma votes_keys: "votes_of scores = Inr votes \<Longrightarrow> map fst votes = map votes_key [1..10]"
  unfolding votes_of_def
  by (rule sfold_inv [where I = "\<lambda>v. map fst v = map votes_key [1..10]"])
    (auto simp: no_votes_def comp_def dest: count_vote_keys)

lemma votes_key_inj [simp]: "votes_key s = votes_key t \<longleftrightarrow> s = t"
  by (simp add: votes_key_def)

lemma votes_key_other: "c \<in> set (''anime_id'' # count_names) \<Longrightarrow> votes_key s \<noteq> c"
  by (auto simp: votes_key_def count_names_def)

text \<open>The votes of a score on a plain reading: those of the last item with this score.\<close>

definition scores_as :: "int \<Rightarrow> json \<Rightarrow> bool" where
  "scores_as s item \<longleftrightarrow> is_dict item \<and> to_int (field item ''score'') = Inr (Some s)"

definition last_vote :: "int \<Rightarrow> json list \<Rightarrow> int option" where
  "last_vote s items = (case rev (filter (scores_as s) items) of [] \<Rightarrow> None
     | item # _ \<Rightarrow> (case to_int (field item ''votes'') of Inl _ \<Rightarrow> None | Inr v \<Rightarrow> v))"

lemma votes_last:
  assumes "sfold count_vote items no_votes = Inr votes" and "s \<in> {1..10}"
  shows "map_of votes (votes_key s) = Some (last_vote s items)"
  using assms(1)
proof (induction items arbitrary: votes rule: rev_induct)
  case Nil
  have "map_of no_votes (votes_key s) = Some None"
    using assms(2) by (intro map_of_is_SomeI) (auto simp: no_votes_def comp_def distinct_map inj_on_def)
  with Nil show ?case by (simp add: last_vote_def)
next
  case (snoc item items)
  then obtain before where before: "sfold count_vote items no_votes = Inr before"
    and step: "count_vote item before = Inr votes" by (auto simp: sfold_snoc)
  from snoc.IH [OF before] have IH: "map_of before (votes_key s) = Some (last_vote s items)" .
  show ?case
  proof (cases "scores_as s item")
    case True
    then show ?thesis using step assms(2)
      by (auto simp: count_vote_def scores_as_def last_vote_def update_conv' split: if_splits)
  next
    case False
    then show ?thesis using step IH
      by (auto simp: count_vote_def scores_as_def last_vote_def update_conv' split: if_splits option.splits)
  qed
qed

lemma map_of_int_cells: "map_of (int_cells d) c = map_option int_or_null (map_of d c)"
  by (induction d) (auto simp: int_cells_def)

lemma count_results:
  assumes "smap (\<lambda>name. sbind (to_int (field data name)) (\<lambda>n. Inr (name, n))) names = Inr counts"
  shows "map fst counts = names" and "c \<in> set names \<Longrightarrow> \<exists>n. to_int (field data c) = Inr n \<and> map_of counts c = Some n"
  using assms by (induction names arbitrary: counts) auto

lemma statistics_row:
  assumes "clean_statistics l payload a = Inr (Some row)"
  obtains counts votes where
    "smap (\<lambda>name. sbind (to_int (field (data_of payload) name)) (\<lambda>n. Inr (name, n))) count_names = Inr counts"
    "\<not> list_ex (\<lambda>(_, n). n = None) counts" "votes_of (field (data_of payload) ''scores'') = Inr votes"
    "row = (''anime_id'', VInt a) # int_cells counts @ int_cells votes"
  using assms by (auto simp: clean_statistics_def Let_def split: if_splits)

lemma votes_key_list: "map votes_key [1..10] = [''votes_1'', ''votes_2'', ''votes_3'', ''votes_4'', ''votes_5'',
    ''votes_6'', ''votes_7'', ''votes_8'', ''votes_9'', ''votes_10'']"
  by code_simp

lemma counted:
  assumes "\<not> list_ex (\<lambda>(_, n). n = None) counts" and "(c, n) \<in> set counts"
  shows "\<exists>i. n = Some i"
proof -
  have "\<forall>x\<in>set counts. \<not> (case x of (_, n) \<Rightarrow> n = None)"
    using assms(1) by (simp add: list_ex_iff)
  from bspec [OF this assms(2)] show ?thesis by simp
qed

lemma statistics_fits:
  assumes "clean_statistics l payload a = Inr (Some row)"
  shows "row_fits TStatistics row"
proof -
  from statistics_row [OF assms] obtain counts votes where
    counts: "smap (\<lambda>name. sbind (to_int (field (data_of payload) name)) (\<lambda>n. Inr (name, n))) count_names = Inr counts"
    and some: "\<not> list_ex (\<lambda>(_, n). n = None) counts" and votes: "votes_of (field (data_of payload) ''scores'') = Inr votes"
    and row: "row = (''anime_id'', VInt a) # int_cells counts @ int_cells votes" .
  have keys: "map fst row = ''anime_id'' # count_names @ map votes_key [1..10]"
    using count_results(1) [OF counts] votes_keys [OF votes] by (simp add: row int_cells_def comp_def case_prod_unfold)
  have "cell_fits TStatistics (c, int_or_null n)" if "(c, n) \<in> set counts" for c n
  proof -
    have "c \<in> set count_names" using that count_results(1) [OF counts] by (metis fst_conv image_eqI set_map)
    moreover have "\<exists>i. n = Some i" using counted [OF some that] .
    ultimately show ?thesis by (auto simp: count_names_def int_or_null_def)
  qed
  moreover have "cell_fits TStatistics (c, int_or_null n)" if "(c, n) \<in> set votes" for c n
  proof -
    have "c \<in> set (map votes_key [1..10])"
      using that votes_keys [OF votes] by (metis fst_conv image_eqI set_map)
    then show ?thesis unfolding votes_key_list by auto
  qed
  ultimately have "list_all (cell_fits TStatistics) row"
    by (auto simp: row list_all_iff int_cells_def)
  then show ?thesis
    unfolding row_fits_def keys votes_key_list by (simp add: count_names_def default_value_def)
qed

section \<open>Named items\<close>

lemma keep_first_run:
  "sfold keep_first items d = sbind (smap named_item items) (\<lambda>rs. Inr (foldl (\<lambda>d (i, n). setdefault i n d) d (somes rs)))"
proof (induction items arbitrary: d)
  case (Cons item items)
  show ?case
  proof (cases "named_item item")
    case (Inr r)
    then have "keep_first item d = Inr (foldl (\<lambda>d (i, n). setdefault i n d) d (somes [r]))"
      by (cases r) (auto simp: keep_first_def)
    then show ?thesis using Inr by (cases r) (simp_all add: Cons.IH sbind_def split: sum.split)
  next
    case (Inl x)
    then have "keep_first item d = Inl x" by (simp add: keep_first_def)
    with Inl show ?thesis by simp
  qed
qed simp

lemma first_values:
  "let d = foldl (\<lambda>d (i, n). setdefault i n d) [] kvs in map fst d = uniq (map fst kvs) \<and> map_of d = map_of kvs"
proof (induction kvs rule: rev_induct)
  case (snoc kv kvs)
  obtain i n where kv: "kv = (i, n)" by (cases kv)
  let ?d = "foldl (\<lambda>d (i, n). setdefault i n d) [] kvs"
  have d: "map fst ?d = uniq (map fst kvs)" "map_of ?d = map_of kvs" using snoc by (simp_all add: Let_def)
  have "fst ` set ?d = fst ` set kvs" using arg_cong [OF d(1), of set] by simp
  then have "map fst (setdefault i n ?d) = uniq (map fst (kvs @ [(i, n)]))"
    using d(1) by (auto simp: setdefault_def uniq_snoc)
  moreover have "map_of (setdefault i n ?d) = map_of (kvs @ [(i, n)])"
    using d(2) by (auto simp: fun_eq_iff map_of_setdefault map_add_def split: option.splits)
  ultimately show ?case by (simp add: kv Let_def)
qed simp

section \<open>Durations\<close>

lemma takeWhile_run: "list_all P xs \<Longrightarrow> rest = [] \<or> \<not> P (hd rest) \<Longrightarrow> takeWhile P (xs @ rest) = xs"
  by (induction xs) (auto simp: takeWhile_eq_Nil_iff)

lemma dropWhile_run: "list_all P xs \<Longrightarrow> rest = [] \<or> \<not> P (hd rest) \<Longrightarrow> dropWhile P (xs @ rest) = rest"
  by (induction xs) (auto simp: dropWhile_id)

lemma duration_part:
  assumes "xs \<noteq> []" and "list_all is_digit xs" and "rest = [] \<or> \<not> is_digit (hd rest)"
    and "unit_at (dropWhile is_space rest) = Some (name, seconds)"
  shows "duration_parts (xs @ rest) = (xs, seconds) # duration_parts (drop (length name) (dropWhile is_space rest))"
proof -
  obtain c cs where xs: "xs = c # cs" using assms(1) by (cases xs) auto
  with assms(2) have c: "is_digit c" by simp
  note runs = takeWhile_run [OF assms(2,3)] dropWhile_run [OF assms(2,3)]
  show ?thesis
    by (subst duration_parts.simps) (use runs assms(4) c in \<open>simp add: xs Let_def\<close>)
qed

lemma digits_all: "list_all is_digit (digits n)" "digits n \<noteq> []"
  using digits_no_slash [of _ n] digits_cases [of n] by (auto simp: list_all_iff)

lemma digit_not_space: "is_digit c \<Longrightarrow> \<not> is_space c"
  by (auto simp: is_digit_def is_space_def Let_def)

lemma int_strip_digits [simp]: "int_strip (digits n) = digits n"
  by (rule int_strip_no_space) (use digits_all [of n] digit_not_space in \<open>auto simp: list_all_iff\<close>)

lemma py_int_of_digits:
  assumes "length (digits n) \<le> 4300" shows "py_int_of_str (digits n) = Some (int n)"
proof -
  have "\<not> 4300 < length (filter is_digit (digits n))"
    using assms length_filter_le [of is_digit "digits n"] by linarith
  then show ?thesis
    using parse_signed_str_int [of "int n"] by (simp add: py_int_of_str_def str_int_def Let_def)
qed

section \<open>Properties\<close>

text \<open>C22. Every row a parser gives fits its table: each column once and of the table, every value of the
  column's type, no NULL where none is allowed, no required column missing.  So the database can
  refuse such a row only for the size of a value, never for its shape.\<close>

theorem parsed_rows_fit:
  assumes "tb = TAnime \<and> clean_full l payload = Inr (Some row)
     \<or> tb = TStatistics \<and> clean_statistics l payload anime_id = Inr (Some row)
     \<or> tb = TEpisode \<and> (\<exists>rows. clean_episodes l payload anime_id = Inr rows \<and> row \<in> set rows)
     \<or> tb = TReview \<and> (\<exists>rows. clean_reviews l payload anime_id = Inr rows \<and> row \<in> set rows)"
  shows "row_fits tb row
     \<and> (excluded_row tb now (map fst row) row = Inl m \<longrightarrow> m = ''DataError'' \<or> m = ''NumericValueOutOfRangeError'')"
proof -
  have fits: "row_fits tb row"
    using assms anime_fits statistics_fits episode_rows(2) review_rows(2) by blast
  have cell: "m = ''DataError'' \<or> m = ''NumericValueOutOfRangeError''"
    if column: "(c, ty, nullable) \<in> set (table_columns tb)" and bad: "cell_of now (map fst row) row (c, ty, nullable) = Inl m"
    for c ty nullable m
  proof -
    have names: "distinct (map fst (table_columns tb))" by (cases tb) simp_all
    show ?thesis
    proof (cases "c \<in> set (map fst row)")
      case True
      then obtain v where v: "map_of row c = Some v" "(c, v) \<in> set row"
        by (metis map_of_eq_None_iff not_None_eq set_map map_of_SomeD)
      then have "cell_fits tb (c, v)" using fits by (auto simp: row_fits_def list_all_iff)
      then have "typed ty v" "v = VNull \<longrightarrow> nullable"
        using map_of_is_SomeI [OF names column] by (auto simp: cell_fits_def)
      then have "store_cell ty nullable v = Inl m \<Longrightarrow> ?thesis"
        by (cases ty; cases v) (auto split: if_splits elim: store_cell.elims)
      moreover have "store_cell ty nullable v = Inl m" using bad True v by (auto simp: cell_of_def sbind_def split: sum.splits)
      ultimately show ?thesis by blast
    next
      case False
      with fits column have "nullable \<or> default_value 0 c \<noteq> VNull"
        by (auto simp: row_fits_def list_all_iff)
      moreover from bad False have "store_cell ty nullable (default_value now c) = Inl m"
        by (auto simp: cell_of_def sbind_def split: sum.splits)
      ultimately show ?thesis
        by (cases ty) (auto simp: default_value_def split: if_splits)
    qed
  qed
  have "\<exists>x\<in>set xs. f x = Inl m" if "smap f xs = Inl m" for f :: "column \<Rightarrow> string + (string \<times> dbval)" and xs
    using that by (induction xs) (auto simp: sbind_def split: sum.splits)
  then have "m = ''DataError'' \<or> m = ''NumericValueOutOfRangeError''" if "excluded_row tb now (map fst row) row = Inl m"
    using that cell by (fastforce simp: excluded_row_def sbind_def split: sum.splits)
  with fits show ?thesis by blast
qed

theorem parsed_rows_fit_witness:
  "\<exists>row. clean_statistics (lib calm_env) (JObj [(''data'', JObj (map (\<lambda>c. (c, JInt 3)) count_names))]) 5 = Inr (Some row)
     \<and> row_fits TStatistics row"
proof -
  let ?payload = "JObj [(''data'', JObj (map (\<lambda>c. (c, JInt 3)) count_names))]"
  have "(case clean_statistics (lib calm_env) ?payload 5 of Inr (Some row) \<Rightarrow> True | _ \<Rightarrow> False)" by code_simp
  then obtain row where "clean_statistics (lib calm_env) ?payload 5 = Inr (Some row)"
    by (auto split: sum.splits option.splits)
  with parsed_rows_fit [of TStatistics "lib calm_env" ?payload row 5] show ?thesis by blast
qed

text \<open>C23. The episodes of a response: one row per episode number, in the order the numbers first appear,
  and a number that appears again has the row of its last item.  So an upsert of them never meets
  a row twice.\<close>

theorem episodes_last_win:
  assumes "clean_episodes l payload anime_id = Inr rows"
    and "smap (clean_episode l anime_id) (concat (map page_items (list_items payload))) = Inr parsed"
  shows "map (id_in ''episode_number'') rows = uniq (map fst (somes parsed))
     \<and> list_all (\<lambda>row. map_of (rev (somes parsed)) (id_in ''episode_number'' row) = Some row) rows"
proof -
  from assms have d: "collect_rows (clean_episode l anime_id) (concat (map page_items (list_items payload)))
      = Inr (last_values (somes parsed))" and rows: "rows = map snd (last_values (somes parsed))"
    by (auto simp: clean_episodes_def collect_rows_def collect_run update_all_eq)
  from episodes.collected [OF d] assms(2)
  have key: "\<And>k row. (k, row) \<in> set (somes parsed) \<Longrightarrow> id_in ''episode_number'' row = k" by auto
  have known: "map_of (rev (somes parsed)) k = Some row \<and> id_in ''episode_number'' row = k"
    if "(k, row) \<in> set (last_values (somes parsed))" for k row
  proof -
    have "map_of (last_values (somes parsed)) k = Some row"
      using that by (intro map_of_is_SomeI) (simp_all add: last_values_keys)
    then have "map_of (rev (somes parsed)) k = Some row" by (simp add: map_of_last_values)
    then show ?thesis using key by (metis map_of_SomeD set_rev)
  qed
  then have "map (id_in ''episode_number'') rows = map fst (last_values (somes parsed))"
    by (auto simp: rows)
  then show ?thesis using known by (auto simp: last_values_keys list_all_iff rows)
qed

definition two_episodes :: json where
  "two_episodes = JList [JObj [(''data'', JList [JObj [(''mal_id'', JInt 0), (''title'', JStr ''a'')],
     JObj [(''mal_id'', JInt 0), (''title'', JStr ''b'')]])]]"

theorem episodes_last_win_witness:
  "\<exists>rows. clean_episodes (lib calm_env) two_episodes 5 = Inr rows \<and> map (id_in ''episode_number'') rows = [0]"
proof -
  let ?items = "concat (map page_items (list_items two_episodes))"
  have "(case (clean_episodes (lib calm_env) two_episodes 5, smap (clean_episode (lib calm_env) 5) ?items) of
      (Inr rows, Inr rs) \<Rightarrow> map fst (somes rs) = [0, 0] | _ \<Rightarrow> False)" by code_simp
  then obtain rows rs where "clean_episodes (lib calm_env) two_episodes 5 = Inr rows"
    "smap (clean_episode (lib calm_env) 5) ?items = Inr rs" "map fst (somes rs) = [0, 0]"
    by (auto split: sum.splits)
  with episodes_last_win [of "lib calm_env" two_episodes 5 rows rs] show ?thesis by (simp add: uniq_def)
qed

text \<open>C24. A statistics row is complete: it exists only when all six counts are readable integers, and then
  holds exactly these counts, and for each score from 1 to 10 the votes of the last item with this
  score, or NULL.\<close>

theorem statistics_complete:
  assumes "clean_statistics l payload anime_id = Inr (Some row)"
  shows "map_of row ''anime_id'' = Some (VInt anime_id)
     \<and> (\<forall>c\<in>set count_names. \<exists>n. to_int (field (data_of payload) c) = Inr (Some n) \<and> map_of row c = Some (VInt n))
     \<and> (\<forall>s\<in>{1..10}. map_of row (votes_key s)
          = Some (int_or_null (last_vote s (list_items (field (data_of payload) ''scores'')))))"
proof -
  from statistics_row [OF assms] obtain counts votes where
    counts: "smap (\<lambda>name. sbind (to_int (field (data_of payload) name)) (\<lambda>n. Inr (name, n))) count_names = Inr counts"
    and some: "\<not> list_ex (\<lambda>(_, n). n = None) counts" and votes: "votes_of (field (data_of payload) ''scores'') = Inr votes"
    and row: "row = (''anime_id'', VInt anime_id) # int_cells counts @ int_cells votes" .
  have "\<exists>n. to_int (field (data_of payload) c) = Inr (Some n) \<and> map_of row c = Some (VInt n)" if c: "c \<in> set count_names" for c
  proof -
    obtain n where n: "to_int (field (data_of payload) c) = Inr n" "map_of counts c = Some n"
      using count_results(2) [OF counts c] by blast
    then obtain i where "n = Some i" using counted [OF some map_of_SomeD] by blast
    moreover have "c \<noteq> ''anime_id''" using c by (auto simp: count_names_def)
    moreover have "c \<notin> votes_key ` set [1..10]"
      using votes_key_other [of c] c by auto
    then have "map_of votes c = None"
      using votes_keys [OF votes] by (metis map_of_eq_None_iff set_map)
    ultimately show ?thesis using n by (simp add: row map_of_int_cells map_add_def int_or_null_def)
  qed
  moreover have "map_of row (votes_key s) = Some (int_or_null (last_vote s (list_items (field (data_of payload) ''scores''))))"
    if "s \<in> {1..10}" for s
  proof -
    have "map_of votes (votes_key s) = Some (last_vote s (list_items (field (data_of payload) ''scores'')))"
      using votes_last [OF _ that] votes by (simp add: votes_of_def)
    moreover have "votes_key s \<noteq> ''anime_id''" using votes_key_other [of "''anime_id''"] by simp
    moreover have "map_of counts (votes_key s) = None"
      using count_results(1) [OF counts] votes_key_other [of _ s]
      by (metis (no_types, lifting) list.set_intros(2) map_of_eq_None_iff set_map)
    ultimately show ?thesis by (simp add: row map_of_int_cells map_add_def)
  qed
  ultimately show ?thesis by (simp add: row)
qed

theorem statistics_complete_witness:
  "\<exists>row. clean_statistics (lib calm_env) (JObj [(''data'', JObj (map (\<lambda>c. (c, JInt 3)) count_names))]) 5 = Inr (Some row)
     \<and> map_of row (votes_key 7) = Some VNull"
proof -
  let ?payload = "JObj [(''data'', JObj (map (\<lambda>c. (c, JInt 3)) count_names))]"
  have "(case clean_statistics (lib calm_env) ?payload 5 of Inr (Some row) \<Rightarrow> True | _ \<Rightarrow> False)" by code_simp
  then obtain row where row: "clean_statistics (lib calm_env) ?payload 5 = Inr (Some row)"
    by (auto split: sum.splits option.splits)
  have "list_items (field (data_of ?payload) ''scores'') = []" by code_simp
  with statistics_complete [OF row] have "map_of row (votes_key 7) = Some (int_or_null (last_vote 7 []))" by simp
  with row show ?thesis by (simp add: last_vote_def int_or_null_def)
qed

text \<open>The tags and studios of an anime: one entry per id, in the order the ids first appear, with the
  name of the first item that has it.\<close>

theorem named_items_first:
  assumes "named_items kinds payload = Inr found" and "is_dict (data_of payload)"
    and "smap named_item (concat (map (\<lambda>name. list_items (field (data_of payload) name)) kinds)) = Inr parsed"
  shows "map fst found = uniq (map fst (somes parsed)) \<and> map_of found = map_of (somes parsed)"
  using assms first_values [of "somes parsed"]
  by (simp add: named_items_def Let_def keep_first_run)

theorem named_items_first_witness:
  "extract_tags (JObj [(''data'', JObj [(''genres'', JList [JObj [(''mal_id'', JInt 1), (''name'', JStr ''Action'')]]),
     (''themes'', JList [JObj [(''mal_id'', JInt 1), (''name'', JStr ''x'')]])])]) = Inr [(1, ''Action'')]"
proof -
  let ?p = "JObj [(''data'', JObj [(''genres'', JList [JObj [(''mal_id'', JInt 1), (''name'', JStr ''Action'')]]),
     (''themes'', JList [JObj [(''mal_id'', JInt 1), (''name'', JStr ''x'')]])])]"
  have parsed: "smap named_item (concat (map (\<lambda>name. list_items (field (data_of ?p) name)) tag_lists))
      = Inr [Some (1, ''Action''), Some (1, ''x'')]" by code_simp
  have "(case named_items tag_lists ?p of Inr found \<Rightarrow> True | Inl _ \<Rightarrow> False)" by code_simp
  then obtain found where found: "named_items tag_lists ?p = Inr found" by (auto split: sum.splits)
  from named_items_first [OF found _ parsed]
  have "map fst found = [1]" "map_of found 1 = Some ''Action''" by (simp_all add: data_of_def uniq_def)
  then have "found = [(1, ''Action'')]" by (cases found) (auto split: if_splits)
  with found show ?thesis by (simp add: extract_tags_def)
qed

text \<open>A duration written in MAL's form, `h hr m min per ep`, is read back as 60 h + m minutes.\<close>

theorem duration_round_trip:
  assumes "0 < h + m" and "length (digits h) \<le> 4300" and "length (digits m) \<le> 4300" and "60 * h + m < 2 ^ 53"
  shows "duration_minutes (JStr (digits h @ '' hr '' @ digits m @ '' min per ep'')) = Inr (Some (int (60 * h + m)))"
proof -
  have m: "duration_parts (digits m @ '' min per ep'') = [(digits m, 60)]"
  proof (subst duration_part)
    show "unit_at (dropWhile is_space '' min per ep'') = Some (''min'', 60)" by code_simp
    show "(digits m, 60) # duration_parts (drop (length ''min'') (dropWhile is_space '' min per ep'')) = [(digits m, 60)]"
      by code_simp
  qed (simp_all add: digits_all is_digit_def)
  have space: "dropWhile is_space ('' hr '' @ digits m @ '' min per ep'') = ''hr '' @ digits m @ '' min per ep''"
    by (simp add: is_space_def)
  have skip: "duration_parts (CHR '' '' # s) = duration_parts s" for s
    by (subst duration_parts.simps) (simp add: is_digit_def)
  have "duration_parts (digits h @ '' hr '' @ digits m @ '' min per ep'') = [(digits h, 3600), (digits m, 60)]"
  proof (subst duration_part)
    show "unit_at (dropWhile is_space ('' hr '' @ digits m @ '' min per ep'')) = Some (''hr'', 3600)"
      unfolding space by (simp add: unit_at_def seconds_per_unit_def)
    show "(digits h, 3600) # duration_parts (drop (length ''hr'') (dropWhile is_space ('' hr '' @ digits m @ '' min per ep'')))
        = [(digits h, 3600), (digits m, 60)]"
      unfolding space by (simp add: skip m [simplified])
  qed (simp_all add: digits_all is_digit_def)
  moreover have "minutes_of (int h * 3600 + int m * 60) = Inr (Some (int (60 * h + m)))"
  proof -
    have whole: "minutes_of (i * 60) = Inr (Some i)" if "0 < i" "i < 2 ^ 53" for i
    proof -
      have "round_div (i * 60) 60 = i" by (simp add: round_div_def Let_def)
      moreover have "(2::int) ^ 53 \<le> 2 ^ 1024 - 2 ^ 970" by simp
      ultimately show ?thesis using that by (simp add: minutes_of_def)
    qed
    have "int (60 * h + m) < int (2 ^ 53)" using assms(4) by (simp only: of_nat_less_iff)
    then have "minutes_of (int (60 * h + m) * 60) = Inr (Some (int (60 * h + m)))"
      using assms(1) by (intro whole) auto
    moreover have "int h * 3600 + int m * 60 = int (60 * h + m) * 60" by simp
    ultimately show ?thesis by (simp only:)
  qed
  ultimately show ?thesis by (simp add: part_seconds_def py_int_of_digits assms(2,3))
qed

theorem duration_round_trip_witness:
  "duration_minutes (JStr (digits 1 @ '' hr '' @ digits 55 @ '' min per ep'')) = Inr (Some 115)"
  using duration_round_trip [of 1 55] by (simp add: digits.simps)

end
