(* ===== verification/Catalogue_Correct.thy ===== *)
theory Catalogue_Correct
  imports Catalogue
begin

text \<open>
  What the catalogue's writes change and what they leave alone: an upsert writes its own columns of
  its own table only and can be repeated; replacing links makes them exactly the wanted ones.
\<close>

section \<open>Upserts write their own columns\<close>

text \<open>
  `extends tb cols old new`: the rows of `old` are still there, in order, with their keys, and
  differ at most in the columns `cols`; new rows come after them.
\<close>

definition same_outside :: "string set \<Rightarrow> stored_row \<Rightarrow> stored_row \<Rightarrow> bool" where
  "same_outside cols r r' \<longleftrightarrow> (\<forall>c. c \<in> cols \<or> r' c = r c)"

definition extends :: "string set \<Rightarrow> stored_row list \<Rightarrow> stored_row list \<Rightarrow> bool" where
  "extends cols old new \<longleftrightarrow> length old \<le> length new \<and> list_all2 (same_outside cols) old (take (length old) new)"

definition keys_distinct :: "table \<Rightarrow> stored_row list \<Rightarrow> bool" where
  "keys_distinct tb rows \<longleftrightarrow> distinct (map (row_key tb) rows)"

lemma same_outside_refl [simp]: "same_outside cols r r"
  by (simp add: same_outside_def)

lemma same_outside_trans: "same_outside cols a b \<Longrightarrow> same_outside cols b c \<Longrightarrow> same_outside cols a c"
  unfolding same_outside_def by metis

lemma extends_refl [simp]: "extends cols rows rows"
  by (simp add: extends_def list_all2_same)

lemma extends_append: "extends cols old new \<Longrightarrow> extends cols old (new @ xs)"
  by (simp add: extends_def)

lemma extends_map:
  assumes "extends cols old new" and "\<And>r. r \<in> set new \<Longrightarrow> same_outside cols r (g r)"
  shows "extends cols old (map g new)"
proof -
  have "list_all2 (same_outside cols) old (map g (take (length old) new))"
    using assms by (auto simp: extends_def list_all2_conv_all_nth intro: same_outside_trans)
  with assms(1) show ?thesis by (simp add: extends_def take_map)
qed

lemma key_not_updated_at: "''updated_at'' \<notin> set (table_keys tb)"
  by (cases tb) auto

lemma updated_row_key:
  "set (m_columns mode) \<inter> set (table_keys tb) = {} \<Longrightarrow> row_key tb (updated_row tb now mode new old) = row_key tb old"
  using key_not_updated_at [of tb] by (auto simp: row_key_def updated_row_def)

lemma updated_row_outside: "same_outside (insert ''updated_at'' (set (m_columns mode))) old (updated_row tb now mode new old)"
  by (auto simp: same_outside_def updated_row_def)

lemma keys_distinct_same: "keys_distinct tb rows \<Longrightarrow> r \<in> set rows \<Longrightarrow> s \<in> set rows \<Longrightarrow> row_key tb r = row_key tb s \<Longrightarrow> r = s"
  by (auto simp: keys_distinct_def distinct_map dest: inj_onD)

lemma keys_distinct_map:
  assumes "keys_distinct tb rows" and "\<And>r. r \<in> set rows \<Longrightarrow> row_key tb (g r) = row_key tb r"
  shows "keys_distinct tb (map g rows)"
proof -
  have "map (row_key tb) (map g rows) = map (row_key tb) rows" using assms(2) by simp
  with assms(1) show ?thesis by (simp only: keys_distinct_def)
qed

lemma upsert_entry_cases:
  assumes "upsert_entry tb now ins mode row (rows, n, touched) = Inr (rows', n', touched')"
  obtains (added) new where "excluded_row tb now ins row = Inr new" and "row_key tb new \<notin> row_key tb ` set rows"
      and "rows' = rows @ [new]" and "n' = n + 1" and "touched' = new # touched"
    | (same) new old where "excluded_row tb now ins row = Inr new" and "old \<in> set rows"
      and "row_key tb old = row_key tb new" and "m_only_if_changed mode" and "\<not> differs mode new old"
      and "rows' = rows" and "n' = n" and "touched' = touched"
    | (updated) new old where "excluded_row tb now ins row = Inr new" and "old \<in> set rows"
      and "row_key tb old = row_key tb new" and "row_key tb new \<notin> row_key tb ` set touched"
      and "\<not> (m_only_if_changed mode \<and> \<not> differs mode new old)"
      and "rows' = map (\<lambda>r. if row_key tb r = row_key tb new then updated_row tb now mode new old else r) rows"
      and "n' = n + 1" and "touched' = updated_row tb now mode new old # touched"
proof -
  from assms obtain new where new: "excluded_row tb now ins row = Inr new"
    by (auto simp: upsert_entry_def)
  show thesis
  proof (cases "find (\<lambda>r. row_key tb r = row_key tb new) rows")
    case None
    then have "row_key tb new \<notin> row_key tb ` set rows" by (auto simp: find_None_iff)
    with assms new None show thesis by (intro added [OF new]) (auto simp: upsert_entry_def)
  next
    case (Some old)
    then have old: "old \<in> set rows" "row_key tb old = row_key tb new" by (auto simp: find_Some_iff)
    show thesis
    proof (cases "m_only_if_changed mode \<and> \<not> differs mode new old")
      case True
      with assms new Some old show thesis
        by (intro same [OF new old]) (auto simp: upsert_entry_def split: if_splits)
    next
      case False
      with assms new Some old show thesis
        by (intro updated [OF new old]) (auto simp: upsert_entry_def Let_def split: if_splits)
    qed
  qed
qed

lemma upsert_entry_extends:
  assumes step: "upsert_entry tb now ins mode row (rows, n, touched) = Inr (rows', n', touched')"
    and keys: "keys_distinct tb rows" and ext: "extends (insert ''updated_at'' (set (m_columns mode))) old rows"
    and cols: "set (m_columns mode) \<inter> set (table_keys tb) = {}"
  shows "keys_distinct tb rows' \<and> extends (insert ''updated_at'' (set (m_columns mode))) old rows'"
  using step
proof (cases rule: upsert_entry_cases)
  case (added new)
  then show ?thesis using keys ext by (auto simp: keys_distinct_def extends_append)
next
  case (same new old')
  then show ?thesis using keys ext by simp
next
  case (updated new old')
  let ?g = "\<lambda>r. if row_key tb r = row_key tb new then updated_row tb now mode new old' else r"
  have g: "r \<in> set rows \<Longrightarrow> row_key tb (?g r) = row_key tb r"
    "r \<in> set rows \<Longrightarrow> same_outside (insert ''updated_at'' (set (m_columns mode))) r (?g r)" for r
    using keys_distinct_same [OF keys, of r old'] updated(2,3)
    by (auto simp: updated_row_key [OF cols] updated_row_outside)
  show ?thesis using keys_distinct_map [OF keys g(1)] extends_map [OF ext g(2)] updated(6) by simp
qed

lemma upsert_stmt_extends:
  assumes run: "upsert_stmt tb mode entries now d = Inr (n, d')" and keys: "keys_distinct tb (catalogue d tb)"
    and cols: "set (m_columns mode) \<inter> set (table_keys tb) = {}"
  shows "keys_distinct tb (catalogue d' tb)"
    and "extends (insert ''updated_at'' (set (m_columns mode))) (catalogue d tb) (catalogue d' tb)"
    and "other \<noteq> tb \<Longrightarrow> catalogue d' other = catalogue d other"
    and "tasks d' = tasks d" and "raw_rows d' = raw_rows d"
proof -
  from run obtain rows touched where
    fold: "sfold (upsert_entry tb now (map fst (hd entries)) mode) entries (catalogue d tb, 0, []) = Inr (rows, n, touched)"
    and d': "d' = set_table tb rows d"
    by (auto simp: upsert_stmt_def Let_def split: if_splits)
  have "case (rows, n, touched) of (rows, _) \<Rightarrow> keys_distinct tb rows
      \<and> extends (insert ''updated_at'' (set (m_columns mode))) (catalogue d tb) rows"
    by (rule sfold_inv [OF _ _ fold]) (use keys upsert_entry_extends [OF _ _ _ cols] in \<open>auto split: prod.splits\<close>)
  then show "keys_distinct tb (catalogue d' tb)"
    "extends (insert ''updated_at'' (set (m_columns mode))) (catalogue d tb) (catalogue d' tb)"
    by (simp_all add: d' set_table_def)
  show "other \<noteq> tb \<Longrightarrow> catalogue d' other = catalogue d other" "tasks d' = tasks d" "raw_rows d' = raw_rows d"
    by (simp_all add: d' set_table_def)
qed

section \<open>Upserting the same rows again\<close>

text \<open>
  An entry matches the table when the row with its key has the proposed value in every column the
  upsert writes.  With `only_if_changed` a matching entry is not written.
\<close>

definition proposes :: "table \<Rightarrow> string list \<Rightarrow> upsert_mode \<Rightarrow> row_dict \<Rightarrow> stored_row \<Rightarrow> bool" where
  "proposes tb ins mode row r \<longleftrightarrow> (\<exists>now new. excluded_row tb now ins row = Inr new \<and> row_key tb r = row_key tb new
     \<and> (\<forall>c\<in>set (m_columns mode). r c = new c))"

definition matches :: "table \<Rightarrow> string list \<Rightarrow> upsert_mode \<Rightarrow> stored_row list \<Rightarrow> row_dict \<Rightarrow> bool" where
  "matches tb ins mode rows row \<longleftrightarrow> (\<exists>r\<in>set rows. proposes tb ins mode row r)"

lemma excluded_row_cell:
  assumes "excluded_row tb now ins row = Inr new" and "(c, ty, nullable) \<in> set (table_columns tb)" and "c \<in> set ins"
    and dc: "distinct (map fst (table_columns tb))"
  shows "\<exists>v. map_of row c = Some v \<and> store_cell ty nullable v = Inr (new c)"
proof -
  from assms(1) obtain cells where cells: "list_all2 (\<lambda>col y. cell_of now ins row col = Inr y) (table_columns tb) cells"
    and new: "new = (\<lambda>c. case map_of cells c of None \<Rightarrow> VNull | Some v \<Rightarrow> v)"
    by (auto simp: excluded_row_def smap_eq_Inr)
  have same: "fst y = fst col" if "cell_of now ins row col = Inr y" for col y
    using that by (auto simp: cell_of_def split: prod.splits if_splits option.splits)
  have "map fst cells = map fst (table_columns tb)"
  proof (rule nth_equalityI)
    show "length (map fst cells) = length (map fst (table_columns tb))"
      using cells by (simp add: list_all2_lengthD)
    show "map fst cells ! i = map fst (table_columns tb) ! i" if "i < length (map fst cells)" for i
      using that cells same [of "table_columns tb ! i" "cells ! i"] by (simp add: list_all2_conv_all_nth)
  qed
  with dc have dcells: "distinct (map fst cells)" by simp
  from assms(2) obtain i where i: "i < length (table_columns tb)" "table_columns tb ! i = (c, ty, nullable)"
    by (metis in_set_conv_nth)
  have len: "length (table_columns tb) = length cells" using cells by (rule list_all2_lengthD)
  define y where "y = cells ! i"
  have y: "y \<in> set cells" "cell_of now ins row (c, ty, nullable) = Inr y"
    using list_all2_nthD [OF cells i(1)] i len by (simp_all add: y_def)
  from y(2) assms(3) obtain v v' where v: "map_of row c = Some v" "store_cell ty nullable v = Inr v'"
    and yv: "y = (c, v')"
    by (auto simp: cell_of_def split: option.splits)
  have "map_of cells c = Some v'"
    using y(1) yv dcells by (simp add: map_of_eq_Some_iff)
  then have "new c = v'" by (simp add: new)
  with v show ?thesis by blast
qed

lemma distinct_columns: "distinct (map fst (table_columns tb))"
  by (cases tb) simp_all

lemma excluded_row_same:
  assumes "excluded_row tb now ins row = Inr new" and "excluded_row tb later ins row = Inr new'"
    and "c \<in> set ins" and "c \<in> set (map fst (table_columns tb))"
  shows "new c = new' c"
proof -
  from assms(4) obtain ty nullable where col: "(c, ty, nullable) \<in> set (table_columns tb)" by auto
  from excluded_row_cell [OF assms(1) col assms(3) distinct_columns]
    excluded_row_cell [OF assms(2) col assms(3) distinct_columns]
  show ?thesis by auto
qed

lemma smap_total: "(\<And>x. x \<in> set xs \<Longrightarrow> \<exists>y. f x = Inr y) \<Longrightarrow> \<exists>ys. smap f xs = Inr ys"
  by (induction xs) fastforce+

lemma excluded_row_later:
  assumes "excluded_row tb now ins row = Inr new"
  shows "\<exists>new'. excluded_row tb later ins row = Inr new'"
proof -
  from assms obtain cells where cells: "smap (cell_of now ins row) (table_columns tb) = Inr cells"
    by (auto simp: excluded_row_def)
  have "\<exists>y. cell_of later ins row col = Inr y" if "col \<in> set (table_columns tb)" for col
  proof -
    obtain c ty nullable where col: "col = (c, ty, nullable)" by (metis prod_cases3)
    from cells that obtain y where y: "cell_of now ins row col = Inr y"
      by (force simp: smap_eq_Inr list_all2_conv_all_nth in_set_conv_nth)
    show ?thesis
    proof (cases "c \<in> set ins \<or> c \<notin> {''created_at'', ''updated_at''}")
      case True
      then have "cell_of later ins row col = cell_of now ins row col"
        by (auto simp: col cell_of_def default_value_def)
      with y show ?thesis by simp
    next
      case False
      with y show ?thesis by (cases ty) (auto simp: col cell_of_def default_value_def)
    qed
  qed
  then obtain ys where "smap (cell_of later ins row) (table_columns tb) = Inr ys" using smap_total by blast
  then show ?thesis by (simp add: excluded_row_def)
qed

definition entry_key :: "table \<Rightarrow> row_dict \<Rightarrow> dbval option list" where
  "entry_key tb row = map (map_of row) (table_keys tb)"

lemma store_cell_id: "store_cell ty nullable v = Inr v' \<Longrightarrow> ty \<noteq> CNumeric \<Longrightarrow> v' = v"
  by (cases "(ty, nullable, v)" rule: store_cell.cases) (auto split: if_splits)

lemma key_columns: "c \<in> set (table_keys tb) \<Longrightarrow> \<exists>ty nullable. (c, ty, nullable) \<in> set (table_columns tb) \<and> ty \<noteq> CNumeric"
  by (cases tb) auto

lemma excluded_row_key:
  assumes new: "excluded_row tb now ins row = Inr new" and ins: "set (table_keys tb) \<subseteq> set ins"
  shows "map Some (row_key tb new) = entry_key tb row"
proof -
  have "map_of row c = Some (new c)" if "c \<in> set (table_keys tb)" for c
  proof -
    from key_columns [OF that] obtain ty nullable where col: "(c, ty, nullable) \<in> set (table_columns tb)" "ty \<noteq> CNumeric"
      by blast
    from excluded_row_cell [OF new col(1) _ distinct_columns] that ins store_cell_id [OF _ col(2)]
    show ?thesis by (metis subsetD)
  qed
  then show ?thesis by (simp add: row_key_def entry_key_def)
qed

lemma map_Some_eq: "map Some xs = map Some ys \<longleftrightarrow> xs = ys"
  by (rule inj_map_eq_map) simp

lemma matches_key:
  assumes "proposes tb ins mode row r" and "set (table_keys tb) \<subseteq> set ins"
  shows "map Some (row_key tb r) = entry_key tb row"
  using assms excluded_row_key by (fastforce simp: proposes_def)

lemma upsert_entry_matches:
  assumes step: "upsert_entry tb now ins mode row (rows, n, touched) = Inr (rows', n', touched')"
    and keys: "keys_distinct tb rows" and ins: "set (table_keys tb) \<subseteq> set ins"
    and keep: "m_keep mode = []" and upd: "''updated_at'' \<notin> set (m_columns mode)"
    and cols: "set (m_columns mode) \<inter> set (table_keys tb) = {}"
  shows "matches tb ins mode rows' row"
    and "matches tb ins mode rows e \<Longrightarrow> entry_key tb e \<noteq> entry_key tb row \<Longrightarrow> matches tb ins mode rows' e"
proof -
  have "matches tb ins mode rows' row \<and> (matches tb ins mode rows e \<longrightarrow> entry_key tb e \<noteq> entry_key tb row
      \<longrightarrow> matches tb ins mode rows' e)"
    using step
  proof (cases rule: upsert_entry_cases)
    case (added new)
    then show ?thesis by (auto simp: matches_def proposes_def)
  next
    case (same new old)
    then have "proposes tb ins mode row old"
      by (auto simp: proposes_def differs_def list_ex_iff intro!: exI [of _ now] exI [of _ new])
    with same show ?thesis by (auto simp: matches_def)
  next
    case (updated new old)
    let ?g = "\<lambda>r. if row_key tb r = row_key tb new then updated_row tb now mode new old else r"
    have "updated_row tb now mode new old c = new c" if "c \<in> set (m_columns mode)" for c
      using that upd keep by (auto simp: updated_row_def)
    then have "proposes tb ins mode row (?g old)"
      unfolding proposes_def using updated(1,3) updated_row_key [OF cols, of now new old]
      by (intro exI [of _ now] exI [of _ new]) simp
    moreover have "?g old \<in> set rows'" using updated(2,6) by simp
    ultimately have row: "matches tb ins mode rows' row" unfolding matches_def by blast
    have "matches tb ins mode rows' e" if m: "matches tb ins mode rows e" and ne: "entry_key tb e \<noteq> entry_key tb row"
    proof -
      from m obtain r where r: "r \<in> set rows" "proposes tb ins mode e r" by (auto simp: matches_def)
      then have "row_key tb r \<noteq> row_key tb new"
        using ne matches_key [OF r(2) ins] excluded_row_key [OF updated(1) ins] by metis
      then have "r \<in> set rows'" using r(1) updated(6) by (auto simp: image_iff)
      with r(2) show ?thesis by (auto simp: matches_def)
    qed
    with row show ?thesis by blast
  qed
  then show "matches tb ins mode rows' row"
    and "matches tb ins mode rows e \<Longrightarrow> entry_key tb e \<noteq> entry_key tb row \<Longrightarrow> matches tb ins mode rows' e"
    by blast+
qed

text \<open>
  One statement after another: the entries written by the earlier ones, `ready`, stay matched as long
  as no later entry has one of their keys.
\<close>

lemma upsert_fold_matches:
  assumes keys: "keys_distinct tb rows0" and ins: "set (table_keys tb) \<subseteq> set ins"
    and keep: "m_keep mode = []" and upd: "''updated_at'' \<notin> set (m_columns mode)"
    and cols: "set (m_columns mode) \<inter> set (table_keys tb) = {}"
    and "distinct (map (entry_key tb) (ready @ entries))" and "\<forall>e\<in>set ready. matches tb ins mode rows0 e"
    and "sfold (upsert_entry tb now ins mode) entries (rows0, 0, []) = Inr (rows, n, touched)"
  shows "keys_distinct tb rows \<and> (\<forall>e\<in>set (ready @ entries). matches tb ins mode rows e)"
  using assms(6-)
proof (induction entries arbitrary: rows n touched rule: rev_induct)
  case Nil
  then show ?case using keys by simp
next
  case (snoc row entries)
  from snoc.prems(3) obtain rows1 n1 touched1 where
    fold: "sfold (upsert_entry tb now ins mode) entries (rows0, 0, []) = Inr (rows1, n1, touched1)"
    and step: "upsert_entry tb now ins mode row (rows1, n1, touched1) = Inr (rows, n, touched)"
    by (auto simp: sfold_snoc)
  have IH: "keys_distinct tb rows1" "\<forall>e\<in>set (ready @ entries). matches tb ins mode rows1 e"
    using snoc.IH [OF _ snoc.prems(2) fold] snoc.prems(1) by auto
  note m = upsert_entry_matches [OF step IH(1) ins keep upd cols]
  have "keys_distinct tb rows"
    using upsert_entry_extends [OF step IH(1) extends_refl cols] by blast
  moreover have "entry_key tb e \<noteq> entry_key tb row" if "e \<in> set (ready @ entries)" for e
    using snoc.prems(1) that by (auto simp: image_iff)
  ultimately show ?case using m IH(2) by auto
qed

lemma upsert_entry_repeat:
  assumes m: "matches tb ins mode rows row" and keys: "keys_distinct tb rows"
    and only: "m_only_if_changed mode" and cols: "set (m_columns mode) \<subseteq> set ins \<inter> set (map fst (table_columns tb))"
    and ins: "set (table_keys tb) \<subseteq> set ins"
  shows "upsert_entry tb later ins mode row (rows, n, []) = Inr (rows, n, [])"
proof -
  from m obtain r now new where r: "r \<in> set rows" "row_key tb r = row_key tb new"
    and new: "excluded_row tb now ins row = Inr new" and same: "\<forall>c\<in>set (m_columns mode). r c = new c"
    by (auto simp: matches_def proposes_def)
  from excluded_row_later [OF new] obtain new' where new': "excluded_row tb later ins row = Inr new'" by blast
  have key: "row_key tb new' = row_key tb new"
    using excluded_row_key [OF new ins] excluded_row_key [OF new' ins] map_Some_eq by metis
  have "\<not> differs mode new' r"
    using same excluded_row_same [OF new new'] cols by (fastforce simp: differs_def list_ex_iff)
  moreover have "find (\<lambda>s. row_key tb s = row_key tb new') rows = Some r"
  proof (cases "find (\<lambda>s. row_key tb s = row_key tb new') rows")
    case None
    with r key show ?thesis by (auto simp: find_None_iff)
  next
    case (Some s)
    then have "s \<in> set rows" "row_key tb s = row_key tb new'" by (auto simp: find_Some_iff)
    with keys_distinct_same [OF keys _ r(1)] r(2) key Some show ?thesis by metis
  qed
  ultimately show ?thesis using only new' by (simp add: upsert_entry_def)
qed

lemma upsert_fold_repeat:
  assumes "\<forall>e\<in>set entries. matches tb ins mode rows e" and "keys_distinct tb rows"
    and "m_only_if_changed mode" and "set (m_columns mode) \<subseteq> set ins \<inter> set (map fst (table_columns tb))"
    and "set (table_keys tb) \<subseteq> set ins"
  shows "sfold (upsert_entry tb later ins mode) entries (rows, n, []) = Inr (rows, n, [])"
  using assms(1) by (induction entries) (simp_all add: upsert_entry_repeat [OF _ assms(2-)])

lemma chunk_not_Nil: "c \<in> set (chunks n xs) \<Longrightarrow> c \<noteq> []"
proof (induction n xs rule: chunks.induct)
  case (1 n xs)
  then show ?case by (cases "n = 0 \<or> xs = []") (auto simp: chunks.simps [of n xs])
qed

lemma chunks_members:
  assumes "\<forall>r\<in>set rows. map fst r = ins" and "c \<in> set (chunks rows_per_statement rows)"
  shows "map fst (hd c) = ins"
proof -
  have "c \<noteq> []" using assms(2) by (rule chunk_not_Nil)
  then have "hd c \<in> set (concat (chunks rows_per_statement rows))" using assms(2) by force
  then have "hd c \<in> set rows" by (simp only: concat_chunks [of rows_per_statement] rows_per_statement_def) (simp add: concat_chunks)
  with assms(1) show ?thesis by blast
qed

text \<open>The statements of an upsert leave every entry matched, and repeating them then changes nothing.\<close>

lemma wp_upsert_chunks:
  assumes "keys_distinct tb (catalogue (cur (wsess w)) tb)" and ins: "set (table_keys tb) \<subseteq> set ins"
    and mode: "m_keep mode = []" "''updated_at'' \<notin> set (m_columns mode)"
      "set (m_columns mode) \<inter> set (table_keys tb) = {}"
    and "distinct (map (entry_key tb) (ready @ concat ess))"
    and "\<forall>e\<in>set ready. matches tb ins mode (catalogue (cur (wsess w)) tb) e"
    and "\<forall>es\<in>set ess. map fst (hd es) = ins"
  shows "wp (map_prog (\<lambda>es. exec_work e (upsert_stmt tb mode es)) ess)
    (\<lambda>_ v. keys_distinct tb (catalogue (cur (wsess v)) tb)
      \<and> (\<forall>r\<in>set (ready @ concat ess). matches tb ins mode (catalogue (cur (wsess v)) tb) r)
      \<and> (ess \<noteq> [] \<longrightarrow> set ins \<subseteq> set (map fst (table_columns tb)))) (\<lambda>_ _. True) w"
  using assms(1,6-)
proof (induction ess arbitrary: ready w)
  case Nil
  then show ?case by (simp add: wp_simps)
next
  case (Cons es ess)
  show ?case
    unfolding map_prog.simps wp_bnd
  proof (rule wp_exec_work, goal_cases)
    case (1 now a d n se)
    then obtain rows touched where
      fold: "sfold (upsert_entry tb now ins mode) es (catalogue (cur (wsess w)) tb, 0, []) = Inr (rows, a, touched)"
      and d: "d = set_table tb rows (cur (wsess w))" and known: "set ins \<subseteq> set (map fst (table_columns tb))"
      using Cons.prems(4) by (auto simp: upsert_stmt_def Let_def simp del: set_map split: if_splits)
    have "distinct (map (entry_key tb) (ready @ es))" using Cons.prems(2) by auto
    then have m: "keys_distinct tb rows" "\<forall>r\<in>set (ready @ es). matches tb ins mode rows r"
      using upsert_fold_matches [OF Cons.prems(1) ins mode _ Cons.prems(3) fold] by blast+
    have d_rows: "catalogue d tb = rows" by (simp add: d set_table_def)
    show ?case
    proof (rule wp_mono [OF Cons.IH [of _ "ready @ es"]], goal_cases)
      case (5 ns v)
      then show ?case using known by (simp add: wp_simps)
    qed (use m 1 d_rows Cons.prems in \<open>auto simp: wp_simps\<close>)
  qed simp
qed

lemma wp_upsert_chunks_again:
  assumes m: "\<forall>r\<in>set (concat ess). matches tb ins mode (catalogue (cur (wsess w)) tb) r"
    and keys: "keys_distinct tb (catalogue (cur (wsess w)) tb)" and only: "m_only_if_changed mode"
    and cols: "set (m_columns mode) \<subseteq> set ins \<inter> set (map fst (table_columns tb))"
    and ins: "set (table_keys tb) \<subseteq> set ins" and "\<forall>es\<in>set ess. map fst (hd es) = ins"
  shows "wp (map_prog (\<lambda>es. exec_work e (upsert_stmt tb mode es)) ess)
    (\<lambda>ns v. sum_list ns = 0 \<and> cur (wsess v) = cur (wsess w)) (\<lambda>_ _. True) w"
  using m keys assms(6)
proof (induction ess arbitrary: w)
  case Nil
  then show ?case by (simp add: wp_simps)
next
  case (Cons es ess)
  have fold: "sfold (upsert_entry tb now ins mode) es (catalogue (cur (wsess w)) tb, 0, [])
      = Inr (catalogue (cur (wsess w)) tb, 0, [])" for now
    by (rule upsert_fold_repeat [OF _ Cons.prems(2) only cols ins]) (use Cons.prems(1) in auto)
  have self: "set_table tb (catalogue d tb) d = d" for d by (simp add: set_table_def)
  show ?case
    unfolding map_prog.simps wp_bnd
  proof (rule wp_exec_work, goal_cases)
    case (1 now a d n se)
    then have same: "a = 0" "cur se = cur (wsess w)"
      using Cons.prems(3) fold by (auto simp: upsert_stmt_def Let_def self simp del: set_map split: if_splits)
    show ?case
      by (rule wp_mono [OF Cons.IH]) (use Cons.prems same in \<open>auto simp: wp_simps\<close>)
  qed simp
qed

section \<open>Replacing links\<close>

lemma insert_stmt_rows:
  assumes "insert_stmt tb entries now d = Inr (u, d')"
  shows "\<exists>news. list_all2 (\<lambda>e new. excluded_row tb now (map fst (hd entries)) e = Inr new) entries news
    \<and> d' = set_table tb (catalogue d tb @ news) d"
proof -
  have fold: "\<exists>news. list_all2 (\<lambda>e new. excluded_row tb now ins e = Inr new) es news \<and> rows' = rows @ news"
    if "sfold (insert_entry tb now ins) es rows = Inr rows'" for ins es rows rows'
    using that
  proof (induction es arbitrary: rows)
    case Nil
    then show ?case by simp
  next
    case (Cons e es)
    from Cons.prems obtain rows1 where step: "insert_entry tb now ins e rows = Inr rows1"
      and more: "sfold (insert_entry tb now ins) es rows1 = Inr rows'"
      by auto
    from step obtain new where new: "excluded_row tb now ins e = Inr new" and "rows1 = rows @ [new]"
      unfolding insert_entry_def by (auto split: if_splits)
    with more have rest: "sfold (insert_entry tb now ins) es (rows @ [new]) = Inr rows'" by simp
    from Cons.IH [OF rest] obtain news where "list_all2 (\<lambda>e new. excluded_row tb now ins e = Inr new) es news"
      "rows' = rows @ new # news" by auto
    with new show ?case by (intro exI [of _ "new # news"]) simp
  qed
  from assms obtain rows' where "sfold (insert_entry tb now (map fst (hd entries))) entries (catalogue d tb) = Inr rows'"
    and d': "d' = set_table tb rows' d"
    by (auto simp: insert_stmt_def Let_def split: if_splits)
  from fold [OF this(1)] d' show ?thesis by blast
qed

definition link_table :: "table \<Rightarrow> bool" where
  "link_table tb \<longleftrightarrow> tb \<in> {TAnimeTag, TAnimeStudio, TRelation}"

definition link_ok :: "table \<Rightarrow> link \<Rightarrow> bool" where
  "link_ok tb l \<longleftrightarrow> tb = TRelation \<or> fst l = []"

definition link_entry :: "table \<Rightarrow> int \<times> link \<Rightarrow> row_dict" where
  "link_entry tb al = (''anime_id'', VInt (fst al)) # link_cells tb (snd al)"

lemma link_entry_columns: "link_table tb \<Longrightarrow> map fst (link_entry tb al) = map fst (table_columns tb)"
  by (cases al rule: prod_cases3) (auto simp: link_entry_def link_table_def)

text \<open>The stored row of a link entry reads back as that link.\<close>

lemma link_row:
  assumes tb: "link_table tb" and l: "link_ok tb l"
    and new: "excluded_row tb now (map fst (table_columns tb)) (link_entry tb (a, l)) = Inr new"
  shows "new ''anime_id'' = VInt a \<and> row_link tb new = l"
proof -
  have cell: "Some (new c) = map_of (link_entry tb (a, l)) c" if "(c, ty, nullable) \<in> set (table_columns tb)" "ty \<noteq> CNumeric"
    for c ty nullable
    using excluded_row_cell [OF new that(1) _ distinct_columns] store_cell_id [OF _ that(2)] that(1)
    by (metis fst_conv image_eqI list.set_map)
  obtain t i where li: "l = (t, i)" by fastforce
  consider "tb = TAnimeTag" | "tb = TAnimeStudio" | "tb = TRelation" using tb by (auto simp: link_table_def)
  then show ?thesis
  proof cases
    case 1
    then show ?thesis using cell [of "''anime_id''" CInt False] cell [of "''tag_id''" CInt False] l
      by (simp add: li link_entry_def link_ok_def)
  next
    case 2
    then show ?thesis using cell [of "''anime_id''" CInt False] cell [of "''studio_id''" CInt False] l
      by (simp add: li link_entry_def link_ok_def)
  next
    case 3
    then show ?thesis using cell [of "''anime_id''" CInt False] cell [of "''relation''" CText False]
        cell [of "''related_mal_id''" CInt False]
      by (simp add: li link_entry_def)
  qed
qed

definition is_link_row :: "table \<Rightarrow> int \<times> link \<Rightarrow> stored_row \<Rightarrow> bool" where
  "is_link_row tb al r \<longleftrightarrow> r ''anime_id'' = VInt (fst al) \<and> row_link tb r = snd al"

lemma insert_links_stmt:
  assumes tb: "link_table tb" and ok: "\<forall>al\<in>set als. link_ok tb (snd al)"
    and run: "insert_stmt tb (map (link_entry tb) als) now d = Inr (u, d')"
  shows "\<exists>news. list_all2 (is_link_row tb) als news \<and> d' = set_table tb (catalogue d tb @ news) d"
proof -
  from insert_stmt_rows [OF run] obtain news where
    news: "list_all2 (\<lambda>e new. excluded_row tb now (map fst (hd (map (link_entry tb) als))) e = Inr new)
      (map (link_entry tb) als) news" and d': "d' = set_table tb (catalogue d tb @ news) d" by blast
  have "is_link_row tb (als ! i) (news ! i)" if i: "i < length als" for i
  proof -
    have "hd (map (link_entry tb) als) = link_entry tb (hd als)" using i by (cases als) auto
    with news i have "excluded_row tb now (map fst (table_columns tb)) (link_entry tb (als ! i)) = Inr (news ! i)"
      by (simp add: list_all2_conv_all_nth link_entry_columns [OF tb])
    moreover obtain a l where "als ! i = (a, l)" by (metis surj_pair)
    ultimately show ?thesis using link_row [OF tb, of l now a] ok nth_mem [OF i] by (auto simp: is_link_row_def)
  qed
  moreover have "length news = length als" using list_all2_lengthD [OF news] by simp
  ultimately have "list_all2 (is_link_row tb) als news" by (simp add: list_all2_conv_all_nth)
  with d' show ?thesis by blast
qed

lemma chunks_map: "chunks n (map f xs) = map (map f) (chunks n xs)"
proof (induction n xs rule: chunks.induct)
  case (1 n xs)
  then show ?case
    by (cases "n = 0 \<or> xs = []") (auto simp: chunks.simps [of n "map f xs"] chunks.simps [of n xs] take_map drop_map)
qed

lemma wp_insert_links:
  assumes tb: "link_table tb" and ok: "\<forall>al\<in>set (concat alss). link_ok tb (snd al)"
  shows "wp (for_each (\<lambda>chunk. exec_work e (insert_stmt tb chunk)) (map (map (link_entry tb)) alss))
    (\<lambda>_ v. \<exists>news. list_all2 (is_link_row tb) (concat alss) news
       \<and> cur (wsess v) = set_table tb (catalogue (cur (wsess w)) tb @ news) (cur (wsess w))) (\<lambda>_ _. True) w"
  using ok
proof (induction alss arbitrary: w)
  case Nil
  then show ?case by (simp add: wp_simps set_table_def)
next
  case (Cons als alss)
  show ?case
    unfolding list.map for_each.simps wp_bnd
  proof (rule wp_exec_work, goal_cases)
    case (1 now a d n se)
    from insert_links_stmt [OF tb _ 1(1)] Cons.prems obtain news where
      news: "list_all2 (is_link_row tb) als news" and d: "d = set_table tb (catalogue (cur (wsess w)) tb @ news) (cur (wsess w))"
      by auto
    show ?case
    proof (rule wp_mono [OF Cons.IH], goal_cases)
      case 1
      then show ?case using Cons.prems by auto
    next
      case (2 u v)
      then obtain more where more: "list_all2 (is_link_row tb) (concat alss) more"
        "cur (wsess v) = set_table tb (catalogue d tb @ more) d" using 1(2) by auto
      show ?case
        by (rule exI [of _ "news @ more"]) (use news more d in \<open>auto simp: list_all2_appendI set_table_def\<close>)
    qed simp
  qed simp
qed

definition link_pairs :: "(int, link list) dict \<Rightarrow> int list \<Rightarrow> (int \<times> link) list" where
  "link_pairs wanted changed = concat (map (\<lambda>anime.
     map (Pair anime) (case map_of wanted anime of None \<Rightarrow> [] | Some links \<Rightarrow> sort (uniq links))) changed)"

lemma link_rows_pairs: "link_rows tb wanted changed = map (link_entry tb) (link_pairs wanted changed)"
  by (simp add: link_rows_def link_pairs_def map_concat comp_def link_entry_def)

lemma stored_links_append: "stored_links tb (xs @ ys) a = stored_links tb xs a \<union> stored_links tb ys a"
  by (simp add: stored_links_def image_Un)

lemma stored_links_new:
  assumes "list_all2 (is_link_row tb) als news"
  shows "stored_links tb news a = {l. (a, l) \<in> set als}"
  using assms
proof (induction als news rule: list_all2_induct)
  case Nil
  then show ?case by (simp add: stored_links_def)
next
  case (Cons al als r news)
  then show ?case by (cases al) (auto simp: stored_links_def is_link_row_def)
qed

lemma stored_links_delete:
  "stored_links tb (filter (\<lambda>r. r ''anime_id'' \<notin> VInt ` set changed) rows) a
     = (if a \<in> set changed then {} else stored_links tb rows a)"
  by (auto simp: stored_links_def)

definition rows_outside :: "int list \<Rightarrow> stored_row list \<Rightarrow> stored_row list" where
  "rows_outside changed rows = filter (\<lambda>r. r ''anime_id'' \<notin> VInt ` set changed) rows"

lemma replace_links_wp:
  assumes tb: "link_table tb" and wanted: "distinct (map fst wanted)"
    and ok: "list_all (\<lambda>(a, links). list_all (link_ok tb) links) wanted"
  shows "wp (replace_links e tb wanted)
    (\<lambda>n v. (\<forall>a. stored_links tb (catalogue (cur (wsess v)) tb) a
             = (case map_of wanted a of None \<Rightarrow> stored_links tb (catalogue (cur (wsess w)) tb) a | Some links \<Rightarrow> set links))
        \<and> n = int (length (changed_links tb wanted (catalogue (cur (wsess w)) tb)))
        \<and> rows_outside (changed_links tb wanted (catalogue (cur (wsess w)) tb)) (catalogue (cur (wsess v)) tb)
            = rows_outside (changed_links tb wanted (catalogue (cur (wsess w)) tb)) (catalogue (cur (wsess w)) tb)
        \<and> cur (wsess v) = set_table tb (catalogue (cur (wsess v)) tb) (cur (wsess w))) (\<lambda>_ _. True) w"
proof -
  let ?rows = "catalogue (cur (wsess w)) tb"
  define changed where "changed = changed_links tb wanted ?rows"
  have kept: "stored_links tb ?rows a = set links" if "map_of wanted a = Some links" "a \<notin> set changed" for a links
    using that by (force simp: changed_def changed_links_def dest: map_of_SomeD)
  have sub: "set changed \<subseteq> fst ` set wanted" by (auto simp: changed_def changed_links_def)
  have pairs: "(a, l) \<in> set (link_pairs wanted changed)
      \<longleftrightarrow> a \<in> set changed \<and> (\<exists>links. map_of wanted a = Some links \<and> l \<in> set links)" for a l
  proof -
    have "(a, l) \<in> set (link_pairs wanted changed) \<longleftrightarrow> a \<in> set changed
        \<and> l \<in> set (case map_of wanted a of None \<Rightarrow> [] | Some links \<Rightarrow> sort (uniq links))"
      unfolding link_pairs_def set_concat set_map image_image by blast
    then show ?thesis by (cases "map_of wanted a") simp_all
  qed
  have pairs_ok: "\<forall>al\<in>set (concat (chunks rows_per_statement (link_pairs wanted changed))). link_ok tb (snd al)"
    using ok by (fastforce simp: concat_chunks rows_per_statement_def pairs list_all_iff dest: map_of_SomeD)
  have final: "stored_links tb (filter (\<lambda>r. r ''anime_id'' \<notin> VInt ` set changed) ?rows @ news) a
      = (case map_of wanted a of None \<Rightarrow> stored_links tb ?rows a | Some links \<Rightarrow> set links)"
    if "list_all2 (is_link_row tb) (link_pairs wanted changed) news" for news a
  proof (cases "map_of wanted a")
    case None
    then have "a \<notin> set changed" using sub by (auto simp: map_of_eq_None_iff)
    then show ?thesis using None
      by (auto simp: stored_links_append stored_links_delete stored_links_new [OF that] pairs)
  next
    case (Some links)
    then show ?thesis using kept [OF Some]
      by (auto simp: stored_links_append stored_links_delete stored_links_new [OF that] pairs)
  qed
  have outside: "rows_outside changed (filter (\<lambda>r. r ''anime_id'' \<notin> VInt ` set changed) ?rows @ news) = rows_outside changed ?rows"
    if "list_all2 (is_link_row tb) (link_pairs wanted changed) news" for news
  proof -
    have "r ''anime_id'' \<in> VInt ` set changed" if "r \<in> set news" for r
    proof -
      from that obtain i where "i < length news" "r = news ! i" by (metis in_set_conv_nth)
      with \<open>list_all2 _ _ news\<close> have "is_link_row tb (link_pairs wanted changed ! i) r"
        "link_pairs wanted changed ! i \<in> set (link_pairs wanted changed)"
        by (auto simp: list_all2_conv_all_nth)
      then show ?thesis using pairs [of "fst (link_pairs wanted changed ! i)" "snd (link_pairs wanted changed ! i)"]
        by (auto simp: is_link_row_def)
    qed
    then show ?thesis by (auto simp: rows_outside_def filter_empty_conv)
  qed
  have set_self: "set_table tb (catalogue d tb) d = d" for d by (simp add: set_table_def)
  show ?thesis
  proof (cases "wanted = []")
    case True
    then show ?thesis by (simp add: replace_links_def wp_simps changed_links_def set_self)
  next
    case False
    show ?thesis
      unfolding replace_links_def cat_query_def if_not_P [OF False]
    proof (subst wp_bnd, rule wp_exec_work, goal_cases)
      case (1 now a d n se)
      then have a: "a = changed" and se: "cur se = cur (wsess w)" by (auto simp: query_def changed_def)
      show ?case
      proof (cases "changed = []")
        case True
        have "stored_links tb ?rows i = (case map_of wanted i of None \<Rightarrow> stored_links tb ?rows i | Some links \<Rightarrow> set links)" for i
          using kept [of i] True by (simp split: option.split)
        then show ?thesis using True a se by (simp add: wp_simps set_self flip: changed_def)
      next
        case changed: False
        show ?thesis
          unfolding a if_not_P [OF changed]
        proof (subst wp_bnd, rule wp_exec_work, goal_cases)
          case (1 now u d n' se')
          then have d: "d = set_table tb (filter (\<lambda>r. r ''anime_id'' \<notin> VInt ` set changed) ?rows) (cur (wsess w))"
            by (auto simp: delete_links_def se)
          show ?case
            unfolding link_rows_pairs chunks_map
          proof (subst wp_bnd, rule wp_mono [OF wp_insert_links [OF tb pairs_ok]], goal_cases)
            case (1 u v)
            then obtain news where news: "list_all2 (is_link_row tb) (link_pairs wanted changed) news"
              and v: "cur (wsess v) = set_table tb (catalogue d tb @ news) d"
              using \<open>cur se' = d\<close> by (auto simp: concat_chunks rows_per_statement_def)
            show ?case using final [OF news] outside [OF news] v
              by (simp add: wp_simps d set_table_def changed_def)
          qed simp
        qed simp
      qed
    qed simp
  qed
qed

section \<open>Whole operations\<close>

lemma extends_trans:
  assumes "extends cols a b" and "extends cols b c" shows "extends cols a c"
  using assms
  by (auto simp: extends_def list_all2_conv_all_nth intro: same_outside_trans)

text \<open>
  `only_touches tb cols d d'`: between the two states only the table `tb` has changed, by new rows
  and by the columns `cols` of its old rows.
\<close>

definition only_touches :: "table \<Rightarrow> string set \<Rightarrow> db \<Rightarrow> db \<Rightarrow> bool" where
  "only_touches tb cols d d' \<longleftrightarrow> keys_distinct tb (catalogue d' tb)
     \<and> extends cols (catalogue d tb) (catalogue d' tb)
     \<and> d' = set_table tb (catalogue d' tb) d"

lemma set_table_twice: "set_table tb xs (set_table tb ys d) = set_table tb xs d"
  by (simp add: set_table_def)

lemma only_touches_stmt:
  assumes "only_touches tb (insert ''updated_at'' (set (m_columns mode))) d0 d"
    and "upsert_stmt tb mode entries now d = Inr (n, d')"
    and "set (m_columns mode) \<inter> set (table_keys tb) = {}"
  shows "only_touches tb (insert ''updated_at'' (set (m_columns mode))) d0 d'"
proof -
  have keys: "keys_distinct tb (catalogue d tb)" using assms(1) by (simp add: only_touches_def)
  note ext = upsert_stmt_extends [OF assms(2) keys assms(3)]
  have "d' = set_table tb (catalogue d' tb) d"
    using assms(2) by (auto simp: upsert_stmt_def Let_def set_table_def split: if_splits)
  moreover from assms(1) obtain rows where "d = set_table tb rows d0" by (auto simp: only_touches_def)
  ultimately have "d' = set_table tb (catalogue d' tb) d0" by (metis set_table_twice)
  then show ?thesis using assms(1) ext(1,2) extends_trans unfolding only_touches_def by blast
qed

lemma keeps_cat_upsert:
  "keeps (\<lambda>w. only_touches tb (insert ''updated_at'' (set (upsert_columns tb rows))) d0 (cur (wsess w)))
     (cat_upsert e tb rows only keep)"
proof -
  have chunk: "keeps (\<lambda>w. only_touches tb (insert ''updated_at'' (set (upsert_columns tb rows))) d0 (cur (wsess w)))
     (exec_work e (upsert_stmt tb \<lparr>m_columns = upsert_columns tb rows, m_keep = keep, m_only_if_changed = only\<rparr> es))" for es
  proof (rule keeps_wpI, rule wp_exec_work, goal_cases)
    case (1 s now a d n se)
    have disjoint: "set (upsert_columns tb rows) \<inter> set (table_keys tb) = {}" by (auto simp: upsert_columns_def)
    show ?case
      using only_touches_stmt [OF _ 1(2), unfolded upsert_mode.select_convs, OF 1(1) disjoint] 1(3) by simp
  qed simp
  show ?thesis unfolding cat_upsert_def Let_def by (auto intro!: keeps_if keeps_bnd keeps_map_prog chunk)
qed

section \<open>Properties\<close>

text \<open>C16. An upsert, however it ends, removes no row and changes nothing outside its own table; a row that
  was there keeps its key and every column the given rows do not set (such as another pipeline's
  score), but for the time of the update.\<close>

theorem upsert_own_columns:
  assumes "keys_distinct tb (catalogue (cur (wsess w)) tb)"
    and "cat_upsert e tb rows only_if_changed keep w = (r, v)"
  shows "let old = catalogue (cur (wsess w)) tb; new = catalogue (cur (wsess v)) tb in
     cur (wsess v) = set_table tb new (cur (wsess w)) \<and> keys_distinct tb new \<and> length old \<le> length new
     \<and> list_all2 (\<lambda>r r'. row_key tb r' = row_key tb r
         \<and> {c. r' c \<noteq> r c} \<subseteq> insert ''updated_at'' (set (map fst (hd rows)) - set (table_keys tb)))
         old (take (length old) new)"
proof -
  let ?cols = "insert ''updated_at'' (set (upsert_columns tb rows))"
  have "only_touches tb ?cols (cur (wsess w)) (cur (wsess w))"
    using assms(1) by (simp add: only_touches_def set_table_def)
  with keepsD [OF keeps_cat_upsert assms(2)] have o: "only_touches tb ?cols (cur (wsess w)) (cur (wsess v))" .
  have cols: "?cols = insert ''updated_at'' (set (map fst (hd rows)) - set (table_keys tb))"
    by (auto simp: upsert_columns_def)
  have sub: "row_key tb r' = row_key tb r \<and> {c. r' c \<noteq> r c} \<subseteq> insert ''updated_at'' (set (map fst (hd rows)) - set (table_keys tb))"
    if "same_outside ?cols r r'" for r r'
  proof
    have same: "r' c = r c" if "c \<notin> ?cols" for c
      using \<open>same_outside ?cols r r'\<close> that unfolding same_outside_def by metis
    have "c \<notin> ?cols" if "c \<in> set (table_keys tb)" for c
      using that key_not_updated_at [of tb] unfolding cols by auto
    then show "row_key tb r' = row_key tb r" by (simp add: row_key_def same)
    show "{c. r' c \<noteq> r c} \<subseteq> insert ''updated_at'' (set (map fst (hd rows)) - set (table_keys tb))"
      using same unfolding cols by blast
  qed
  from o have parts: "keys_distinct tb (catalogue (cur (wsess v)) tb)"
      "extends ?cols (catalogue (cur (wsess w)) tb) (catalogue (cur (wsess v)) tb)"
      "cur (wsess v) = set_table tb (catalogue (cur (wsess v)) tb) (cur (wsess w))"
    unfolding only_touches_def by blast+
  have "length (catalogue (cur (wsess w)) tb) \<le> length (catalogue (cur (wsess v)) tb)"
    using parts(2) unfolding extends_def by (rule conjunct1)
  moreover have "list_all2 (same_outside ?cols) (catalogue (cur (wsess w)) tb)
      (take (length (catalogue (cur (wsess w)) tb)) (catalogue (cur (wsess v)) tb))"
    using parts(2) unfolding extends_def by (rule conjunct2)
  ultimately show ?thesis
    unfolding Let_def by (intro conjI parts) (assumption | erule list_all2_mono, rule sub, assumption)+
qed

definition tag_row :: "int \<Rightarrow> string \<Rightarrow> stored_row" where
  "tag_row i name = (\<lambda>c. if c = ''mal_id'' then VInt i else if c = ''name'' then VText name else VNull)"

definition tag_db :: db where
  "tag_db = empty_db\<lparr>catalogue := (\<lambda>_. [])(TTag := [tag_row 1 ''Action''])\<rparr>"

theorem upsert_own_columns_witness:
  "keys_distinct TTag (catalogue (cur (wsess (snd (upsert_tags calm_env [(1, ''Adventure'')] (start_world [] tag_db))))) TTag)"
proof -
  have "keys_distinct TTag (catalogue (cur (wsess (start_world [] tag_db))) TTag)"
    by (simp add: start_world_def fresh_session_def tag_db_def keys_distinct_def)
  from upsert_own_columns [OF this prod.collapse [symmetric]] show ?thesis
    unfolding upsert_tags_def Let_def by blast
qed

text \<open>C17. Upserting the same anime rows a second time, in however many statements, writes nothing and
  changes nothing, so `updated_at` stays the time of the last real change; meanwhile other tables
  may have changed.\<close>

theorem upsert_anime_repeat:
  assumes "keys_distinct TAnime (catalogue (cur (wsess w)) TAnime)" and "distinct (map (entry_key TAnime) rows)"
    and "\<forall>r\<in>set rows. map fst r = cols" and "''mal_id'' \<in> set cols" and "''updated_at'' \<notin> set cols"
    and first: "upsert_anime e rows w = (Inr n, w1)"
    and "catalogue (cur (wsess w2)) TAnime = catalogue (cur (wsess w1)) TAnime"
    and again: "upsert_anime e' rows w2 = (Inr m, w3)"
  shows "m = 0 \<and> cur (wsess w3) = cur (wsess w2)"
proof (cases "rows = []")
  case True
  with again show ?thesis by (auto simp: upsert_anime_def cat_upsert_def ret_def)
next
  case False
  let ?mode = "\<lparr>m_columns = upsert_columns TAnime rows, m_keep = [], m_only_if_changed = True\<rparr>"
  let ?chunks = "chunks rows_per_statement rows"
  let ?run = "\<lambda>e. map_prog (\<lambda>es. exec_work e (upsert_stmt TAnime ?mode es)) ?chunks"
  have hd: "map fst (hd rows) = cols" using False assms(3) by (cases rows) auto
  then have cols: "upsert_columns TAnime rows = filter (\<lambda>c. c \<notin> set (table_keys TAnime)) cols"
    by (simp add: upsert_columns_def)
  have all: "concat ?chunks = rows" by (simp add: concat_chunks rows_per_statement_def)
  then have some: "?chunks \<noteq> []" using False by auto
  have heads: "\<forall>es\<in>set ?chunks. map fst (hd es) = cols"
    using chunks_members [OF assms(3)] by blast
  have ins: "set (table_keys TAnime) \<subseteq> set cols" using assms(4) by simp
  from first False obtain ns where run: "?run e w = (Inr ns, w1)"
    by (auto simp: upsert_anime_def cat_upsert_def bnd_eq_Inr ret_def)
  from again False obtain ms where run': "?run e' w2 = (Inr ms, w3)" and m: "m = sum_list ms"
    by (auto simp: upsert_anime_def cat_upsert_def bnd_eq_Inr ret_def)
  have after: "keys_distinct TAnime (catalogue (cur (wsess w1)) TAnime)"
      "\<forall>r\<in>set rows. matches TAnime cols ?mode (catalogue (cur (wsess w1)) TAnime) r"
      "set cols \<subseteq> set (map fst (table_columns TAnime))"
    using wp_Inr [OF run wp_upsert_chunks [OF assms(1) ins, of ?mode "[]"]] assms(2,5) heads some
    by (auto simp: all cols simp del: table_columns.simps)
  have sub: "set (m_columns ?mode) \<subseteq> set cols \<inter> set (map fst (table_columns TAnime))"
    using after(3) by (auto simp: cols simp del: table_columns.simps)
  show ?thesis
    using wp_Inr [OF run' wp_upsert_chunks_again [OF _ _ _ sub ins heads]] after(1,2) assms(7)
    by (simp add: all m)
qed

definition anime_entry :: row_dict where
  "anime_entry = [(''mal_id'', VInt 1), (''title'', VText ''Cowboy Bebop''), (''mal_score'', VNum (DNum (875 / 100)))]"

lemma anime_runs:
  "case upsert_anime calm_env [anime_entry] (start_world [] empty_db) of
     (r, v) \<Rightarrow> r = Inr 1 \<and> fst (upsert_anime calm_env [anime_entry] v) = Inr 0"
  by code_simp

theorem upsert_anime_repeat_witness:
  "\<exists>w1 w3. upsert_anime calm_env [anime_entry] (start_world [] empty_db) = (Inr 1, w1)
     \<and> upsert_anime calm_env [anime_entry] w1 = (Inr 0, w3) \<and> cur (wsess w3) = cur (wsess w1)"
proof -
  obtain w1 where first: "upsert_anime calm_env [anime_entry] (start_world [] empty_db) = (Inr 1, w1)"
    and "fst (upsert_anime calm_env [anime_entry] w1) = Inr 0"
    using anime_runs by (auto split: prod.splits)
  then obtain w3 where again: "upsert_anime calm_env [anime_entry] w1 = (Inr 0, w3)"
    by (metis prod.collapse)
  have "0 = (0::int) \<and> cur (wsess w3) = cur (wsess w1)"
    by (rule upsert_anime_repeat [OF _ _ _ _ _ first refl again, of "[''mal_id'', ''title'', ''mal_score'']"])
      (simp_all add: anime_entry_def start_world_def fresh_session_def empty_db_def keys_distinct_def)
  with first again show ?thesis by blast
qed

text \<open>C18. Replacing links makes the links of every given anime exactly the wanted ones, leaves the links
  of every other anime and every other table alone, and returns the number of given anime whose
  stored links were not the wanted ones; the rows of all others, the given ones with the right links
  included, are not rewritten.\<close>

theorem replace_links_exact:
  assumes "tb \<in> {TAnimeTag, TAnimeStudio, TRelation}" and "distinct (map fst wanted)"
    and "list_all (\<lambda>(a, links). list_all (link_ok tb) links) wanted"
    and "replace_links e tb wanted w = (Inr n, v)"
  shows "let old = catalogue (cur (wsess w)) tb; new = catalogue (cur (wsess v)) tb;
             links_in = (\<lambda>rows a. row_link tb ` {r \<in> set rows. r ''anime_id'' = VInt a});
             differing = {a. \<exists>links. map_of wanted a = Some links \<and> links_in old a \<noteq> set links}
         in (\<forall>a. links_in new a = (case map_of wanted a of None \<Rightarrow> links_in old a | Some links \<Rightarrow> set links))
          \<and> n = int (card differing)
          \<and> filter (\<lambda>r. r ''anime_id'' \<notin> VInt ` differing) new = filter (\<lambda>r. r ''anime_id'' \<notin> VInt ` differing) old
          \<and> cur (wsess v) = set_table tb new (cur (wsess w))"
proof -
  let ?changed = "changed_links tb wanted (catalogue (cur (wsess w)) tb)"
  let ?differing = "{a. \<exists>links. map_of wanted a = Some links
    \<and> stored_links tb (catalogue (cur (wsess w)) tb) a \<noteq> set links}"
  have links: "row_link tb ` {r \<in> set rows. r ''anime_id'' = VInt a} = stored_links tb rows a" for rows a
    by (simp add: stored_links_def)
  have set: "?differing = set ?changed"
    using assms(2) by (force simp: changed_links_def)
  have "distinct ?changed"
    using assms(2) by (auto simp: changed_links_def distinct_map intro: inj_on_subset)
  then have "card ?differing = length ?changed"
    by (simp add: set distinct_card)
  with wp_Inr [OF assms(4) replace_links_wp [OF _ assms(2,3)]] assms(1) show ?thesis
    unfolding links Let_def set by (simp add: link_table_def rows_outside_def)
qed

definition anime_row :: "int \<Rightarrow> stored_row" where
  "anime_row i = (\<lambda>c. if c = ''mal_id'' then VInt i else if c = ''title'' then VText ''t'' else VNull)"

definition linked_db :: db where
  "linked_db = empty_db\<lparr>catalogue := (\<lambda>_. [])(TTag := [tag_row 1 ''Action''], TAnime := [anime_row 5, anime_row 6],
     TAnimeTag := [(\<lambda>c. if c = ''anime_id'' then VInt 6 else if c = ''tag_id'' then VInt 1 else VNull)])\<rparr>"

lemma links_run: "fst (replace_links calm_env TAnimeTag [(5, [([], 1)]), (6, [([], 1)])] (start_world [] linked_db)) = Inr 1"
  by code_simp

theorem replace_links_exact_witness:
  "\<exists>v. replace_anime_tags calm_env [(5, [1]), (6, [1])] (start_world [] linked_db) = (Inr 1, v)
     \<and> row_link TAnimeTag ` {r \<in> set (catalogue (cur (wsess v)) TAnimeTag). r ''anime_id'' = VInt 5} = {([], 1)}
     \<and> row_link TAnimeTag ` {r \<in> set (catalogue (cur (wsess v)) TAnimeTag). r ''anime_id'' = VInt 6} = {([], 1)}"
proof -
  from links_run obtain v where
    v: "replace_links calm_env TAnimeTag [(5, [([], 1)]), (6, [([], 1)])] (start_world [] linked_db) = (Inr 1, v)"
    by (metis prod.collapse)
  have "\<forall>a. row_link TAnimeTag ` {r \<in> set (catalogue (cur (wsess v)) TAnimeTag). r ''anime_id'' = VInt a}
      = (case map_of [(5, [([], 1)]), (6, [([], 1)])] a of
           None \<Rightarrow> row_link TAnimeTag ` {r \<in> set (catalogue (cur (wsess (start_world ([] :: (string \<times> string) list) linked_db))) TAnimeTag). r ''anime_id'' = VInt a}
         | Some links \<Rightarrow> set links)"
    using replace_links_exact [OF _ _ _ v] by (simp add: link_ok_def Let_def del: row_link.simps)
  from this [THEN spec, of 5] this [THEN spec, of 6] v show ?thesis by (simp add: replace_anime_tags_def)
qed

end
