(* ===== verification/Clean_Correct.thy ===== *)
theory Clean_Correct
  imports Clean_Job Parsers_Correct Catalogue_Correct Discovery_Correct
begin

text \<open>
  The correctness of the cleaning job: a batch is committed whole or not at all, the cursor moves
  through the index until the run ends, and the job writes nothing but its own columns of the
  catalogue.
\<close>

section \<open>What the job's statements may break\<close>

text \<open>Columns that belong to other pipelines, or that only the database sets.\<close>

definition foreign_columns :: "string set" where
  "foreign_columns = {''imdb_score'', ''anilist_score'', ''created_at''}"

definition own_columns :: "row_dict \<Rightarrow> bool" where
  "own_columns row \<longleftrightarrow> set (map fst row) \<inter> foreign_columns = {}"

lemma set_columns: "row_of cells = Inr row \<Longrightarrow> set (map fst cells) \<inter> foreign_columns = {} \<Longrightarrow> own_columns row"
  using row_of_cells by (fastforce simp: own_columns_def)

lemma clean_full_row:
  assumes "clean_full l payload = Inr (Some row)"
  shows "\<exists>i title. i \<noteq> 0 \<and> row_of (anime_cells l i title (data_of payload)) = Inr row"
proof -
  from assms obtain i where i: "to_int (field (data_of payload) ''mal_id'') = Inr (Some i)" "i \<noteq> 0"
    by (auto simp: clean_full_def Let_def split: if_splits option.splits)
  with assms show ?thesis by (auto simp: clean_full_def Let_def split: if_splits option.splits)
qed

lemma own_anime: "clean_full l payload = Inr (Some row) \<Longrightarrow> own_columns row"
proof -
  assume "clean_full l payload = Inr (Some row)"
  then obtain i title where "row_of (anime_cells l i title (data_of payload)) = Inr row"
    using clean_full_row by blast
  then show ?thesis by (rule set_columns) (simp add: anime_cells_def Let_def foreign_columns_def)
qed

lemma own_episode: "row_of (episode_cells l a n item) = Inr row \<Longrightarrow> own_columns row"
  by (erule set_columns) (simp add: episode_cells_def Let_def foreign_columns_def)

lemma own_episodes: "clean_episodes l payload a = Inr rows \<Longrightarrow> row \<in> set rows \<Longrightarrow> own_columns row"
proof -
  assume "clean_episodes l payload a = Inr rows" and row: "row \<in> set rows"
  then obtain d where d: "collect_rows (clean_episode l a) (concat (map page_items (list_items payload))) = Inr d"
    and rows: "rows = map snd d" by (auto simp: clean_episodes_def)
  from episodes.collected_rows(2) [OF d row [unfolded rows]] show ?thesis
    by (auto simp: clean_episode_def split: if_splits option.splits intro: own_episode)
qed

lemma gathered_own:
  assumes "sfold (gather_details l tags studios) docs no_details = Inr a"
  shows "list_all own_columns (dl_animes a)"
proof (rule sfold_inv [where I = "\<lambda>a. list_all own_columns (dl_animes a)", OF _ _ assms])
  fix doc a b assume a: "list_all own_columns (dl_animes a)" and "gather_details l tags studios doc a = Inr b"
  then have "dl_animes b = dl_animes a \<or> (\<exists>row. clean_full l (doc_payload doc) = Inr (Some row) \<and> dl_animes b = dl_animes a @ [row])"
    by (auto simp: gather_details_def Let_def split: option.splits)
  then show "list_all own_columns (dl_animes b)" using a own_anime by auto
qed (simp add: no_details_def)

lemma gathered_episodes_own:
  assumes "sfold (gather_other l present) docs no_others = Inr a"
  shows "list_all own_columns (ol_episodes a)"
  by (rule sfold_inv [where I = "\<lambda>a. list_all own_columns (ol_episodes a)", OF _ _ assms])
    (auto simp: gather_other_def no_others_def list_all_iff split: if_splits resource.splits option.splits
      dest: own_episodes)

lemma keeps_lift_py_bnd: "(\<And>a. r = Inr a \<Longrightarrow> keeps P (k a)) \<Longrightarrow> keeps P (bnd (lift_py r) k)"
  by (cases r) (simp_all add: lift_py_def keeps_def bnd_def lift_sum_def)

lemma keeps_session_load [keeps_rules]: "keeps (session_is se) (load_payloads e rows)"
  unfolding load_payloads_def load_payload_def raw_store_get_def Let_def
  by (auto intro!: keeps_map_prog keeps_bnd keeps_case_sum keeps_rules)

lemma keeps_session_summary [keeps_rules]:
  "keeps (session_is se) (clean_summary_since e t since k)" "keeps (session_is se) (clean_since e since full)"
  unfolding clean_summary_since_def clean_since_def
  by (auto intro!: keeps_rules of_session_metrics_blind)

lemma off_session_clean:
  assumes "of_session P"
  shows "keeps P (load_payloads e rows)" "keeps P (clean_summary_since e t since k)" "keeps P (clean_since e since full)"
  by (rule keeps_of_session [OF _ assms], (auto intro!: keeps_rules)[1])+

text \<open>
  The contract of an invariant the cleaning job keeps: the tables other than anime and episode do
  not matter to it, and an upsert into these two that stays off the foreign columns and the keys
  keeps it.
\<close>

locale clean_invariant =
  fixes I :: "db \<Rightarrow> bool"
  assumes other_table: "tb \<notin> {TAnime, TEpisode} \<Longrightarrow> I d \<Longrightarrow> I (set_table tb rows d)"
    and own_upsert: "tb \<in> {TAnime, TEpisode} \<Longrightarrow> set (m_columns mode) \<inter> (foreign_columns \<union> set (table_keys tb)) = {}
      \<Longrightarrow> I d \<Longrightarrow> upsert_stmt tb mode entries now d = Inr (n, d') \<Longrightarrow> I d'"
begin

lemma stmt_keeps_other:
  assumes "tb \<notin> {TAnime, TEpisode}"
  shows "stmt_keeps I (upsert_stmt tb mode entries)" "stmt_keeps I (insert_stmt tb entries)"
    "stmt_keeps I (delete_links tb changed)"
  using other_table [OF assms]
  by (auto simp: stmt_keeps_def upsert_stmt_def insert_stmt_def delete_links_def Let_def split: if_splits)

lemma keeps_upsert_other: "tb \<notin> {TAnime, TEpisode} \<Longrightarrow> keeps (db_inv I) (cat_upsert e tb rows only keep)"
  unfolding cat_upsert_def Let_def
  by (auto intro!: keeps_if keeps_bnd keeps_ret keeps_map_prog keeps_db_inv_exec stmt_keeps_other)

lemma keeps_upsert_own:
  assumes "tb \<in> {TAnime, TEpisode}" and "list_all own_columns rows"
  shows "keeps (db_inv I) (cat_upsert e tb rows only keep)"
proof (cases "rows = []")
  case False
  then have "own_columns (hd rows)" using assms(2) by (cases rows) simp_all
  then have cols: "set (upsert_columns tb rows) \<inter> (foreign_columns \<union> set (table_keys tb)) = {}"
    by (auto simp: upsert_columns_def own_columns_def)
  have "stmt_keeps I (upsert_stmt tb \<lparr>m_columns = upsert_columns tb rows, m_keep = keep, m_only_if_changed = only\<rparr> es)" for es
    unfolding stmt_keeps_def using own_upsert [OF assms(1)] cols by (metis upsert_mode.select_convs(1))
  then show ?thesis
    unfolding cat_upsert_def Let_def
    by (auto intro!: keeps_if keeps_bnd keeps_ret keeps_map_prog keeps_db_inv_exec)
qed (simp add: cat_upsert_def)

lemma keeps_links: "tb \<notin> {TAnime, TEpisode} \<Longrightarrow> keeps (db_inv I) (replace_links e tb wanted)"
  unfolding replace_links_def cat_query_def
  by (auto intro!: keeps_if keeps_bnd keeps_ret keeps_for_each keeps_db_inv_exec stmt_keeps_other)

lemma keeps_clean_rows: "keeps (db_inv I) (clean_rows e docs counts tags studios)"
proof -
  have details: "keeps (db_inv I) (clean_details e ds tags studios counts)" for ds counts
    unfolding clean_details_def upsert_anime_def upsert_tags_def upsert_studios_def
      replace_anime_tags_def replace_anime_studios_def replace_relations_def
    by (intro keeps_lift_py_bnd keeps_bnd keeps_if keeps_ret keeps_upsert_own keeps_upsert_other keeps_links)
      (auto dest: gathered_own)
  have others: "keeps (db_inv I) (clean_others e ds counts)" for ds counts
    unfolding clean_others_def existing_anime_ids_def cat_query_def upsert_statistics_def upsert_episodes_def
      upsert_reviews_def
    by (intro keeps_lift_py_bnd keeps_bnd keeps_if keeps_ret keeps_upsert_own keeps_upsert_other keeps_db_inv_exec)
      (auto dest: gathered_episodes_own)
  show ?thesis
    unfolding clean_rows_def by (intro keeps_bnd keeps_case_prod keeps_ret details others)
qed

lemma keeps_clean_anime: "keeps (db_inv I) (clean_anime e after since tags studios n)"
proof -
  have "keeps (db_inv I) (write_batch e docs counts tags studios)" for docs counts tags studios
    unfolding write_batch_def
    by (intro keeps_handle keeps_bnd keeps_clean_rows keeps_db_inv_commit keeps_db_inv_rollback keeps_ret keeps_raise keeps_if)
  then show ?thesis
    unfolding clean_anime_def get_batch_def Let_def
    by (intro keeps_bnd keeps_if keeps_ret keeps_case_prod keeps_db_inv_exec off_session_clean off_session) auto
qed

lemma keeps_clean_loop: "keeps (db_inv I) (full_clean_loop e fuel since after n full)"
proof -
  have names: "keeps (db_inv I) (get_tags e)" "keeps (db_inv I) (get_studios e)"
    unfolding get_tags_def get_studios_def cat_query_def by (intro keeps_db_inv_exec, simp)+
  have round: "keeps (of_world (db_inv I)) (clean_round e started since n u)" for started since u
    unfolding clean_round_def
    by (intro keeps_bnd keeps_local keeps_lifted keeps_locals keeps_case_option keeps_ret keeps_if keeps_clean_anime
        off_session_clean) simp
  show ?thesis
    unfolding full_clean_loop_def clean_batches_def clean_failed_def clean_finished_def Let_def
    by (intro keeps_bnd keeps_with_locals keeps_lifted keeps_locals keeps_loop keeps_case_prod keeps_case_sum
        keeps_case_option keeps_ret keeps_raise round names off_session_clean off_session_run off_session) simp_all
qed

end

section \<open>What it keeps\<close>

interpretation clean_queue: clean_invariant "\<lambda>d. tasks d = ts \<and> raw_rows d = rs" for ts rs
  by unfold_locales (auto simp: set_table_def upsert_stmt_def Let_def split: if_splits)

lemma extends_mono: "extends cols old new \<Longrightarrow> cols \<subseteq> cols' \<Longrightarrow> extends cols' old new"
  unfolding extends_def same_outside_def by (auto elim!: list_all2_mono)

text \<open>Every stored row keeps its key and the foreign columns.\<close>

definition foreign_kept :: "(table \<Rightarrow> stored_row list) \<Rightarrow> db \<Rightarrow> bool" where
  "foreign_kept stored d \<longleftrightarrow> (\<forall>tb\<in>{TAnime, TEpisode}. keys_distinct tb (catalogue d tb)
     \<and> extends (- (foreign_columns \<union> set (table_keys tb))) (stored tb) (catalogue d tb))"

interpretation clean_scores: clean_invariant "foreign_kept stored" for stored
proof unfold_locales
  fix tb d rows assume "tb \<notin> {TAnime, TEpisode}" "foreign_kept stored d"
  then show "foreign_kept stored (set_table tb rows d)" by (auto simp: foreign_kept_def set_table_def)
next
  fix tb mode d entries now n d'
  assume tb: "tb \<in> {TAnime, TEpisode}" and cols: "set (m_columns mode) \<inter> (foreign_columns \<union> set (table_keys tb)) = {}"
    and d: "foreign_kept stored d" and run: "upsert_stmt tb mode entries now d = Inr (n, d')"
  have keys: "keys_distinct tb (catalogue d tb)" using d tb by (auto simp: foreign_kept_def)
  have nokeys: "set (m_columns mode) \<inter> set (table_keys tb) = {}" using cols by blast
  note ext = upsert_stmt_extends [OF run keys nokeys]
  have "insert ''updated_at'' (set (m_columns mode)) \<subseteq> - (foreign_columns \<union> set (table_keys tb))"
    using cols key_not_updated_at [of tb] by (auto simp: foreign_columns_def)
  with ext(2) have "extends (- (foreign_columns \<union> set (table_keys tb))) (catalogue d tb) (catalogue d' tb)"
    by (rule extends_mono)
  moreover have "extends (- (foreign_columns \<union> set (table_keys tb))) (stored tb) (catalogue d tb)"
    using d tb by (auto simp: foreign_kept_def)
  ultimately have same: "extends (- (foreign_columns \<union> set (table_keys tb))) (stored tb) (catalogue d' tb)"
    using extends_trans by blast
  show "foreign_kept stored d'"
    unfolding foreign_kept_def
  proof
    fix ta :: table assume ta: "ta \<in> {TAnime, TEpisode}"
    show "keys_distinct ta (catalogue d' ta)
        \<and> extends (- (foreign_columns \<union> set (table_keys ta))) (stored ta) (catalogue d' ta)"
    proof (cases "ta = tb")
      case True
      with same ext(1) show ?thesis by simp
    next
      case False
      then have "catalogue d' ta = catalogue d ta" by (rule ext(3))
      moreover from d ta have "keys_distinct ta (catalogue d ta)
          \<and> extends (- (foreign_columns \<union> set (table_keys ta))) (stored ta) (catalogue d ta)"
        unfolding foreign_kept_def by blast
      ultimately show ?thesis by simp
    qed
  qed
qed

section \<open>A batch, all or nothing\<close>

lemma keeps_saved_clean: "keeps (saved_is d) (clean_rows e docs counts tags studios)"
proof -
  have upsert: "keeps (saved_is d) (cat_upsert e tb rows only keep)" for tb rows only keep
    unfolding cat_upsert_def Let_def by (auto intro!: keeps_rules)
  have links: "keeps (saved_is d) (replace_links e tb wanted)" for tb wanted
    unfolding replace_links_def cat_query_def by (auto intro!: keeps_rules)
  show ?thesis
    unfolding clean_rows_def clean_details_def clean_others_def upsert_anime_def upsert_tags_def upsert_studios_def
      replace_anime_tags_def replace_anime_studios_def replace_relations_def existing_anime_ids_def cat_query_def
      upsert_statistics_def upsert_episodes_def upsert_reviews_def
    by (intro keeps_bnd keeps_case_prod keeps_if keeps_ret keeps_lift_py upsert links keeps_saved_exec)
qed

lemma wp_write_batch:
  "wp (write_batch e docs counts tags studios) (\<lambda>_ v. saved (wsess v) = cur (wsess v))
     (\<lambda>x v. saved (wsess v) = saved (wsess w) \<and> (is_exception x \<longrightarrow> cur (wsess v) = saved (wsess v))) w"
proof -
  let ?d = "saved (wsess w)"
  have commit: "wp (commit_work e) (\<lambda>_ v. saved (wsess v) = cur (wsess v)) (\<lambda>_. saved_is ?d) v" if "saved_is ?d v" for v
    by (rule wp_mono [OF wp_commit]) (use that in \<open>auto simp: saved_is_def\<close>)
  show ?thesis
    unfolding write_batch_def wp_handle wp_bnd
    by (rule wp_kept [where P = "saved_is ?d", OF keeps_saved_clean])
      (auto simp: saved_is_def wp_simps intro: wp_mono [OF commit])
qed

definition next_batch :: "datetime option \<Rightarrow> cursor \<Rightarrow> nat \<Rightarrow> 's world \<Rightarrow> raw_index" where
  "next_batch since after n w = batch_rows since after n (raw_rows (cur (wsess w)))"

lemma wp_get_batch:
  "wp (get_batch e since after n) (\<lambda>rows v. rows = next_batch since after n w \<and> cur (wsess v) = cur (wsess w)
      \<and> saved (wsess v) = saved (wsess w))
     (\<lambda>_ v. cur (wsess v) = cur (wsess w) \<and> saved (wsess v) = saved (wsess w)) w"
  unfolding get_batch_def
  by (rule wp_exec_work) (auto simp: on_raw_def query_def next_batch_def)

text \<open>Both views are where they were.\<close>

definition views_are :: "db \<Rightarrow> db \<Rightarrow> 's world \<Rightarrow> bool" where
  "views_are c d w \<longleftrightarrow> cur (wsess w) = c \<and> saved (wsess w) = d"

lemma of_session_views [simp]: "of_session (views_are c d)" "of_session (\<lambda>v. saved (wsess v) = cur (wsess v))"
  by (simp_all add: of_session_def views_are_def)

lemma wp_clean_anime:
  assumes clean: "saved (wsess w) = cur (wsess w)"
  shows "wp (clean_anime e after since tags studios n)
    (\<lambda>b v. saved (wsess v) = cur (wsess v) \<and> (case b_next_after b of
        None \<Rightarrow> next_batch since after n w = [] \<and> cur (wsess v) = cur (wsess w)
      | Some k \<Rightarrow> next_batch since after n w \<noteq> [] \<and> k = raw_key (last (next_batch since after n w))))
    (\<lambda>x v. saved (wsess v) = saved (wsess w) \<and> (is_exception x \<longrightarrow> cur (wsess v) = saved (wsess v))) w"
proof -
  let ?c = "cur (wsess w)" and ?d = "saved (wsess w)"
  let ?P = "views_are ?c ?d"
  have batch: "next_batch since after n v = next_batch since after n w" if "?P v" for v
    using that by (simp add: next_batch_def views_are_def)
  have read: "wp (get_batch e since after n) (\<lambda>rows v. ?P v \<and> rows = next_batch since after n w) (\<lambda>_. ?P) v" if "?P v" for v
    by (rule wp_mono [OF wp_get_batch]) (use that batch [OF that] in \<open>auto simp: views_are_def\<close>)
  have fine: "saved (wsess v) = saved (wsess w) \<and> (is_exception x \<longrightarrow> cur (wsess v) = saved (wsess v))" if "?P v" for v x
    using that clean by (simp add: views_are_def)
  show ?thesis
    unfolding clean_anime_def wp_bnd Let_def
  proof (rule wp_kept [where P = ?P, OF off_session(5)], goal_cases)
    case (3 t0 v)
    show ?case
    proof (rule wp_mono [OF read [OF 3]], goal_cases)
      case (1 rows v)
      show ?case
      proof (cases "rows = []")
        case True
        with 1 clean show ?thesis by (simp add: wp_ret views_are_def)
      next
        case False
        have rows: "rows = next_batch since after n w" "?P v" using 1 by simp_all
        let ?Q = "\<lambda>v. saved (wsess v) = cur (wsess v)"
        show ?thesis
          unfolding if_not_P [OF False] wp_bnd
        proof (rule wp_kept [where P = ?P, OF off_session_clean(1) rows(2)], goal_cases)
          case (2 docs v)
          show ?case
          proof (rule wp_kept [where P = ?P, OF off_session(5) 2], goal_cases)
            case (2 t1 v)
            show ?case
            proof (rule wp_kept [where P = ?P, OF off_session(5) 2], goal_cases)
              case (2 t2 v)
              then have sv: "saved (wsess v) = saved (wsess w)" by (simp add: views_are_def)
              show ?case
              proof (rule wp_mono [OF wp_write_batch], goal_cases)
                case (1 r v)
                obtain a b c where r: "r = (a, b, c)" by (cases r)
                have "wp (monotonic e) (\<lambda>_. ?Q) (\<lambda>_ _. False) v"
                  by (simp add: monotonic_def wp_simps 1(2))
                then show ?case
                  unfolding r prod.case wp_bnd
                  by (rule wp_mono) (use False rows in \<open>simp_all add: wp_ret\<close>)
              qed (simp add: sv)
            qed (rule of_session_views(1) | erule fine)+
          qed (rule of_session_views(1) | erule fine)+
        qed (rule of_session_views(1) | erule fine)+
      qed
    qed (erule fine)
  qed (rule of_session_views(1) | erule fine | simp add: views_are_def)+
qed

section \<open>The run ends\<close>

text \<open>What is left of the index behind the cursor; every round that goes on takes a batch of it.\<close>

definition rows_left :: "datetime option \<Rightarrow> 's world \<times> clean_locals \<Rightarrow> nat" where
  "rows_left since = (\<lambda>(w, k). length (left_after since (k_after k) (raw_rows (cur (wsess w)))))"

definition index_is :: "ledger \<Rightarrow> raw_index \<Rightarrow> 's world \<Rightarrow> bool" where
  "index_is ts rs w \<longleftrightarrow> db_inv (\<lambda>d. tasks d = ts \<and> raw_rows d = rs) w \<and> saved (wsess w) = cur (wsess w)"

lemma of_session_index [simp]: "of_session (index_is ts rs)"
  by (simp add: of_session_def index_is_def db_inv_def)

lemma clean_anime_moves:
  assumes inv: "index_is ts rs w" and ok: "index_ok rs"
    and run: "clean_anime e after since tags studios n w = (Inr b, v)" and more: "b_next_after b = Some key"
  shows "index_is ts rs v \<and> length (left_after since (Some key) rs) < length (left_after since after rs)"
proof -
  have clean: "saved (wsess w) = cur (wsess w)" and frame: "db_inv (\<lambda>d. tasks d = ts \<and> raw_rows d = rs) w"
    using inv by (simp_all add: index_is_def)
  have rs: "raw_rows (cur (wsess w)) = rs" using frame by (simp add: db_inv_def)
  from wp_Inr [OF run wp_clean_anime [OF clean]] more rs
  have after: "saved (wsess v) = cur (wsess v)" "next_batch since after n w \<noteq> []"
    "key = raw_key (last (next_batch since after n w))" by simp_all
  have "db_inv (\<lambda>d. tasks d = ts \<and> raw_rows d = rs) v"
    by (rule keepsD [OF clean_queue.keeps_clean_anime run frame])
  with after(1) have "index_is ts rs v" by (simp add: index_is_def)
  moreover have batch: "batch_rows since after n rs = next_batch since after n w" by (simp add: next_batch_def rs)
  have "left_after since (Some key) rs = drop (length (next_batch since after n w)) (left_after since after rs)"
    unfolding after(3) by (rule batch_next [OF ok batch after(2)])
  then have "length (left_after since (Some key) rs) < length (left_after since after rs)"
  proof -
    have "next_batch since after n w = take n (left_after since after rs)" by (simp add: batch_rows_take flip: batch)
    then have "left_after since after rs \<noteq> []" using after(2) by auto
    with after(2) \<open>left_after since (Some key) rs = _\<close> show ?thesis by simp
  qed
  ultimately show ?thesis by blast
qed

lemma wp_clean_round:
  assumes "index_is ts rs w" and "index_ok rs"
  shows "wp (clean_round e started since n u)
    (\<lambda>r t. case r of Inl _ \<Rightarrow> of_world (index_is ts rs) t \<and> rows_left since t < rows_left since (w, k) | Inr _ \<Rightarrow> True)
    (\<lambda>_ _. True) (w, k)"
proof -
  have rs: "raw_rows (cur (wsess v)) = rs" if "index_is ts rs v" for v :: "'a world"
    using that by (simp add: index_is_def db_inv_def)
  have summary: "wp (if c then bnd (lifted (clean_summary_since e started since k)) (\<lambda>_. ret ()) else ret ())
      (\<lambda>_ (v', k'). index_is ts rs v' \<and> k' = k) (\<lambda>_ _. True) (v, k)" if "index_is ts rs v" for c v k
  proof -
    have "wp (clean_summary_since e started since k) (\<lambda>_. index_is ts rs) (\<lambda>_ _. True) v"
      by (rule wp_kept [where P = "index_is ts rs", OF off_session_clean(2) that]) simp_all
    then show ?thesis using that by (simp add: wp_simps)
  qed
  have step: "wp (clean_anime e (k_after k) since (k_tags k) (k_studios k) n)
      (\<lambda>b v. case b_next_after b of None \<Rightarrow> True
         | Some key \<Rightarrow> index_is ts rs v \<and> length (left_after since (Some key) rs) < length (left_after since (k_after k) rs))
      (\<lambda>_ _. True) w"
    by (rule wpI) (auto split: option.split dest: clean_anime_moves [OF assms])
  show ?thesis
    unfolding clean_round_def
  proof (simp add: wp_simps, rule wp_mono [OF step], goal_cases)
    case (1 b v)
    show ?case
    proof (cases "b_next_after b")
      case (Some key)
      with 1 have v: "index_is ts rs v" and less: "length (left_after since (Some key) rs) < length (left_after since (k_after k) rs)"
        by simp_all
      show ?thesis
        unfolding Some option.case wp_bnd wp_locals wp_local id_apply
        by (rule wp_mono [OF summary [OF v]])
          (auto simp: wp_simps of_world_def rows_left_def rs assms(1) less)
    qed (simp add: wp_simps)
  qed simp
qed

interpretation cleaning: draining "clean_round e started since n"
    "\<lambda>_ s. index_is ts rs (fst s) \<and> index_ok rs" "\<lambda>_. rows_left since"
  for e :: "'s env" and started since n ts rs
proof unfold_locales
  fix a a' :: unit and s t :: "'s world \<times> clean_locals"
  assume inv: "index_is ts rs (fst s) \<and> index_ok rs" and run: "clean_round e started since n a s = (Inr (Inl a'), t)"
  obtain w k where s: "s = (w, k)" by (cases s)
  with wp_Inr [OF run [unfolded s] wp_clean_round] inv
  show "(index_is ts rs (fst t) \<and> index_ok rs) \<and> rows_left since t < rows_left since s"
    by (auto simp: of_world_def split_beta)
qed

lemma wp_names:
  assumes "index_is ts rs w"
  shows "wp (get_tags e) (\<lambda>_. index_is ts rs) (\<lambda>_ _. True) w" "wp (get_studios e) (\<lambda>_. index_is ts rs) (\<lambda>_ _. True) w"
  using assms unfolding get_tags_def get_studios_def cat_query_def
  by (auto intro!: wp_exec_work simp: query_def index_is_def db_inv_def)

lemma left_after_le: "length (left_after since after rs) \<le> length rs"
  by (simp add: left_after_def)

lemma clean_batches_never_dry:
  fixes e :: "'s env"
  assumes "index_is ts rs w" and "index_ok rs" and "length rs < fuel"
  shows "wp (clean_batches e fuel started since n) (\<lambda>r _. r \<noteq> None) (\<lambda>_ _. True) (w, k)"
proof -
  have loop: "wp (loop fuel (clean_round e started since n) ()) (\<lambda>r _. r \<noteq> None) (\<lambda>_ _. True) (v, k)"
    if v: "index_is ts rs v" for v :: "'s world" and k
  proof (rule wpI, goal_cases)
    case (1 r t)
    have "raw_rows (cur (wsess v)) = rs" using v by (simp add: index_is_def db_inv_def)
    then have "rows_left since (v, k) < fuel"
      using left_after_le [of since "k_after k" rs] assms(3) by (simp add: rows_left_def)
    with cleaning.never_dry [of ts rs "(v, k)" since fuel e started n "()" t] v assms(2) 1 show "r \<noteq> None"
      by auto
  qed simp
  show ?thesis
    unfolding clean_batches_def wp_bnd wp_lifted wp_locals
    by (rule wp_mono [OF wp_names(1) [OF assms(1)]], rule wp_mono [OF wp_names(2)])
      (auto intro: loop simp del: not_None_eq)
qed

section \<open>Properties\<close>

text \<open>C19. A batch of the cleaning job is committed whole or not at all.  If it raises, whatever the
  exception and wherever it comes from, the committed database is the one before the batch, and
  (unless it is an interrupt) nothing of the batch is left in the session; if it returns a cursor,
  everything is committed and the cursor is the key of the batch's last row; and it returns no
  cursor only when no row was left.  The ledger and the raw index are never written.\<close>

theorem clean_batch_whole:
  assumes "saved (wsess w) = cur (wsess w)" and "clean_anime e after since tags studios n w = (r, v)"
  shows "let batch = batch_rows since after n (raw_rows (cur (wsess w))) in
     tasks (cur (wsess v)) = tasks (cur (wsess w)) \<and> raw_rows (cur (wsess v)) = raw_rows (cur (wsess w))
     \<and> (case r of
          Inl x \<Rightarrow> saved (wsess v) = saved (wsess w) \<and> (is_exception x \<longrightarrow> cur (wsess v) = saved (wsess v))
        | Inr b \<Rightarrow> saved (wsess v) = cur (wsess v) \<and> (case b_next_after b of
              None \<Rightarrow> batch = [] \<and> cur (wsess v) = cur (wsess w)
            | Some k \<Rightarrow> batch \<noteq> [] \<and> k = raw_key (last batch)))"
proof -
  have "db_inv (\<lambda>d. tasks d = tasks (cur (wsess w)) \<and> raw_rows d = raw_rows (cur (wsess w))) v"
    by (rule keepsD [OF clean_queue.keeps_clean_anime assms(2)]) (simp add: db_inv_def assms(1))
  moreover note wp_clean_anime [OF assms(1), of e after since tags studios n]
  ultimately show ?thesis
    using assms(2) by (auto simp: wp_def next_batch_def db_inv_def Let_def split: sum.splits option.splits)
qed

definition raw_world :: "(string \<times> string) list world" where
  "raw_world = start_world [(''raw/details/1.json.gz'', ''{}'')]
     (empty_db\<lparr>raw_rows := [\<lparr>w_mal_id = 1, w_resource = DETAILS, w_size_bytes = 2, w_fetched_at = 0\<rparr>]\<rparr>)"

theorem clean_batch_whole_witness:
  "\<exists>b v. clean_anime calm_env None None [] [] 500 raw_world = (Inr b, v) \<and> b_next_after b = Some (1, DETAILS)
     \<and> saved (wsess v) = cur (wsess v)"
proof -
  have clean: "saved (wsess raw_world) = cur (wsess raw_world)"
    by (simp add: raw_world_def start_world_def fresh_session_def)
  have "(case fst (clean_anime calm_env None None [] [] 500 raw_world) of Inr b \<Rightarrow> True | Inl _ \<Rightarrow> False)" by code_simp
  then obtain b v where run: "clean_anime calm_env None None [] [] 500 raw_world = (Inr b, v)"
    by (metis (no_types, lifting) fst_conv obj_sumE prod.exhaust sum.case(1))
  have batch: "batch_rows None None 500 (raw_rows (cur (wsess raw_world)))
      = [\<lparr>w_mal_id = 1, w_resource = DETAILS, w_size_bytes = 2, w_fetched_at = 0\<rparr>]"
    by (simp add: raw_world_def start_world_def fresh_session_def batch_rows_def)
  from clean_batch_whole [OF clean run] batch show ?thesis
    using run by (auto simp: Let_def raw_key_def split: option.splits)
qed

text \<open>C20. A cleaning run ends: each batch moves the cursor over at least one row of the index, so a fuel
  above the number of index rows never runs out, whatever the responses hold and whatever fails.\<close>

theorem clean_run_ends:
  assumes "index_ok (raw_rows (cur (wsess w)))" and "saved (wsess w) = cur (wsess w)"
    and "length (raw_rows (cur (wsess w))) < fuel"
  shows "fst (full_clean_loop e fuel since after n full w) \<noteq> Inr None"
proof -
  let ?rs = "raw_rows (cur (wsess w))" and ?ts = "tasks (cur (wsess w))"
  let ?P = "index_is ?ts ?rs"
  have start: "?P w" using assms(2) by (simp add: index_is_def db_inv_def)
  have failed: "wp (clean_failed e started since i x k) Q (\<lambda>_ _. True) v" for started since i x k v
    and Q :: "json option \<Rightarrow> 'a world \<Rightarrow> bool"
    unfolding clean_failed_def wp_bnd by (rule wp_any, rule wp_any) (simp only: wp_raise)
  have finished: "wp (bnd (clean_finished e started since i k) (\<lambda>sm. ret (Some sm))) (\<lambda>r _. r \<noteq> None) (\<lambda>_ _. True) v"
    for started since i k v
    unfolding wp_bnd by (rule wp_any) (simp add: wp_ret)
  have rest: "wp (with_locals k (clean_batches e fuel started since n)) (\<lambda>a. wp (case a of (r, k) \<Rightarrow> case r of
       Inl x \<Rightarrow> clean_failed e started since i x k
     | Inr None \<Rightarrow> ret None
     | Inr (Some _) \<Rightarrow> bnd (clean_finished e started since i k) (\<lambda>summary. ret (Some summary)))
       (\<lambda>r _. r \<noteq> None) (\<lambda>_ _. True)) (\<lambda>_ _. True) v"
    if "?P v" for v k started since i
    unfolding wp_with_locals
    by (rule wp_mono [OF clean_batches_never_dry [OF that assms(1,3)]])
      (auto simp: failed finished simp del: not_None_eq split: prod.split)
  have "wp (full_clean_loop e fuel since after n full) (\<lambda>r _. r \<noteq> None) (\<lambda>_ _. True) w"
    unfolding full_clean_loop_def wp_bnd
    by (rule wp_kept [where P = ?P, OF off_session_clean(3) start], simp,
        rule wp_kept [where P = ?P, OF off_session(5)], simp, assumption,
        rule wp_kept [where P = ?P, OF off_session_run(1)], simp, assumption,
        rule wp_kept [where P = ?P, OF off_session_run(2)], simp, assumption)
      (erule rest | rule TrueI)+
  then show ?thesis by (auto simp: wp_def split: prod.splits)
qed

theorem clean_run_ends_witness: "fst (full_clean_loop calm_env 2 None None 500 False raw_world) \<noteq> Inr None"
  by (rule clean_run_ends) (simp_all add: raw_world_def start_world_def fresh_session_def index_ok_def)

text \<open>C21. A cleaning run, however it ends, removes no anime and no episode, and of those stored it never
  changes the key, the creation time or the score of another source (IMDb, AniList).\<close>

theorem clean_keeps_other_sources:
  assumes "tb = TAnime \<or> tb = TEpisode" and "saved (wsess w) = cur (wsess w)"
    and "keys_distinct TAnime (catalogue (cur (wsess w)) TAnime)" and "keys_distinct TEpisode (catalogue (cur (wsess w)) TEpisode)"
    and "full_clean_loop e fuel since after n full w = (r, v)" and "d = cur (wsess v) \<or> d = saved (wsess v)"
  shows "let old = catalogue (cur (wsess w)) tb; new = catalogue d tb in length old \<le> length new
     \<and> list_all2 (\<lambda>r r'. \<forall>c\<in>set (table_keys tb) \<union> {''imdb_score'', ''anilist_score'', ''created_at''}. r' c = r c)
         old (take (length old) new)"
proof -
  let ?S = "catalogue (cur (wsess w))"
  have "db_inv (foreign_kept ?S) w"
    using assms(2-4) by (auto simp: db_inv_def foreign_kept_def)
  then have "db_inv (foreign_kept ?S) v" by (rule keepsD [OF clean_scores.keeps_clean_loop assms(5)])
  with assms(6) have "foreign_kept ?S d" by (auto simp: db_inv_def)
  with assms(1) have "extends (- (foreign_columns \<union> set (table_keys tb))) (?S tb) (catalogue d tb)"
    unfolding foreign_kept_def by blast
  then show ?thesis
    unfolding Let_def extends_def foreign_columns_def same_outside_def
    by (auto elim!: list_all2_mono)
qed

definition scored_world :: "(string \<times> string) list world" where
  "scored_world = start_world [] (empty_db\<lparr>catalogue := (\<lambda>_. [])(TAnime := [(anime_row 5)(''imdb_score'' := VNum (DNum 8))])\<rparr>)"

theorem clean_keeps_other_sources_witness:
  "let v = snd (full_clean_loop calm_env 2 None None 500 False scored_world);
     new = catalogue (saved (wsess v)) TAnime in new \<noteq> [] \<and> hd new ''imdb_score'' = VNum (DNum 8)"
proof -
  let ?v = "snd (full_clean_loop calm_env 2 None None 500 False scored_world)"
  let ?row = "(anime_row 5)(''imdb_score'' := VNum (DNum 8))"
  have w: "saved (wsess scored_world) = cur (wsess scored_world)"
    "keys_distinct TAnime (catalogue (cur (wsess scored_world)) TAnime)"
    "keys_distinct TEpisode (catalogue (cur (wsess scored_world)) TEpisode)"
    "catalogue (cur (wsess scored_world)) TAnime = [?row]"
    by (simp_all add: scored_world_def start_world_def fresh_session_def keys_distinct_def empty_db_def)
  from clean_keeps_other_sources [of TAnime scored_world calm_env 2 None None 500 False "fst (full_clean_loop calm_env 2 None None 500 False scored_world)"
      ?v "saved (wsess ?v)"] w
  have "length [?row] \<le> length (catalogue (saved (wsess ?v)) TAnime)"
    "list_all2 (\<lambda>r r'. \<forall>c\<in>set (table_keys TAnime) \<union> {''imdb_score'', ''anilist_score'', ''created_at''}. r' c = r c)
         [?row] (take (length [?row]) (catalogue (saved (wsess ?v)) TAnime))"
    unfolding Let_def by simp_all
  then show ?thesis
    by (cases "catalogue (saved (wsess ?v)) TAnime") (simp_all add: Let_def)
qed

end
