(* ===== verification/Run_Correct.thy ===== *)
theory Run_Correct
  imports Run_Scripts Discovery_Correct Clean_Correct
begin

text \<open>
  The runs as a whole: a failed cleaning run is continued where it stopped, and a pass, with whatever
  arguments and however it ends, exits with a code of its own and leaves a well formed database.
\<close>

section \<open>Where a cleaning run is continued\<close>

lemma wp_latest_run_calm:
  assumes "calm e" and "\<not> broken (msess w)"
    and "\<And>v. cur (msess v) = cur (msess w) \<Longrightarrow> \<not> broken (msess v) \<Longrightarrow> slept v = slept w
           \<Longrightarrow> Q (latest_of job (cur (msess w))) v"
  shows "wp (latest_run e job) Q E w"
  unfolding latest_run_def
  by (rule wp_exec_metrics_calm [OF assms(1,2)], rule assms(3)) (simp_all add: assms(2) query_def)

lemma saved_cursor_back: "resume_cursor (JObj (clean_summary t since k @ [(''resume_after'', resume_after c)])) = Inr c"
  by (cases c rule: resume_after.cases) (auto simp: resume_cursor_def clean_summary_def Let_def)

lemma since_back:
  "truthy (field (JObj (clean_summary t since k @ [(''resume_after'', resume_after c)])) ''since'') \<longleftrightarrow> since \<noteq> None"
  by (auto simp: clean_summary_def Let_def isoformat_def split: option.split prod.split)

text \<open>A failed cleaning run, as the newest of its job.\<close>

definition clean_stopped :: "datetime option \<Rightarrow> cursor \<Rightarrow> ingestion_run \<Rightarrow> bool" where
  "clean_stopped since c r \<longleftrightarrow> r_status r = RUN_FAILED
     \<and> (\<exists>t k. r_summary r = Some (JObj (clean_summary t since k @ [(''resume_after'', resume_after c)])))"

lemma clean_stopped_summary:
  assumes "clean_stopped since c r"
  obtains s where "failed_summary_of (Some r) = Some s" and "resume_cursor s = Inr c"
    and "is_dict s" and "truthy (field s ''since'') \<longleftrightarrow> since \<noteq> None"
  using assms saved_cursor_back since_back
  by (auto simp: clean_stopped_def failed_summary_of_def clean_summary_def Let_def)

lemma clean_stopped_as:
  "clean_stopped since c (finished_as (r_id r) RUN_FAILED now
     (JObj (clean_summary t since k @ [(''resume_after'', resume_after c)])) err r)"
  by (auto simp: clean_stopped_def finished_as_def)

lemma latest_of_job:
  assumes "latest_of job runs = Some r" shows "r \<in> set runs" and "r_job r = job"
  using newest_props [OF assms [unfolded latest_of_def]] by auto

lemma latest_of_other:
  assumes "distinct (map r_id runs)" and "run \<in> set runs" and "r_job run \<noteq> job"
  shows "latest_of job (map (finished_as (r_id run) st now sm err) runs) = latest_of job runs"
proof -
  have "map_option (finished_as (r_id run) st now sm err) (latest_of job runs) = latest_of job runs"
  proof (cases "latest_of job runs")
    case (Some d)
    with latest_of_job [OF Some] assms have "r_id d \<noteq> r_id run"
      by (metis distinct_map inj_onD)
    with Some show ?thesis by (simp add: finished_as_def)
  qed simp
  then show ?thesis by (simp add: latest_of_map)
qed

lemma wp_clean_failed:
  assumes "calm e" and "\<not> broken (msess w)" and "latest_of clean_job_name (cur (msess w)) = Some run"
    and "distinct (map r_id (cur (msess w)))"
    and "\<And>v r. latest_of clean_job_name (cur (msess v)) = Some r \<Longrightarrow> clean_stopped since (k_after k) r
           \<Longrightarrow> r_started_at r = r_started_at run
           \<Longrightarrow> (\<And>job. job \<noteq> clean_job_name \<Longrightarrow> latest_of job (cur (msess v)) = latest_of job (cur (msess w)))
           \<Longrightarrow> \<not> broken (msess v) \<Longrightarrow> slept v = slept w \<Longrightarrow> E x v"
  shows "wp (clean_failed e started since (r_id run) x k) Q E w"
  unfolding clean_failed_def clean_summary_since_def monotonic_def wp_bnd wp_tick wp_look wp_ret
proof (rule wp_record_run_calm, rule assms(1), simp add: assms(2), goal_cases)
  case (1 now v)
  note run = latest_of_job [OF assms(3)]
  have latest: "latest_of clean_job_name (cur (msess v)) = Some (finished_as (r_id run) RUN_FAILED now
      (JObj (clean_summary (mclock e (steps w) + slept w - started) since k @ [(''resume_after'', resume_after (k_after k))]))
      (Some (describe x)) run)"
    by (simp add: 1 latest_of_map assms(3))
  have "E x v"
  proof (rule assms(5) [OF latest clean_stopped_as], goal_cases)
    case (2 job)
    then show ?case unfolding 1(1) using latest_of_other [OF assms(4) run(1)] run(2) by simp
  qed (use 1 in simp_all)
  then show ?case by (simp add: wp_raise)
qed

lemma wp_saved_positions:
  assumes "calm e" and "\<not> broken (msess w)" and "latest_of clean_job_name (cur (msess w)) = Some r"
    and "clean_stopped since c r" and "\<And>s. failed_summary_of (latest_of job (cur (msess w))) = Some s \<Longrightarrow> is_dict s"
  shows "wp (saved_positions e job) (\<lambda>(_, after) _. after = c) (\<lambda>_ _. False) w"
  unfolding saved_positions_def wp_bnd
proof (rule wp_latest_run_calm [OF assms(1,2)], goal_cases)
  case (1 v)
  obtain s where s: "failed_summary_of (Some r) = Some s" "resume_cursor s = Inr c"
    using assms(4) by (rule clean_stopped_summary)
  have after: "wp (latest_run e clean_job_name) (\<lambda>clean. wp (case failed_summary_of clean of None \<Rightarrow> ret None
      | Some summary \<Rightarrow> lift_py (resume_cursor summary)) (\<lambda>after. wp (ret (page, after)) (\<lambda>(_, after) _. after = c) (\<lambda>_ _. False))
      (\<lambda>_ _. False)) (\<lambda>_ _. False) v" for page :: json
    by (rule wp_latest_run_calm [OF assms(1) 1(2)]) (simp add: 1 assms(3) s lift_py_def wp_simps)
  show ?case
    using assms(5) after by (auto simp: lift_py_def wp_simps split: option.split)
qed

lemma wp_clean_resume:
  assumes "calm e" and "\<not> broken (msess w)" and "latest_of clean_job_name (cur (msess w)) = Some r"
    and "clean_stopped since c r" and "\<And>n. utc e n + micros (slept w) - r_started_at r \<le> clean_resume_max_age"
  shows "wp (clean_resume_cursor e) (\<lambda>after _. after = (if since = None then None else c)) (\<lambda>_ _. False) w"
  unfolding clean_resume_cursor_def wp_bnd
proof (rule wp_latest_run_calm [OF assms(1,2)], goal_cases)
  case (1 v)
  obtain s where s: "failed_summary_of (Some r) = Some s" "resume_cursor s = Inr c" "is_dict s"
    "truthy (field s ''since'') \<longleftrightarrow> since \<noteq> None"
    using assms(4) by (rule clean_stopped_summary)
  have "\<not> clean_resume_max_age < utc e n + micros (slept v) - r_started_at r" for n
    using assms(5) [of n] 1(3) by simp
  then show ?case using s assms(3) by (simp add: utc_now_def lift_py_def wp_simps)
qed

section \<open>Properties\<close>

text \<open>
  C34. A failed cleaning run is continued exactly where it stopped: when the database answers, the cursor it
  records is the one the next pass starts after; the next refresh does so only if the failed run was an
  incremental one, and starts from the beginning after a full pass.
\<close>

theorem clean_failure_resumes:
  assumes "calm e" and "\<not> broken (msess w)" and "distinct (map r_id (cur (msess w)))"
    and "latest_of clean_job_name (cur (msess w)) = Some run" and "job \<noteq> clean_job_name"
    and "\<And>s. failed_summary_of (latest_of job (cur (msess w))) = Some s \<Longrightarrow> is_dict s"
    and "\<And>n. utc e n + micros (slept w) - r_started_at run \<le> clean_resume_max_age"
    and "clean_failed e started since (r_id run) x k w = (Inl y, v)"
  shows "y = x \<and> (\<exists>page. fst (saved_positions e job v) = Inr (page, k_after k))
     \<and> fst (clean_resume_cursor e v) = Inr (if since = None then None else k_after k)"
proof -
  have "wp (clean_failed e started since (r_id run) x k) (\<lambda>_ _. False) (\<lambda>y v. y = x
      \<and> wp (saved_positions e job) (\<lambda>(_, after) _. after = k_after k) (\<lambda>_ _. False) v
      \<and> wp (clean_resume_cursor e) (\<lambda>after _. after = (if since = None then None else k_after k)) (\<lambda>_ _. False) v) w"
  proof (rule wp_clean_failed [OF assms(1,2,4,3)], intro conjI refl, goal_cases)
    case (1 v r)
    show ?case by (rule wp_saved_positions [OF assms(1) 1(5,1,2)]) (use 1(4) assms(5,6) in simp)
  next
    case (2 v r)
    show ?case by (rule wp_clean_resume [OF assms(1) 2(5,1,2)]) (use 2(3,6) assms(7) in simp)
  qed
  from wp_Inl [OF assms(8) this] show ?thesis
    by (auto simp: wp_def split: prod.splits sum.splits)
qed

lemma clean_failure_resumes_witness:
  "let e = calm_env\<lparr>utc := \<lambda>_. 0\<rparr>; k = \<lparr>k_totals = zero_counts, k_batches = 0, k_slowest = 0,
         k_after = Some (21, EPISODES), k_tags = [], k_studios = []\<rparr>;
       v = snd (clean_failed e 0 (Some 0) 7 Interrupted k
         ((start_world [] empty_db)\<lparr>msess := fresh_session [new_run 7 clean_job_name 0]\<rparr>) :: (ingest_exn + unit) \<times> _)
   in fst (clean_resume_cursor e v) = Inr (Some (21, EPISODES))"
proof -
  let ?e = "calm_env\<lparr>utc := \<lambda>_. 0\<rparr>"
  let ?k = "\<lparr>k_totals = zero_counts, k_batches = 0, k_slowest = 0, k_after = Some (21, EPISODES), k_tags = [], k_studios = []\<rparr>"
  let ?w = "(start_world [] empty_db)\<lparr>msess := fresh_session [new_run 7 clean_job_name 0]\<rparr>"
  let ?run = "clean_failed ?e 0 (Some 0) 7 Interrupted ?k ?w :: (ingest_exn + unit) \<times> _"
  have stop: "wp (clean_failed ?e 0 (Some 0) 7 Interrupted ?k) (\<lambda>_ :: unit. \<lambda>_. False) (\<lambda>_ _. True) ?w"
    unfolding clean_failed_def wp_bnd by (rule wp_any, rule wp_any) (simp only: wp_raise)
  obtain r v where run: "?run = (r, v)" by fastforce
  with stop obtain x where x: "(clean_failed ?e 0 (Some 0) (r_id (new_run 7 clean_job_name 0)) Interrupted ?k ?w
      :: (ingest_exn + unit) \<times> _) = (Inl x, v)"
    by (cases r) (auto simp: wp_def new_run_def)
  have "x = Interrupted \<and> (\<exists>page. fst (saved_positions ?e ''job'' v) = Inr (page, k_after ?k))
      \<and> fst (clean_resume_cursor ?e v) = Inr (if Some 0 = (None :: datetime option) then None else k_after ?k)"
    by (rule clean_failure_resumes [OF _ _ _ _ _ _ _ x])
      (simp_all add: calm_def calm_env_def start_world_def fresh_session_def latest_of_def new_run_def clean_job_name_def
        clean_resume_max_age_def micros_def failed_summary_of_def)
  with run show ?thesis by (simp add: Let_def)
qed

section \<open>Histories of runs\<close>

datatype command = OnePass pass_args | Refresh tier stage

text \<open>A run of a script: in surroundings of its own, interrupted by Ctrl-C or by SIGTERM if at all.\<close>

fun run_command :: "bool \<times> 's env \<times> nat \<times> command \<Rightarrow> 's world \<Rightarrow> int option \<times> 's world" where
  "run_command (sigterm, e, fuel, OnePass a) w = run_one_pass sigterm e fuel a w"
| "run_command (sigterm, e, fuel, Refresh tier stage) w = run_refresh sigterm e fuel tier stage w"

fun run_commands :: "(bool \<times> 's env \<times> nat \<times> command) list \<Rightarrow> 's world \<Rightarrow> 's world" where
  "run_commands [] w = w"
| "run_commands (c # cs) w = run_commands cs (snd (run_command c w))"

interpretation clean_ledger: clean_invariant "\<lambda>d. ledger_from S (tasks d)" for S
  by unfold_locales (auto simp: set_table_def upsert_stmt_def Let_def split: if_splits)

definition idle :: "'s world \<Rightarrow> bool" where
  "idle w \<longleftrightarrow> cur (wsess w) = saved (wsess w)"

lemma of_session_idle [simp]: "of_session idle"
  by (simp add: of_session_def idle_def)

lemma page_keeps_inserted: "page_keeps (ledger_kept S) e False"
  by (auto simp: page_keeps_def keeps_insert_tasks keeps_kept_session)

lemma keeps_session_positions [keeps_rules]:
  "keeps (session_is se) (saved_positions e job)" "keeps (session_is se) (clean_resume_cursor e)"
  "keeps (session_is se) (new_adapter e)"
  unfolding saved_positions_def clean_resume_cursor_def new_adapter_def
  by (auto intro!: keeps_rules of_session_metrics_blind)

lemma keeps_in_stage: "keeps P job \<Longrightarrow> keeps P rest \<Longrightarrow> keeps P (in_stage stage s job rest)"
  unfolding in_stage_def by (intro keeps_if keeps_bnd keeps_case_option keeps_ret)

lemma keeps_stages:
  shows "keeps (ledger_kept S) (one_pass_stages e fuel a)" and "keeps (ledger_kept S) (refresh_stages e fuel tier stage)"
proof -
  note discovery = keeps_discovery_run [OF page_keeps_ledger] keeps_discovery_run [OF page_keeps_inserted]
  note jobs = keeps_kept_run clean_ledger.keeps_clean_loop [folded ledger_kept_def]
  show "keeps (ledger_kept S) (one_pass_stages e fuel a)"
    unfolding one_pass_stages_def Let_def run_job_refresh_def run_job_overall_def
    by (intro keeps_bnd keeps_if keeps_ret keeps_case_prod keeps_in_stage keeps_lift_py discovery jobs
        keeps_of_session [OF keeps_session_positions(1)]) simp
  show "keeps (ledger_kept S) (refresh_stages e fuel tier stage)"
    unfolding refresh_stages_def
    by (cases tier) (auto intro!: keeps_bnd keeps_ret keeps_in_stage jobs
        keeps_weekly [OF page_keeps_ledger keeps_kept_catalogue] keeps_monthly [OF page_keeps_ledger]
        keeps_of_session [OF keeps_session_positions(2)])
qed

text \<open>A program around the stages keeps what the stages, the adapter's start and a rollback keep.\<close>

lemma keeps_in_sessions:
  assumes "\<And>w. P w \<Longrightarrow> P (w\<lparr>wsess := sess_rollback (wsess w)\<rparr>)" and "of_session P" and "keeps P m"
  shows "keeps P (in_sessions m)"
proof -
  have closed: "P (w\<lparr>wsess := sess_rollback (wsess w), msess := ms\<rparr>)" if "P w" for w ms
    by (rule of_sessionD [OF assms(2) assms(1) [OF that]]) simp
  have "P (snd (in_sessions m w))" if "P w" for w
  proof (cases "m (w\<lparr>wsess := sess_rollback (wsess w), msess := sess_rollback (msess w)\<rparr>)")
    case (Pair r v)
    with closed [OF that] keepsD [OF assms(3) Pair] have "P v" by blast
    then show ?thesis by (simp add: in_sessions_def Pair closed)
  qed
  then show ?thesis by (simp add: keeps_def)
qed

lemma in_sessions_idle: "keeps idle (in_sessions m)"
  by (simp add: keeps_def in_sessions_def idle_def split: prod.split)

lemma keeps_guarded_main:
  assumes "of_session P" and "keeps P (in_sessions stages)"
  shows "keeps P (guarded_main e stage stages)"
  unfolding guarded_main_def
  by (intro keeps_if keeps_ret keeps_bnd keeps_handle keeps_raise assms(2)
      keeps_of_session [OF keeps_session_positions(3) assms(1)])

lemma ledger_rollback: "ledger_kept S w \<Longrightarrow> ledger_kept S (w\<lparr>wsess := sess_rollback (wsess w)\<rparr>)"
  by (simp add: ledger_kept_def db_inv_def)

lemma keeps_main:
  "keeps (\<lambda>w. idle w \<and> ledger_kept S w) (one_pass_main e fuel a)"
  "keeps (\<lambda>w. idle w \<and> ledger_kept S w) (refresh_main e fuel tier stage)"
proof -
  have both: "keeps (\<lambda>w. idle w \<and> ledger_kept S w) (guarded_main e stage stages)"
    if "keeps (ledger_kept S) stages" for stage stages and e :: "'s env"
    using keeps_guarded_main [OF of_session_idle in_sessions_idle, of e stage stages]
      keeps_guarded_main [OF of_session_kept keeps_in_sessions [OF ledger_rollback of_session_kept that], of e stage]
    by (simp add: keeps_def)
  show "keeps (\<lambda>w. idle w \<and> ledger_kept S w) (one_pass_main e fuel a)"
    "keeps (\<lambda>w. idle w \<and> ledger_kept S w) (refresh_main e fuel tier stage)"
    unfolding one_pass_main_def refresh_main_def by (rule both, rule keeps_stages)+
qed

lemma run_command_keeps:
  assumes "idle w \<and> ledger_kept S w" shows "idle (snd (run_command c w)) \<and> ledger_kept S (snd (run_command c w))"
proof -
  have main: "idle (snd (exit_code sig main w)) \<and> ledger_kept S (snd (exit_code sig main w))"
    if "keeps (\<lambda>w. idle w \<and> ledger_kept S w) main" for sig main
    using that assms by (auto simp: keeps_def exit_code_def split: prod.split)
  obtain sig e fuel cmd where c: "c = (sig, e, fuel, cmd)" by (cases c)
  show ?thesis
    by (cases cmd) (simp_all only: c run_command.simps run_one_pass_def run_refresh_def main [OF keeps_main(1)] main [OF keeps_main(2)])
qed

text \<open>
  C35. After any history of runs of the two scripts (any stages and tiers, any surroundings, each ended
  by an error or an interrupt at any point) the ledger still has one row per task with attempts,
  backoff and error text in order, and nothing is left uncommitted.  Every task is still there and has only
  moved along its life (`life_step`): attempts are counted one by one, only a refresh sends a task back, and
  none brings back one that is dead or gone, whose row is the same to the last column.
\<close>

theorem runs_keep_ledger:
  assumes "ledger_ok (tasks (saved (wsess w)))" and "cur (wsess w) = saved (wsess w)"
  shows "let v = run_commands cs w in cur (wsess v) = saved (wsess v) \<and> ledger_ok (tasks (saved (wsess v)))
     \<and> (\<forall>s\<in>set (tasks (saved (wsess w))). \<exists>t\<in>set (tasks (saved (wsess v))). moved s t)"
proof -
  have "idle (run_commands cs v) \<and> ledger_kept S (run_commands cs v)" if "idle v \<and> ledger_kept S v" for v and S
    using that
  proof (induction cs arbitrary: v)
    case (Cons c cs)
    show ?case unfolding run_commands.simps by (rule Cons.IH, rule run_command_keeps, rule Cons.prems)
  qed simp
  moreover have "idle w \<and> ledger_kept (tasks (saved (wsess w))) w"
    using assms by (simp add: idle_def ledger_kept_def db_inv_def ledger_from_self)
  ultimately show ?thesis
    by (metis (no_types, lifting) idle_def ledger_kept_def db_inv_def ledger_from_def)
qed

lemma runs_keep_ledger_witness:
  "let v = run_commands [(False, calm_env, 9, OnePass \<lparr>a_stage = StageAll, a_page = None, a_after = None, a_fresh = True,
         a_refresh = False\<rparr>), (True, calm_env, 9, Refresh Weekly StageFetch)] one_task_world in
     cur (wsess v) = saved (wsess v) \<and> ledger_ok (tasks (saved (wsess v)))
     \<and> (\<forall>s\<in>set (tasks (saved (wsess one_task_world))). \<exists>t\<in>set (tasks (saved (wsess v))). moved s t)"
  by (rule runs_keep_ledger) (simp_all add: one_task_ok, simp add: one_task_world_def start_world_def fresh_session_def)

end
