(* ===== verification/Dags.thy ===== *)
theory Dags
  imports Run_Correct Imdb
begin

text \<open>
  The schedules of src/airflow/dags and the command lines they run: the command of every task, as a
  template that is rendered for each try, and how the scripts read a command line.  The part of
  `argparse` that the scripts use is modelled here: long options and their abbreviations, `--opt=value`, choices,
  ints, flags, `-h` on its own.  Airflow (when it starts a task, its pools, its retries) is not.
\<close>

section \<open>argparse\<close>

datatype action = Stores | StoresInt | StoresChoice "string list" | StoresTrue | ShowsHelp

type_synonym options = "(string \<times> action) list"

text \<open>What an argument looks like before it is consumed.\<close>

datatype arg_kind = Positional | Separator | Unknown | Ambiguous | Known string action "string option"

text \<open>`s.partition('=')`: the part before, and the part after if there is one.\<close>

fun split_equals :: "string \<Rightarrow> string \<times> string option" where
  "split_equals [] = ([], None)"
| "split_equals (c # s) = (if c = CHR ''='' then ([], Some s)
     else case split_equals s of (a, b) \<Rightarrow> (c # a, b))"

definition abbreviated :: "options \<Rightarrow> string \<Rightarrow> options" where
  "abbreviated opts s = (if prefix_of ''--'' s then filter (\<lambda>(n, _). prefix_of s n) opts else [])"

text \<open>The regular expression `^-\d+$|^-\d*\.\d+$`.\<close>

definition negative_number :: "string \<Rightarrow> bool" where
  "negative_number s = (case s of [] \<Rightarrow> False | c # body \<Rightarrow> c = CHR ''-''
     \<and> (let rest = dropWhile is_digit body in
        if rest = [] then body \<noteq> [] else hd rest = CHR ''.'' \<and> tl rest \<noteq> [] \<and> list_all is_digit (tl rest)))"

definition arg_kind_of :: "options \<Rightarrow> string \<Rightarrow> arg_kind" where
  "arg_kind_of opts s =
     (if \<not> prefix_of ''-'' s then Positional
      else if s = ''--'' then Separator
      else case map_of opts s of Some a \<Rightarrow> Known s a None
      | None \<Rightarrow> if length s = 1 then Positional
      else case split_equals s of (name, value) \<Rightarrow>
        (case (map_of opts name, value) of (Some a, Some v) \<Rightarrow> Known name a (Some v)
         | _ \<Rightarrow> (case abbreviated opts name of
             (n, a) # others \<Rightarrow> if others = [] then Known n a value else Ambiguous
           | [] \<Rightarrow> if negative_number s \<or> CHR '' '' \<in> set s then Positional else Unknown)))"

text \<open>The kinds of all arguments; after `--` everything is positional.\<close>

fun arg_kinds :: "options \<Rightarrow> string list \<Rightarrow> (string \<times> arg_kind) list" where
  "arg_kinds opts [] = []"
| "arg_kinds opts (s # ss) = (let k = arg_kind_of opts s in
     (s, k) # (if k = Separator then map (\<lambda>s. (s, Positional)) ss else arg_kinds opts ss))"

text \<open>`type` and `choices`; None is the exit with `expected one argument` or `invalid ... value`.\<close>

definition converted :: "action \<Rightarrow> string \<Rightarrow> json option" where
  "converted a s = (case a of
     StoresInt \<Rightarrow> map_option JInt (py_int_of_str s)
   | StoresChoice names \<Rightarrow> if s \<in> set names then Some (JStr s) else None
   | Stores \<Rightarrow> Some (JStr s)
   | _ \<Rightarrow> None)"

type_synonym namespace = "(string, json) dict"

text \<open>
  The options are consumed from left to right, each setting the attribute of its name without the dashes; `Inl` is the exit code: 2 for an error, 0 after the help.
  An argument that no option takes is an error once all are consumed.
\<close>

fun consume :: "(string \<times> arg_kind) list \<Rightarrow> bool \<Rightarrow> namespace \<Rightarrow> int + namespace" where
  "consume [] extras ns = (if extras then Inl exit_bad_arguments else Inr ns)"
| "consume ((_, Known n a (Some v)) # ks) extras ns =
     (case converted a v of Some j \<Rightarrow> consume ks extras (AList.update (drop 2 n) j ns) | None \<Rightarrow> Inl exit_bad_arguments)"
| "consume ((_, Known n a None) # ks) extras ns =
     (if a = ShowsHelp then Inl exit_ok
      else if a = StoresTrue then consume ks extras (AList.update (drop 2 n) (JBool True) ns)
      else case ks of (v, Positional) # ks' \<Rightarrow>
          (case converted a v of Some j \<Rightarrow> consume ks' extras (AList.update (drop 2 n) j ns) | None \<Rightarrow> Inl exit_bad_arguments)
        | _ \<Rightarrow> Inl exit_bad_arguments)"
| "consume (_ # ks) extras ns = consume ks True ns"

text \<open>`parse_args`: ambiguous options first, then the arguments, then the required options.\<close>

definition parse_args :: "options \<Rightarrow> string list \<Rightarrow> namespace \<Rightarrow> string list \<Rightarrow> int + namespace" where
  "parse_args opts needed defaults argv =
     (let kinds = arg_kinds opts argv in
      if Ambiguous \<in> snd ` set kinds then Inl exit_bad_arguments
      else sbind (consume kinds False defaults) (\<lambda>ns.
        if list_all (\<lambda>n. field (JObj ns) n \<noteq> JNull) needed then Inr ns else Inl exit_bad_arguments))"

definition help_options :: options where
  "help_options = [(''-h'', ShowsHelp), (''--help'', ShowsHelp)]"

section \<open>The command lines of the scripts\<close>

definition stage_names :: "string list" where
  "stage_names = [''all'', ''discovery'', ''fetch'', ''clean'']"

definition stage_of_name :: "json \<Rightarrow> stage" where
  "stage_of_name j = (if j = JStr ''discovery'' then StageDiscovery else if j = JStr ''fetch'' then StageFetch
     else if j = JStr ''clean'' then StageClean else StageAll)"

fun int_or_none :: "json \<Rightarrow> int option" where
  "int_or_none (JInt i) = Some i"
| "int_or_none _ = None"

fun str_or_none :: "json \<Rightarrow> string option" where
  "str_or_none (JStr s) = Some s"
| "str_or_none _ = None"

definition one_pass_options :: options where
  "one_pass_options = help_options @ [(''--stage'', StoresChoice stage_names), (''--page'', StoresInt),
     (''--after'', Stores), (''--fresh'', StoresTrue), (''--refresh'', StoresTrue)]"

definition one_pass_defaults :: namespace where
  "one_pass_defaults = [(''stage'', JStr ''all''), (''page'', JNull), (''after'', JNull),
     (''fresh'', JBool False), (''refresh'', JBool False)]"

definition one_pass_read_args :: "string list \<Rightarrow> int + pass_args" where
  "one_pass_read_args argv = sbind (parse_args one_pass_options [] one_pass_defaults argv) (\<lambda>ns.
     let attr = field (JObj ns) in
     read_args (stage_of_name (attr ''stage'')) (int_or_none (attr ''page'')) (str_or_none (attr ''after''))
       (truthy (attr ''fresh'')) (truthy (attr ''refresh'')))"

definition refresh_options :: options where
  "refresh_options = help_options @ [(''--tier'', StoresChoice [''weekly'', ''monthly'']),
     (''--stage'', StoresChoice stage_names)]"

definition refresh_read_args :: "string list \<Rightarrow> int + tier \<times> stage" where
  "refresh_read_args argv =
     sbind (parse_args refresh_options [''tier''] [(''tier'', JNull), (''stage'', JStr ''all'')] argv) (\<lambda>ns.
     Inr (if field (JObj ns) ''tier'' = JStr ''weekly'' then Weekly else Monthly, stage_of_name (field (JObj ns) ''stage'')))"

section \<open>The schedules\<close>

text \<open>A command is a Jinja template: text, and text under a condition on the run's parameters and the try.\<close>

datatype condition = ParamIsTrue string | TryIs nat | Both condition condition

datatype piece = Raw string | OnlyIf condition string

fun holds :: "(string \<Rightarrow> bool) \<Rightarrow> nat \<Rightarrow> condition \<Rightarrow> bool" where
  "holds params try_number (ParamIsTrue p) = params p"
| "holds params try_number (TryIs n) = (try_number = n)"
| "holds params try_number (Both c d) = (holds params try_number c \<and> holds params try_number d)"

fun render_piece :: "(string \<Rightarrow> bool) \<Rightarrow> nat \<Rightarrow> piece \<Rightarrow> string" where
  "render_piece params try_number (Raw s) = s"
| "render_piece params try_number (OnlyIf c s) = (if holds params try_number c then s else [])"

definition render :: "(string \<Rightarrow> bool) \<Rightarrow> nat \<Rightarrow> piece list \<Rightarrow> string" where
  "render params try_number ps = concat (map (render_piece params try_number) ps)"

record operator =
  op_task_id :: string
  op_bash_command :: "piece list"
  op_skip_on_exit_code :: "int option"
  op_pool :: string
  op_retries :: nat
  op_retry_delay :: nat         \<comment> \<open>minutes\<close>
  op_execution_timeout :: nat   \<comment> \<open>hours\<close>

text \<open>The operators of a DAG are in the order of `>>`.\<close>

record dag =
  dag_id :: string
  dag_schedule :: "string option"
  dag_start_date :: "(nat \<times> nat \<times> nat) option"
  dag_catchup :: bool
  dag_max_active_runs :: nat
  dag_params :: "(string \<times> bool) list"
  dag_operators :: "operator list"

definition app_dir :: string where "app_dir = ''/opt/app''"
definition app_python :: string where "app_python = ''/opt/app-venv/bin/python''"
definition tenrai_pool :: string where "tenrai_pool = ''tenrai''"
definition skipped_exit_code :: int where "skipped_exit_code = 99"

definition app_command :: "string \<Rightarrow> string" where
  "app_command script = ''cd '' @ app_dir @ '' && '' @ app_python @ '' -m app.ingestion.run_scripts.'' @ script"

definition stage_operator :: "(string \<Rightarrow> piece list) \<Rightarrow> string \<Rightarrow> nat \<Rightarrow> nat \<Rightarrow> nat \<Rightarrow> operator" where
  "stage_operator command stage tries delay timeout = \<lparr>op_task_id = stage, op_bash_command = command stage,
     op_skip_on_exit_code = None, op_pool = tenrai_pool, op_retries = tries, op_retry_delay = delay,
     op_execution_timeout = timeout\<rparr>"

definition one_pass_stage_command :: "string \<Rightarrow> piece list" where
  "one_pass_stage_command stage =
     [Raw (app_command ''one_pass --stage '' @ stage),
      OnlyIf (Both (ParamIsTrue ''fresh'') (TryIs 1)) '' --fresh'']
     @ (if stage = ''discovery'' then [OnlyIf (ParamIsTrue ''refresh'') '' --refresh''] else [])"

definition ingestion_one_pass :: dag where
  "ingestion_one_pass = \<lparr>dag_id = ''ingestion_one_pass'', dag_schedule = None, dag_start_date = None,
     dag_catchup = False, dag_max_active_runs = 1, dag_params = [(''fresh'', False), (''refresh'', False)],
     dag_operators = [stage_operator one_pass_stage_command ''discovery'' 2 5 1,
       stage_operator one_pass_stage_command ''fetch'' 3 10 30,
       stage_operator one_pass_stage_command ''clean'' 2 5 4]\<rparr>"

definition weekly_stage_command :: "string \<Rightarrow> piece list" where
  "weekly_stage_command stage = [Raw (app_command ''refresh '' @ ''--tier weekly --stage '' @ stage)]"

definition ingestion_weekly :: dag where
  "ingestion_weekly = \<lparr>dag_id = ''ingestion_weekly'', dag_schedule = Some ''0 3 * * 0'',
     dag_start_date = Some (2026, 1, 1), dag_catchup = False, dag_max_active_runs = 1, dag_params = [],
     dag_operators = [stage_operator weekly_stage_command ''discovery'' 2 5 1,
       stage_operator weekly_stage_command ''fetch'' 3 10 6,
       stage_operator weekly_stage_command ''clean'' 2 5 2]\<rparr>"

definition monthly_stage_command :: "string \<Rightarrow> piece list" where
  "monthly_stage_command stage = [Raw (app_command ''refresh '' @ ''--tier monthly --stage '' @ stage)]"

definition ingestion_monthly :: dag where
  "ingestion_monthly = \<lparr>dag_id = ''ingestion_monthly'', dag_schedule = Some ''0 3 1 * *'',
     dag_start_date = Some (2026, 1, 1), dag_catchup = False, dag_max_active_runs = 1, dag_params = [],
     dag_operators = [stage_operator monthly_stage_command ''discovery'' 2 5 1,
       stage_operator monthly_stage_command ''fetch'' 3 10 8,
       stage_operator monthly_stage_command ''clean'' 2 5 3]\<rparr>"

definition imdb_weekly :: dag where
  "imdb_weekly = \<lparr>dag_id = ''imdb_weekly'', dag_schedule = Some ''0 3 * * 1'',
     dag_start_date = Some (2026, 1, 1), dag_catchup = False, dag_max_active_runs = 1, dag_params = [],
     dag_operators = [\<lparr>op_task_id = ''download'', op_bash_command = [Raw (app_command ''imdb_download'')],
       op_skip_on_exit_code = Some skipped_exit_code, op_pool = tenrai_pool, op_retries = 3, op_retry_delay = 10,
       op_execution_timeout = 1\<rparr>]\<rparr>"

section \<open>What a task runs\<close>

text \<open>A script with its arguments read; the shell's words are split at spaces, as no command quotes any.\<close>

datatype script_run = Runs command | RunsImdb

definition shell_words :: "string \<Rightarrow> string list" where
  "shell_words line = filter (\<lambda>w. w \<noteq> []) (py_split (CHR '' '') line)"

text \<open>None is a command that is not one of the scripts; `Inl` the exit code of a refused command line.\<close>

definition script_of :: "string \<Rightarrow> string list \<Rightarrow> (int + script_run) option" where
  "script_of script argv =
     (if script = ''app.ingestion.run_scripts.one_pass''
        then Some (sbind (one_pass_read_args argv) (\<lambda>a. Inr (Runs (OnePass a))))
      else if script = ''app.ingestion.run_scripts.refresh''
        then Some (sbind (refresh_read_args argv) (\<lambda>(tier, stage). Inr (Runs (Refresh tier stage))))
      else if script = ''app.ingestion.run_scripts.imdb_download'' then Some (Inr RunsImdb)
      else None)"

definition read_command :: "string \<Rightarrow> (int + script_run) option" where
  "read_command line = (case shell_words line of
     cd # dir # amp # python # m # script # argv \<Rightarrow>
       if [cd, dir, amp, python, m] = [''cd'', app_dir, ''&&'', app_python, ''-m''] then script_of script argv else None
   | _ \<Rightarrow> None)"

definition task_runs :: "(string \<Rightarrow> bool) \<Rightarrow> nat \<Rightarrow> dag \<Rightarrow> (int + script_run) option list" where
  "task_runs params try_number d = map (\<lambda>t. read_command (render params try_number (op_bash_command t))) (dag_operators d)"

end
