(* ===== verification/Dags_Correct.thy ===== *)
theory Dags_Correct
  imports Dags
begin

text \<open>
  The command lines: one that is written out for given arguments is read back as them, and every command
  that a schedule renders is accepted by its script and asks for what the schedule is meant to run.
\<close>

section \<open>Integers and cursors in command lines\<close>

lemma length_digits: "n < 10 ^ Suc k \<Longrightarrow> length (digits n) \<le> Suc k"
proof (induction k arbitrary: n)
  case (Suc k)
  have "n div 10 < 10 ^ Suc k" using Suc.prems by simp
  from Suc.IH [OF this] show ?case by (simp add: digits.simps [of n])
qed (simp add: digits.simps)

lemma str_int_chars: "c \<in> set (str_int i) \<Longrightarrow> c = CHR ''-'' \<or> is_digit c"
  by (auto simp: str_int_def dest: digits_no_slash split: if_splits)

lemma str_int_no_space: "c \<in> set (str_int i) \<Longrightarrow> \<not> is_space c"
  by (drule str_int_chars) (auto simp: is_digit_def is_space_def Let_def)

lemma py_int_of_str_int:
  assumes "int32_ok i" shows "py_int_of_str (str_int i) = Some i"
proof -
  have bound: "nat \<bar>i\<bar> < 10 ^ Suc 9" using assms by (auto simp: int32_ok_def nat_less_iff abs_less_iff)
  have len: "length (str_int i) \<le> 11"
    using length_digits [OF bound] by (auto simp: str_int_def)
  have "length (filter is_digit (str_int i)) \<le> 4300"
    using length_filter_le [of is_digit "str_int i"] len by linarith
  then show ?thesis
    by (simp add: py_int_of_str_def int_strip_no_space [OF str_int_no_space])
qed

lemma py_split_none: "c \<notin> set s \<Longrightarrow> py_split c s = [s]"
  by (induction s) auto

lemma py_split_append: "c \<notin> set s \<Longrightarrow> py_split c (s @ c # t) = s # py_split c t"
  by (induction s) auto

lemma colon_free: "CHR '':'' \<notin> set (str_int i)" "CHR '':'' \<notin> set (resource_value r)"
proof -
  show "CHR '':'' \<notin> set (str_int i)"
    using str_int_chars [of "CHR '':''" i] by (auto simp: is_digit_def)
  show "CHR '':'' \<notin> set (resource_value r)" by (cases r) simp_all
qed

lemma parse_cursor_written:
  "int32_ok i \<Longrightarrow> parse_cursor (str_int i @ CHR '':'' # resource_value r) = Some (i, r)"
  by (simp add: parse_cursor_def py_split_append colon_free py_split_none py_int_of_str_int)

section \<open>Command lines written out\<close>

text \<open>The command line of `one_pass` for given arguments, as a caller writes it.\<close>

fun stage_name :: "stage \<Rightarrow> string" where
  "stage_name StageAll = ''all''"
| "stage_name StageDiscovery = ''discovery''"
| "stage_name StageFetch = ''fetch''"
| "stage_name StageClean = ''clean''"

text \<open>`--name=value`\<close>

definition assigned :: "string \<Rightarrow> string \<Rightarrow> string" where
  "assigned name value = name @ CHR ''='' # value"

definition one_pass_argv :: "pass_args \<Rightarrow> string list" where
  "one_pass_argv a = [assigned ''--stage'' (stage_name (a_stage a))]
     @ (case a_page a of None \<Rightarrow> [] | Some p \<Rightarrow> [assigned ''--page'' (str_int p)])
     @ (case a_after a of None \<Rightarrow> [] | Some (i, r) \<Rightarrow> [assigned ''--after'' (str_int i @ CHR '':'' # resource_value r)])
     @ (if a_fresh a then [''--fresh''] else []) @ (if a_refresh a then [''--refresh''] else [])"

definition pass_args_ok :: "pass_args \<Rightarrow> bool" where
  "pass_args_ok a \<longleftrightarrow> (\<forall>p. a_page a = Some p \<longrightarrow> 1 \<le> p \<and> int32_ok p)
     \<and> (\<forall>i r. a_after a = Some (i, r) \<longrightarrow> int32_ok i)
     \<and> (a_refresh a \<longrightarrow> a_stage a = StageAll \<or> a_stage a = StageDiscovery)"

lemma one_pass_kinds [simp]:
  "arg_kind_of one_pass_options (assigned ''--stage'' s) = Known ''--stage'' (StoresChoice stage_names) (Some s)"
  "arg_kind_of one_pass_options (assigned ''--page'' s) = Known ''--page'' StoresInt (Some s)"
  "arg_kind_of one_pass_options (assigned ''--after'' s) = Known ''--after'' Stores (Some s)"
  "arg_kind_of one_pass_options ''--fresh'' = Known ''--fresh'' StoresTrue None"
  "arg_kind_of one_pass_options ''--refresh'' = Known ''--refresh'' StoresTrue None"
  by (simp_all add: arg_kind_of_def one_pass_options_def help_options_def assigned_def)

lemma stage_of_stage_name [simp]: "stage_of_name (JStr (stage_name s)) = s"
  by (cases s) (simp_all add: stage_of_name_def)

lemma stage_name_choice [simp]: "stage_name s \<in> set stage_names"
  by (cases s) (simp_all add: stage_names_def)

section \<open>Properties\<close>

text \<open>
  C39. A command line of one_pass.py that is written out for given arguments is read back as exactly these
  arguments, whenever they are ones that the script accepts.
\<close>

theorem command_line_round_trip:
  assumes "pass_args_ok a" shows "one_pass_read_args (one_pass_argv a) = Inr a"
proof -
  obtain stage page after fresh refresh where a: "a = \<lparr>a_stage = stage, a_page = page, a_after = after,
      a_fresh = fresh, a_refresh = refresh\<rparr>" by (cases a)
  have kinds: "arg_kinds one_pass_options (one_pass_argv a) =
     [(assigned ''--stage'' (stage_name stage), Known ''--stage'' (StoresChoice stage_names) (Some (stage_name stage)))]
     @ (case page of None \<Rightarrow> [] | Some p \<Rightarrow> [(assigned ''--page'' (str_int p), Known ''--page'' StoresInt (Some (str_int p)))])
     @ (case after of None \<Rightarrow> [] | Some (i, r) \<Rightarrow> [(assigned ''--after'' (str_int i @ CHR '':'' # resource_value r),
          Known ''--after'' Stores (Some (str_int i @ CHR '':'' # resource_value r)))])
     @ (if fresh then [(''--fresh'', Known ''--fresh'' StoresTrue None)] else [])
     @ (if refresh then [(''--refresh'', Known ''--refresh'' StoresTrue None)] else [])"
    by (simp add: a one_pass_argv_def Let_def split: option.split)
  have page: "py_int_of_str (str_int p) = Some p \<and> \<not> p < 1" if "page = Some p" for p
    using assms that by (simp add: a pass_args_ok_def py_int_of_str_int)
  have parsed: "parse_args one_pass_options [] one_pass_defaults (one_pass_argv a) = Inr
      [(''stage'', JStr (stage_name stage)), (''page'', case page of None \<Rightarrow> JNull | Some p \<Rightarrow> JInt p),
       (''after'', case after of None \<Rightarrow> JNull | Some (i, r) \<Rightarrow> JStr (str_int i @ CHR '':'' # resource_value r)),
       (''fresh'', JBool fresh), (''refresh'', JBool refresh)]"
    using page unfolding parse_args_def kinds one_pass_defaults_def
    by (cases page; cases after; cases fresh; cases refresh) (simp_all add: converted_def split: prod.split)
  show ?thesis
    using assms page unfolding one_pass_read_args_def parsed read_args_def
    by (cases page; cases after) (auto simp: a pass_args_ok_def parse_cursor_written Let_def)
qed

theorem command_line_round_trip_witness:
  "one_pass_read_args [''--stage=discovery'', ''--page=12'', ''--after=-7:episodes'', ''--refresh'']
     = Inr \<lparr>a_stage = StageDiscovery, a_page = Some 12, a_after = Some (- 7, EPISODES), a_fresh = False, a_refresh = True\<rparr>"
proof -
  let ?a = "\<lparr>a_stage = StageDiscovery, a_page = Some 12, a_after = Some (- 7, EPISODES), a_fresh = False, a_refresh = True\<rparr>"
  have argv: "one_pass_argv ?a = [''--stage=discovery'', ''--page=12'', ''--after=-7:episodes'', ''--refresh'']"
    by code_simp
  have "pass_args_ok ?a" by (simp add: pass_args_ok_def int32_ok_def)
  from command_line_round_trip [OF this] show ?thesis by (simp only: argv)
qed

lemmas command_rules = task_runs_def render_def read_command_def shell_words_def script_of_def stage_operator_def
  app_command_def app_dir_def app_python_def parse_args_def Let_def arg_kind_of_def abbreviated_def help_options_def
  stage_names_def stage_of_name_def converted_def

text \<open>
  C40. Every command that a schedule renders, for any parameters and any try, is accepted by its script and
  means the stage of its task: a one-pass task ignores the saved positions on its first try only, and
  its discovery resets the ledger on every try of a refresh (so that a retry continues the run it repeats);
  the refreshes run the stages of their tier, and the exit code that skips the IMDb task is the script's.
\<close>

theorem dag_commands_read:
  "task_runs ps n ingestion_one_pass = map (\<lambda>stage. Some (Inr (Runs (OnePass \<lparr>a_stage = stage, a_page = None,
       a_after = None, a_fresh = (ps ''fresh'' \<and> n = 1), a_refresh = (ps ''refresh'' \<and> stage = StageDiscovery)\<rparr>))))
     [StageDiscovery, StageFetch, StageClean]
   \<and> task_runs ps n ingestion_weekly = map (\<lambda>stage. Some (Inr (Runs (Refresh Weekly stage)))) [StageDiscovery, StageFetch, StageClean]
   \<and> task_runs ps n ingestion_monthly = map (\<lambda>stage. Some (Inr (Runs (Refresh Monthly stage)))) [StageDiscovery, StageFetch, StageClean]
   \<and> task_runs ps n imdb_weekly = [Some (Inr RunsImdb)]
   \<and> map op_skip_on_exit_code (dag_operators imdb_weekly) = [Some exit_skipped]"
proof (intro conjI)
  show "task_runs ps n ingestion_one_pass = map (\<lambda>stage. Some (Inr (Runs (OnePass \<lparr>a_stage = stage, a_page = None,
       a_after = None, a_fresh = (ps ''fresh'' \<and> n = 1), a_refresh = (ps ''refresh'' \<and> stage = StageDiscovery)\<rparr>))))
     [StageDiscovery, StageFetch, StageClean]"
    by (cases "ps ''fresh'' \<and> n = 1"; cases "ps ''refresh''")
      (auto simp: command_rules ingestion_one_pass_def one_pass_stage_command_def one_pass_read_args_def
        one_pass_options_def one_pass_defaults_def read_args_def)
  show "task_runs ps n ingestion_weekly = map (\<lambda>stage. Some (Inr (Runs (Refresh Weekly stage)))) [StageDiscovery, StageFetch, StageClean]"
    by (simp add: command_rules ingestion_weekly_def weekly_stage_command_def refresh_read_args_def refresh_options_def)
  show "task_runs ps n ingestion_monthly = map (\<lambda>stage. Some (Inr (Runs (Refresh Monthly stage)))) [StageDiscovery, StageFetch, StageClean]"
    by (simp add: command_rules ingestion_monthly_def monthly_stage_command_def refresh_read_args_def refresh_options_def)
  show "task_runs ps n imdb_weekly = [Some (Inr RunsImdb)]"
    by (simp add: command_rules imdb_weekly_def)
  show "map op_skip_on_exit_code (dag_operators imdb_weekly) = [Some exit_skipped]"
    by (simp add: imdb_weekly_def skipped_exit_code_def exit_skipped_def)
qed

end
