(* ===== verification/Web_Model.thy ===== *)
theory Web_Model
  imports Ingest_Model "HOL-Library.List_Lexorder" "HOL-Library.Word"
begin

text \<open>
  The web side: the rows of app/users/models.py and app/security/models.py, Redis, the task broker
  and the effects of a request on them, with the utilities of app/security/utils and the exceptions
  of app/exceptions.py.

  A request works on a database session of its own; what it commits is `saved`.  Redis keys carry
  the time they expire at; a key that has expired is absent.  The parameters in `web_env` are the
  clock, the random sources, bcrypt, PyJWT, the database's collation, and which database, Redis or
  broker operation fails; every effect takes the next number of `w_steps`.
\<close>

section \<open>Exceptions\<close>

text \<open>The subclasses of AppError, those of app/users and app/security included.\<close>

datatype app_error = AppError | BadRequestError | AuthenticationError | InvalidTokenError | ForbiddenError
  | ResourceDoesNotExistError | ConflictError | AlreadyLoggedInError | DuplicateResourceError
  | UserAlreadyExistsError | TooManyRequestsError | ServiceUnavailableError

datatype web_exn =
    App app_error string
  | RedisError string
  | IntegrityError
  | DBAPIError string  \<comment> \<open>any other error of the database, or of reaching it\<close>
  | HTTPException int string             \<comment> \<open>Starlette's, with its status and detail\<close>
  | RequestValidationError "string list"  \<comment> \<open>the fields that are refused\<close>
  | PyError py_exn

fun status_code :: "app_error \<Rightarrow> int" where
  "status_code AppError = 500"
| "status_code BadRequestError = 400"
| "status_code AuthenticationError = 401"
| "status_code InvalidTokenError = 401"
| "status_code ForbiddenError = 403"
| "status_code ResourceDoesNotExistError = 404"
| "status_code ConflictError = 409"
| "status_code AlreadyLoggedInError = 409"
| "status_code DuplicateResourceError = 409"
| "status_code UserAlreadyExistsError = 409"
| "status_code TooManyRequestsError = 429"
| "status_code ServiceUnavailableError = 503"

fun default_message :: "app_error \<Rightarrow> string" where
  "default_message AppError = ''An unexpected error occurred.''"
| "default_message BadRequestError = ''Bad request.''"
| "default_message AuthenticationError = ''Authentication failed.''"
| "default_message InvalidTokenError = ''Token could not be verified.''"
| "default_message ForbiddenError = ''You do not have permission to perform this action.''"
| "default_message ResourceDoesNotExistError = ''Resource not found.''"
| "default_message ConflictError = ''Conflict with current state.''"
| "default_message AlreadyLoggedInError = ''You are already logged in. Please log out first.''"
| "default_message DuplicateResourceError = ''Resource already exists.''"
| "default_message UserAlreadyExistsError = ''A user with this email already exists.''"
| "default_message TooManyRequestsError = ''Too many requests. Please try again later.''"
| "default_message ServiceUnavailableError = ''Service temporarily unavailable. Please try again shortly.''"

text \<open>`C()` and `C(message)`; an empty message is replaced by the default one.\<close>

definition app :: "app_error \<Rightarrow> web_exn" where
  "app k = App k (default_message k)"

definition app_msg :: "app_error \<Rightarrow> string \<Rightarrow> web_exn" where
  "app_msg k m = App k (if m = [] then default_message k else m)"

fun is_redis_error :: "web_exn \<Rightarrow> bool" where
  "is_redis_error (RedisError _) = True"
| "is_redis_error _ = False"

fun is_unavailable :: "web_exn \<Rightarrow> bool" where
  "is_unavailable (App ServiceUnavailableError _) = True"
| "is_unavailable _ = False"

fun is_invalid_token :: "web_exn \<Rightarrow> bool" where
  "is_invalid_token (App InvalidTokenError _) = True"
| "is_invalid_token _ = False"

fun is_integrity_error :: "web_exn \<Rightarrow> bool" where
  "is_integrity_error IntegrityError = True"
| "is_integrity_error _ = False"

section \<open>Rows\<close>

type_synonym uuid = "128 word"

record user =
  usr_id :: uuid
  usr_email :: string
  usr_username :: string
  usr_password :: string
  usr_is_admin :: bool
  usr_is_verified :: bool
  usr_created_at :: datetime

record refresh_token =
  rt_jti :: uuid
  rt_user_id :: uuid
  rt_revoke :: bool
  rt_revoked_at :: "datetime option"
  rt_expires_at :: datetime
  rt_created_at :: datetime

record web_db =
  users :: "user list"
  refresh_tokens :: "refresh_token list"

record redis =
  keys :: "(string \<times> string \<times> rat) list"             \<comment> \<open>key, value, expiry in seconds\<close>
  zsets :: "(string \<times> (string \<times> rat) list) list"    \<comment> \<open>sorted sets: member, score\<close>

datatype email_task = SendVerification | SendPasswordReset

record web =
  w_db :: "web_db session"
  w_redis :: redis
  w_queue :: "(email_task \<times> string \<times> string) list"  \<comment> \<open>task, address, token; latest last\<close>
  w_slept :: "int list"               \<comment> \<open>the delays slept, latest last\<close>
  w_steps :: nat

record web_env =
  clock :: "nat \<Rightarrow> datetime"
  new_uuid :: "nat \<Rightarrow> uuid"           \<comment> \<open>uuid.uuid4\<close>
  new_secret :: "nat \<Rightarrow> string"       \<comment> \<open>secrets.token_urlsafe(32)\<close>
  hashpw :: "nat \<Rightarrow> string \<Rightarrow> string"  \<comment> \<open>bcrypt.hashpw with a new salt\<close>
  checkpw :: "string \<Rightarrow> string \<Rightarrow> bool"
  jwt_encode :: "json \<Rightarrow> string"
  jwt_decode :: "datetime \<Rightarrow> string \<Rightarrow> json option"  \<comment> \<open>the payload dict; None is a PyJWTError\<close>
  web_db_fault :: "nat \<Rightarrow> string option"
  redis_fault :: "nat \<Rightarrow> (string \<times> bool) option"  \<comment> \<open>the error, and whether the command was carried out\<close>
  broker_down :: "nat \<Rightarrow> bool"
  collation :: "string \<Rightarrow> nat list"
  validate_email :: "string \<Rightarrow> string option"  \<comment> \<open>pydantic's EmailStr: the normalised address\<close>
  http_secure :: bool
  missing_credentials :: "int \<times> string"  \<comment> \<open>what HTTPBearer answers without credentials: status and detail\<close>
  access_token_expire_minutes :: int
  refresh_token_expire_days :: int
  refresh_grace_seconds :: int

type_synonym 'a webio = "(web, web_exn, 'a) prog"

section \<open>Effects\<close>

definition wtick :: "nat webio" where
  "wtick = (\<lambda>w. (Inr (w_steps w), w\<lparr>w_steps := Suc (w_steps w)\<rparr>))"

definition now_utc :: "web_env \<Rightarrow> datetime webio" where
  "now_utc e = bnd wtick (\<lambda>n. ret (clock e n))"

definition seconds :: "datetime \<Rightarrow> rat" where
  "seconds t = of_int t / 1000000"

text \<open>A database error leaves the session unusable until it is rolled back.\<close>

type_synonym 'a web_stmt = "datetime \<Rightarrow> web_db \<Rightarrow> web_exn + ('a \<times> web_db)"

definition web_exec :: "web_env \<Rightarrow> 'a web_stmt \<Rightarrow> 'a webio" where
  "web_exec e stmt = bnd wtick (\<lambda>n w.
     let s = w_db w; t0 = (case tx_time s of None \<Rightarrow> clock e n | Some t \<Rightarrow> t); s' = s\<lparr>tx_time := Some t0\<rparr> in
     if broken s then (Inl (DBAPIError ''PendingRollbackError''), w)
     else case web_db_fault e n of
       Some m \<Rightarrow> (Inl (DBAPIError m), w\<lparr>w_db := s'\<lparr>broken := True\<rparr>\<rparr>)
     | None \<Rightarrow> (case stmt t0 (cur s) of
         Inl x \<Rightarrow> (Inl x, w\<lparr>w_db := s'\<lparr>broken := True\<rparr>\<rparr>)
       | Inr (a, d) \<Rightarrow> (Inr a, w\<lparr>w_db := s'\<lparr>cur := d\<rparr>\<rparr>)))"

definition web_commit :: "web_env \<Rightarrow> unit webio" where
  "web_commit e = bnd wtick (\<lambda>n w. let s = w_db w in
     if broken s then (Inl (DBAPIError ''PendingRollbackError''), w)
     else case web_db_fault e n of
       Some m \<Rightarrow> (Inl (DBAPIError m), w\<lparr>w_db := s\<lparr>broken := True\<rparr>\<rparr>)
     | None \<Rightarrow> (Inr (), w\<lparr>w_db := s\<lparr>saved := cur s, tx_time := None\<rparr>\<rparr>))"

definition web_rollback :: "unit webio" where
  "web_rollback = update (\<lambda>w. w\<lparr>w_db := sess_rollback (w_db w)\<rparr>)"

definition web_query :: "(web_db \<Rightarrow> 'a) \<Rightarrow> 'a web_stmt" where
  "web_query f = (\<lambda>_ d. Inr (f d, d))"

text \<open>A Redis command at the time of its step: its answer and the new state.\<close>

definition redis_do :: "web_env \<Rightarrow> (rat \<Rightarrow> redis \<Rightarrow> (web_exn + 'a) \<times> redis) \<Rightarrow> 'a webio" where
  "redis_do e f = bnd wtick (\<lambda>n w. case f (seconds (clock e n)) (w_redis w) of (r, rs) \<Rightarrow>
     (case redis_fault e n of
        None \<Rightarrow> (r, w\<lparr>w_redis := rs\<rparr>)
      | Some (m, done) \<Rightarrow> (Inl (RedisError m), if done then w\<lparr>w_redis := rs\<rparr> else w)))"

definition live_key :: "rat \<Rightarrow> redis \<Rightarrow> string \<Rightarrow> string option" where
  "live_key now rs k = (case map_of (keys rs) k of None \<Rightarrow> None
     | Some (v, expiry) \<Rightarrow> if now < expiry then Some v else None)"

definition put_key :: "string \<Rightarrow> string \<Rightarrow> rat \<Rightarrow> redis \<Rightarrow> redis" where
  "put_key k v expiry rs = rs\<lparr>keys := AList.update k (v, expiry) (keys rs)\<rparr>"

definition drop_key :: "string \<Rightarrow> redis \<Rightarrow> redis" where
  "drop_key k rs = rs\<lparr>keys := AList.delete k (keys rs)\<rparr>"

definition zset :: "redis \<Rightarrow> string \<Rightarrow> (string \<times> rat) list" where
  "zset rs k = (case map_of (zsets rs) k of None \<Rightarrow> [] | Some z \<Rightarrow> z)"

definition put_zset :: "string \<Rightarrow> (string \<times> rat) list \<Rightarrow> redis \<Rightarrow> redis" where
  "put_zset k z rs = rs\<lparr>zsets := AList.update k z (zsets rs)\<rparr>"

definition redis_get :: "web_env \<Rightarrow> string \<Rightarrow> string option webio" where
  "redis_get e k = redis_do e (\<lambda>now rs. (Inr (live_key now rs k), rs))"

definition redis_getdel :: "web_env \<Rightarrow> string \<Rightarrow> string option webio" where
  "redis_getdel e k = redis_do e (\<lambda>now rs. (Inr (live_key now rs k), drop_key k rs))"

definition redis_delete :: "web_env \<Rightarrow> string \<Rightarrow> unit webio" where
  "redis_delete e k = redis_do e (\<lambda>now rs. (Inr (), drop_key k rs))"

definition redis_exists :: "web_env \<Rightarrow> string \<Rightarrow> bool webio" where
  "redis_exists e k = redis_do e (\<lambda>now rs. (Inr (live_key now rs k \<noteq> None), rs))"

text \<open>SETEX refuses a time to live that is not positive.\<close>

definition redis_setex :: "web_env \<Rightarrow> string \<Rightarrow> int \<Rightarrow> string \<Rightarrow> unit webio" where
  "redis_setex e k ttl v = redis_do e (\<lambda>now rs.
     if ttl \<le> 0 then (Inl (RedisError ''invalid expire time in setex command''), rs)
     else (Inr (), put_key k v (now + of_int ttl) rs))"

text \<open>`SET key value NX EX ttl`: whether the key was set.\<close>

definition redis_set_nx :: "web_env \<Rightarrow> string \<Rightarrow> string \<Rightarrow> int \<Rightarrow> bool webio" where
  "redis_set_nx e k v ttl = redis_do e (\<lambda>now rs.
     if live_key now rs k \<noteq> None then (Inr False, rs) else (Inr True, put_key k v (now + of_int ttl) rs))"

definition redis_zremrangebyscore :: "web_env \<Rightarrow> string \<Rightarrow> rat \<Rightarrow> unit webio" where
  "redis_zremrangebyscore e k limit_score = redis_do e (\<lambda>_ rs.
     (Inr (), put_zset k (filter (\<lambda>(_, score). limit_score < score) (zset rs k)) rs))"

definition redis_zadd :: "web_env \<Rightarrow> string \<Rightarrow> string \<Rightarrow> rat \<Rightarrow> unit webio" where
  "redis_zadd e k member score = redis_do e (\<lambda>_ rs. (Inr (), put_zset k (AList.update member score (zset rs k)) rs))"

definition redis_zrangebyscore :: "web_env \<Rightarrow> string \<Rightarrow> rat \<Rightarrow> string list webio" where
  "redis_zrangebyscore e k bottom = redis_do e (\<lambda>_ rs.
     (Inr (map fst (sort_key snd (filter (\<lambda>(_, score). bottom \<le> score) (zset rs k)))), rs))"

definition redis_zscore :: "web_env \<Rightarrow> string \<Rightarrow> string \<Rightarrow> rat option webio" where
  "redis_zscore e k member = redis_do e (\<lambda>_ rs. (Inr (map_of (zset rs k) member), rs))"

definition redis_zrem :: "web_env \<Rightarrow> string \<Rightarrow> string \<Rightarrow> unit webio" where
  "redis_zrem e k member = redis_do e (\<lambda>_ rs. (Inr (), put_zset k (AList.delete member (zset rs k)) rs))"

text \<open>app/core/workers/enqueue.py: a broker that is down is an app-level 503.\<close>

definition enqueue :: "web_env \<Rightarrow> email_task \<Rightarrow> string \<Rightarrow> string \<Rightarrow> unit webio" where
  "enqueue e task email token = bnd wtick (\<lambda>n.
     if broker_down e n then raise (app_msg ServiceUnavailableError ''Could not send the email, please try again.'')
     else update (\<lambda>w. w\<lparr>w_queue := w_queue w @ [(task, email, token)]\<rparr>))"

section \<open>UUIDs\<close>

definition hex_char :: "nat \<Rightarrow> char" where
  "hex_char d = (if d < 10 then char_of (48 + d) else char_of (87 + d))"

fun hex_digits :: "nat \<Rightarrow> nat \<Rightarrow> string" where
  "hex_digits 0 n = []"
| "hex_digits (Suc k) n = hex_digits k (n div 16) @ [hex_char (n mod 16)]"

text \<open>`str(uuid)`\<close>

definition uuid_str :: "uuid \<Rightarrow> string" where
  "uuid_str u = (let h = hex_digits 32 (unat u) in
     take 8 h @ ''-'' @ take 4 (drop 8 h) @ ''-'' @ take 4 (drop 12 h) @ ''-'' @ take 4 (drop 16 h) @ ''-'' @ drop 20 h)"

definition hex_val :: "char \<Rightarrow> nat option" where
  "hex_val c = (let n = (of_char c :: nat) in
     if 48 \<le> n \<and> n \<le> 57 then Some (n - 48) else if 97 \<le> n \<and> n \<le> 102 then Some (n - 87)
     else if 65 \<le> n \<and> n \<le> 70 then Some (n - 55) else None)"

text \<open>
  `UUID(text)`: the prefixes `urn:` and `uuid:`, braces and dashes are dropped, 32 hexadecimal
  digits must be left.  (Python's `int(hex, 16)` also takes spaces, a sign, underscores and 0x
  among the 32 characters; such a text is refused here.)  None is a ValueError.
\<close>

fun hex_value :: "nat \<Rightarrow> string \<Rightarrow> nat option" where
  "hex_value acc [] = Some acc"
| "hex_value acc (c # cs) = (case hex_val c of None \<Rightarrow> None | Some d \<Rightarrow> hex_value (16 * acc + d) cs)"

definition strip_braces :: "string \<Rightarrow> string" where
  "strip_braces s = (let b = (\<lambda>c. c = CHR ''{'' \<or> c = CHR ''}'') in rev (dropWhile b (rev (dropWhile b s))))"

definition uuid_of :: "string \<Rightarrow> uuid option" where
  "uuid_of s = (let h = filter (\<lambda>c. c \<noteq> CHR ''-'') (strip_braces (remove_all ''uuid:'' (remove_all ''urn:'' s))) in
     if length h = 32 then map_option of_nat (hex_value 0 h) else None)"

text \<open>`UUID(value)` of a claim: only text has the methods it calls.\<close>

fun claim_uuid :: "json \<Rightarrow> uuid webio" where
  "claim_uuid (JStr s) = (case uuid_of s of None \<Rightarrow> raise (PyError ValueError) | Some u \<Rightarrow> ret u)"
| "claim_uuid _ = raise (PyError AttributeError)"

section \<open>security/utils\<close>

definition tokens_key :: "uuid \<Rightarrow> string" where
  "tokens_key u = ''user_tokens:'' @ uuid_str u"

definition revoked_key :: "string \<Rightarrow> string" where
  "revoked_key jti = ''revoked:'' @ jti"

definition track_access_token :: "web_env \<Rightarrow> uuid \<Rightarrow> string \<Rightarrow> datetime \<Rightarrow> unit webio" where
  "track_access_token e user_id jti expires_at =
     bnd (now_utc e) (\<lambda>now.
     bnd (redis_zremrangebyscore e (tokens_key user_id) (seconds now)) (\<lambda>_.
     redis_zadd e (tokens_key user_id) jti (seconds expires_at)))"

definition is_token_revoked :: "web_env \<Rightarrow> string \<Rightarrow> bool webio" where
  "is_token_revoked e jti = redis_exists e (revoked_key jti)"

text \<open>`max(int(exp - now), 0)`\<close>

definition time_to_live :: "rat \<Rightarrow> datetime \<Rightarrow> int" where
  "time_to_live expiry now = max (trunc (expiry - seconds now)) 0"

definition revoke_single_access_token :: "web_env \<Rightarrow> string \<Rightarrow> rat \<Rightarrow> uuid \<Rightarrow> unit webio" where
  "revoke_single_access_token e jti expiry user_id =
     bnd (now_utc e) (\<lambda>now.
     bnd (redis_setex e (revoked_key jti) (time_to_live expiry now) ''1'') (\<lambda>_.
     redis_zrem e (tokens_key user_id) jti))"

definition revoke_tracked :: "web_env \<Rightarrow> uuid \<Rightarrow> datetime \<Rightarrow> string \<Rightarrow> unit webio" where
  "revoke_tracked e user_id now jti =
     bnd (redis_zscore e (tokens_key user_id) jti) (\<lambda>score. case score of None \<Rightarrow> ret ()
     | Some s \<Rightarrow>
         bnd (redis_setex e (revoked_key jti) (time_to_live s now) ''1'') (\<lambda>_.
         redis_zrem e (tokens_key user_id) jti))"

definition revoke_access_to_all_tokens :: "web_env \<Rightarrow> uuid \<Rightarrow> unit webio" where
  "revoke_access_to_all_tokens e user_id =
     bnd (now_utc e) (\<lambda>now.
     bnd (redis_zremrangebyscore e (tokens_key user_id) (seconds now)) (\<lambda>_.
     bnd (redis_zrangebyscore e (tokens_key user_id) (seconds now)) (\<lambda>jtis.
     for_each (revoke_tracked e user_id now) jtis)))"

text \<open>PyJWT writes a datetime claim as whole seconds.\<close>

definition date_claim :: "datetime \<Rightarrow> json" where
  "date_claim t = JInt (t div 1000000)"

definition token_payload :: "uuid \<Rightarrow> string \<Rightarrow> string \<Rightarrow> datetime \<Rightarrow> datetime \<Rightarrow> json" where
  "token_payload user_id kind jti issued expiry = JObj [(''sub'', JStr (uuid_str user_id)), (''type'', JStr kind),
     (''jti'', JStr jti), (''iat'', date_claim issued), (''exp'', date_claim expiry)]"

definition generate_access_token :: "web_env \<Rightarrow> uuid \<Rightarrow> string webio" where
  "generate_access_token e user_id =
     bnd (now_utc e) (\<lambda>now.
     bnd wtick (\<lambda>n.
     let jti = uuid_str (new_uuid e n); expiry = now + access_token_expire_minutes e * 60000000 in
     bnd (track_access_token e user_id jti expiry) (\<lambda>_.
     ret (jwt_encode e (token_payload user_id ''access'' jti now expiry)))))"

definition generate_refresh_token :: "web_env \<Rightarrow> uuid \<Rightarrow> datetime option \<Rightarrow> string webio" where
  "generate_refresh_token e user_id expiry_time =
     bnd (now_utc e) (\<lambda>now.
     bnd wtick (\<lambda>n.
     let expiry = (case expiry_time of Some t \<Rightarrow> t | None \<Rightarrow> now + refresh_token_expire_days e * 86400000000) in
     ret (jwt_encode e (token_payload user_id ''refresh'' (uuid_str (new_uuid e n)) now expiry))))"

definition decode_token :: "web_env \<Rightarrow> string \<Rightarrow> string \<Rightarrow> json webio" where
  "decode_token e encoded expected_type =
     bnd (now_utc e) (\<lambda>now. case jwt_decode e now encoded of
       None \<Rightarrow> raise (app InvalidTokenError)
     | Some payload \<Rightarrow> if field payload ''type'' \<noteq> JStr expected_type then raise (app InvalidTokenError) else ret payload)"

definition hash_password :: "web_env \<Rightarrow> string \<Rightarrow> string webio" where
  "hash_password e password = bnd wtick (\<lambda>n. ret (hashpw e n password))"

definition check_password :: "web_env \<Rightarrow> string \<Rightarrow> string \<Rightarrow> bool" where
  "check_password e plain hashed = checkpw e plain hashed"

section \<open>UserRepository\<close>

text \<open>A new row with its primary key, defaults and creation time; a second row with the email is refused.\<close>

definition insert_user :: "user \<Rightarrow> user web_stmt" where
  "insert_user u now d = (let row = u\<lparr>usr_created_at := now\<rparr> in
     if usr_email u \<in> usr_email ` set (users d) \<or> usr_id u \<in> usr_id ` set (users d) then Inl IntegrityError
     else Inr (row, d\<lparr>users := users d @ [row]\<rparr>))"

definition create_user :: "web_env \<Rightarrow> string \<Rightarrow> string \<Rightarrow> string \<Rightarrow> user webio" where
  "create_user e email username password = bnd wtick (\<lambda>n. web_exec e (insert_user
     \<lparr>usr_id = new_uuid e n, usr_email = email, usr_username = username, usr_password = password,
      usr_is_admin = False, usr_is_verified = False, usr_created_at = 0\<rparr>))"

definition get_user_by_email :: "web_env \<Rightarrow> string \<Rightarrow> user option webio" where
  "get_user_by_email e email = web_exec e (web_query (\<lambda>d. find (\<lambda>u. usr_email u = email) (users d)))"

definition get_user_by_id :: "web_env \<Rightarrow> uuid \<Rightarrow> user option webio" where
  "get_user_by_id e i = web_exec e (web_query (\<lambda>d. find (\<lambda>u. usr_id u = i) (users d)))"

text \<open>
  `column ILIKE pattern`: percent stands for any text, underscore for one character, a backslash takes the
  next character as it is; case is ignored.
\<close>

fun like :: "string \<Rightarrow> string \<Rightarrow> bool" where
  "like [] s = (s = [])"
| "like (p # ps) [] = (p = CHR ''%'' \<and> like ps [])"
| "like (p # ps) (c # cs) =
     (if p = CHR ''%'' then like ps (c # cs) \<or> like (p # ps) cs
      else if p = CHR ''_'' then like ps cs
      else if p = CHR 0x5C then (case ps of [] \<Rightarrow> False | q # qs \<Rightarrow> q = c \<and> like qs cs)
      else p = c \<and> like ps cs)"

definition ilike_prefix :: "string \<Rightarrow> string \<Rightarrow> bool" where
  "ilike_prefix prefix text = like (lower (prefix @ ''%'')) (lower text)"

record user_filter =
  f_username :: "string option"
  f_email :: "string option"
  f_is_admin :: "bool option"
  f_created_after :: "datetime option"
  f_created_before :: "datetime option"

definition accepts :: "('a \<Rightarrow> bool) \<Rightarrow> 'a option \<Rightarrow> bool" where
  "accepts P x = (case x of None \<Rightarrow> True | Some v \<Rightarrow> P v)"

definition user_matches :: "user_filter \<Rightarrow> user \<Rightarrow> bool" where
  "user_matches f u \<longleftrightarrow> accepts (\<lambda>p. ilike_prefix p (usr_username u)) (f_username f)
     \<and> accepts (\<lambda>p. ilike_prefix p (usr_email u)) (f_email f) \<and> accepts (\<lambda>b. usr_is_admin u = b) (f_is_admin f)
     \<and> accepts (\<lambda>t. t \<le> usr_created_at u) (f_created_after f) \<and> accepts (\<lambda>t. usr_created_at u \<le> t) (f_created_before f)"

text \<open>The database refuses a negative limit or offset.\<close>

definition get_users :: "web_env \<Rightarrow> int \<Rightarrow> int \<Rightarrow> user_filter \<Rightarrow> bool \<Rightarrow> user list webio" where
  "get_users e limit offset f by_name = web_exec e (\<lambda>_ d.
     if limit < 0 \<or> offset < 0 then Inl (DBAPIError ''InvalidRowCountInLimitClauseError'')
     else let found = filter (user_matches f) (users d);
         ordered = (if by_name then sort_key (collation e \<circ> usr_username) found else sort_key usr_created_at found)
       in Inr (take (nat limit) (drop (nat offset) ordered), d))"

definition count_users :: "web_env \<Rightarrow> user_filter \<Rightarrow> nat webio" where
  "count_users e f = web_exec e (web_query (\<lambda>d. length (filter (user_matches f) (users d))))"

text \<open>
  The flush of a changed row: an UPDATE, which must find the row and keeps emails unique and users
  present.
\<close>

definition stale :: web_exn where
  "stale = PyError (LibraryError ''StaleDataError'')"

definition store_user :: "user \<Rightarrow> user web_stmt" where
  "store_user u _ d =
     (if usr_id u \<notin> usr_id ` set (users d) then Inl stale
      else if \<exists>v\<in>set (users d). usr_id v \<noteq> usr_id u \<and> usr_email v = usr_email u then Inl IntegrityError
      else Inr (u, d\<lparr>users := map (\<lambda>v. if usr_id v = usr_id u then u else v) (users d)\<rparr>))"

definition update_user :: "web_env \<Rightarrow> user \<Rightarrow> user webio" where
  "update_user e u = web_exec e (store_user u)"

text \<open>Deleting a user deletes its refresh tokens with it (ON DELETE CASCADE).\<close>

definition remove_user :: "uuid \<Rightarrow> unit web_stmt" where
  "remove_user i _ d = Inr ((), d\<lparr>users := filter (\<lambda>v. usr_id v \<noteq> i) (users d),
     refresh_tokens := filter (\<lambda>t. rt_user_id t \<noteq> i) (refresh_tokens d)\<rparr>)"

definition delete_user :: "web_env \<Rightarrow> user \<Rightarrow> unit webio" where
  "delete_user e u = web_exec e (remove_user (usr_id u))"

section \<open>RefreshTokenRepository\<close>

definition insert_token :: "refresh_token \<Rightarrow> refresh_token web_stmt" where
  "insert_token t now d = (let row = t\<lparr>rt_created_at := now\<rparr> in
     if rt_jti t \<in> rt_jti ` set (refresh_tokens d) \<or> rt_user_id t \<notin> usr_id ` set (users d) then Inl IntegrityError
     else Inr (row, d\<lparr>refresh_tokens := refresh_tokens d @ [row]\<rparr>))"

definition create_refresh_token :: "web_env \<Rightarrow> uuid \<Rightarrow> uuid \<Rightarrow> datetime \<Rightarrow> refresh_token webio" where
  "create_refresh_token e jti user_id expires_at = web_exec e (insert_token
     \<lparr>rt_jti = jti, rt_user_id = user_id, rt_revoke = False, rt_revoked_at = None, rt_expires_at = expires_at,
      rt_created_at = 0\<rparr>)"

definition store_token :: "refresh_token \<Rightarrow> refresh_token web_stmt" where
  "store_token t _ d =
     (if rt_jti t \<notin> rt_jti ` set (refresh_tokens d) then Inl stale
      else if rt_user_id t \<notin> usr_id ` set (users d) then Inl IntegrityError
      else Inr (t, d\<lparr>refresh_tokens := map (\<lambda>v. if rt_jti v = rt_jti t then t else v) (refresh_tokens d)\<rparr>))"

definition update_refresh_token :: "web_env \<Rightarrow> refresh_token \<Rightarrow> refresh_token webio" where
  "update_refresh_token e t = web_exec e (store_token t)"

text \<open>UPDATE ... SET revoke, revoked_at WHERE ... AND revoke IS false, with its row count.\<close>

definition revoke_where :: "(refresh_token \<Rightarrow> bool) \<Rightarrow> datetime \<Rightarrow> nat web_stmt" where
  "revoke_where P at_time _ d = (let hit = (\<lambda>t. P t \<and> \<not> rt_revoke t) in
     Inr (length (filter hit (refresh_tokens d)), d\<lparr>refresh_tokens :=
       map (\<lambda>t. if hit t then t\<lparr>rt_revoke := True, rt_revoked_at := Some at_time\<rparr> else t) (refresh_tokens d)\<rparr>))"

definition revoke_refresh_token :: "web_env \<Rightarrow> uuid \<Rightarrow> nat webio" where
  "revoke_refresh_token e jti = bnd (now_utc e) (\<lambda>now. web_exec e (revoke_where (\<lambda>t. rt_jti t = jti) now))"

definition update_refresh_token_to_revoke :: "web_env \<Rightarrow> uuid \<Rightarrow> nat webio" where
  "update_refresh_token_to_revoke e user_id =
     bnd (now_utc e) (\<lambda>now. web_exec e (revoke_where (\<lambda>t. rt_user_id t = user_id) now))"

definition remove_tokens :: "(refresh_token \<Rightarrow> bool) \<Rightarrow> nat web_stmt" where
  "remove_tokens P _ d = Inr (length (filter P (refresh_tokens d)),
     d\<lparr>refresh_tokens := filter (\<lambda>t. \<not> P t) (refresh_tokens d)\<rparr>)"

definition delete_refresh_token :: "web_env \<Rightarrow> refresh_token \<Rightarrow> unit webio" where
  "delete_refresh_token e t = bnd (web_exec e (remove_tokens (\<lambda>v. rt_jti v = rt_jti t))) (\<lambda>_. ret ())"

definition delete_all_refresh_tokens_for_user :: "web_env \<Rightarrow> uuid \<Rightarrow> unit webio" where
  "delete_all_refresh_tokens_for_user e user_id =
     bnd (web_exec e (remove_tokens (\<lambda>t. rt_user_id t = user_id))) (\<lambda>_. ret ())"

definition get_refresh_token_by_jti :: "web_env \<Rightarrow> uuid \<Rightarrow> refresh_token option webio" where
  "get_refresh_token_by_jti e jti = web_exec e (web_query (\<lambda>d. find (\<lambda>t. rt_jti t = jti) (refresh_tokens d)))"

text \<open>
  The same call with the claim itself: the driver encodes a text as a UUID and refuses any other
  value and any other text.
\<close>

fun get_refresh_token_by_claim :: "web_env \<Rightarrow> json \<Rightarrow> refresh_token option webio" where
  "get_refresh_token_by_claim e (JStr s) = (case uuid_of s of
       None \<Rightarrow> web_exec e (\<lambda>_ _. Inl (DBAPIError ''DataError''))
     | Some jti \<Rightarrow> get_refresh_token_by_jti e jti)"
| "get_refresh_token_by_claim e _ = web_exec e (\<lambda>_ _. Inl (DBAPIError ''DataError''))"

definition get_refresh_token_by_user_id :: "web_env \<Rightarrow> uuid \<Rightarrow> refresh_token list webio" where
  "get_refresh_token_by_user_id e user_id =
     web_exec e (web_query (\<lambda>d. filter (\<lambda>t. rt_user_id t = user_id) (refresh_tokens d)))"

definition cleanup_expired_refresh_tokens :: "web_env \<Rightarrow> nat webio" where
  "cleanup_expired_refresh_tokens e = bnd (now_utc e) (\<lambda>now. web_exec e (remove_tokens (\<lambda>t. rt_expires_at t < now)))"

end
