(* ===== verification/Auth_Service.thy ===== *)
theory Auth_Service
  imports Web_Model
begin

text \<open>
  app/security/service.py, the sessions: refresh with rotation and reuse detection, login, logout and
  logout of all sessions; the dependencies of app/core/deps.py that let a request in; and the cleanup
  task of app/security/tasks/tasks.py.

  A token's payload is what PyJWT decoded, so its claims can be any JSON value; a claim of the wrong
  kind raises what Python raises for it.
\<close>

section \<open>Claims\<close>

text \<open>`payload[key]`\<close>

fun subscript :: "json \<Rightarrow> string \<Rightarrow> json webio" where
  "subscript (JObj kvs) k = (case map_of kvs k of None \<Rightarrow> raise (PyError KeyError) | Some v \<Rightarrow> ret v)"
| "subscript _ k = raise (PyError TypeError)"

text \<open>
  `datetime.fromtimestamp(value, tz=UTC)`, rounded to microseconds; the years 1 to 9999 only.
\<close>

definition of_seconds :: "rat \<Rightarrow> datetime webio" where
  "of_seconds s = (if s < -62135596800 \<or> 253402300800 \<le> s then raise (PyError ValueError) else ret (py_round (s * 1000000)))"

fun from_timestamp :: "json \<Rightarrow> datetime webio" where
  "from_timestamp (JInt i) = of_seconds (of_int i)"
| "from_timestamp (JBool b) = of_seconds (if b then 1 else 0)"
| "from_timestamp (JFloat (FNum q)) = of_seconds q"
| "from_timestamp (JFloat FNaN) = raise (PyError ValueError)"
| "from_timestamp (JFloat (FInf _)) = raise (PyError OverflowError)"
| "from_timestamp _ = raise (PyError TypeError)"

text \<open>The operand of `exp - now`; an integer from this limit on has no float.\<close>

definition float_limit :: int where "float_limit = 2 ^ 1024 - 2 ^ 970"

fun claim_number :: "json \<Rightarrow> rat webio" where
  "claim_number (JInt i) = (if float_limit \<le> \<bar>i\<bar> then raise (PyError OverflowError) else ret (of_int i))"
| "claim_number (JBool b) = ret (if b then 1 else 0)"
| "claim_number (JFloat (FNum q)) = ret q"
| "claim_number (JFloat FNaN) = raise (PyError ValueError)"
| "claim_number (JFloat (FInf _)) = raise (PyError OverflowError)"
| "claim_number _ = raise (PyError TypeError)"

text \<open>
  `str(value)` in a Redis key.  The text of a float, list or dict is not needed: no token carries
  one here, and it stands for itself as the empty text.
\<close>

fun claim_text :: "json \<Rightarrow> string" where
  "claim_text (JStr s) = s"
| "claim_text (JInt i) = str_int i"
| "claim_text (JBool b) = (if b then ''True'' else ''False'')"
| "claim_text JNull = ''None''"
| "claim_text _ = []"

section \<open>The refresh\<close>

record token_pair =
  refresh_token_of :: string
  access_token_of :: string

definition session_invalid :: web_exn where
  "session_invalid = app_msg AuthenticationError ''Session invalid, please login again.''"

definition just_rotated :: web_exn where
  "just_rotated = app_msg AuthenticationError ''Token was just rotated, retry with the latest cookie.''"

text \<open>
  `RefreshToken(...)` from a decoded token and its insertion: the driver takes the jti as text and
  encodes it as a UUID.
\<close>

fun insert_claimed :: "web_env \<Rightarrow> json \<Rightarrow> uuid \<Rightarrow> datetime \<Rightarrow> refresh_token webio" where
  "insert_claimed e (JStr s) user_id expires_at = (case uuid_of s of
       None \<Rightarrow> web_exec e (\<lambda>_ _. Inl (DBAPIError ''DataError''))
     | Some jti \<Rightarrow> create_refresh_token e jti user_id expires_at)"
| "insert_claimed e _ user_id expires_at = web_exec e (\<lambda>_ _. Inl (DBAPIError ''DataError''))"

definition save_refresh_token :: "web_env \<Rightarrow> json \<Rightarrow> refresh_token webio" where
  "save_refresh_token e decoded =
     bnd (subscript decoded ''exp'') (\<lambda>expiry.
     bnd (from_timestamp expiry) (\<lambda>expires_at.
     bnd (subscript decoded ''jti'') (\<lambda>jti.
     bnd (subscript decoded ''sub'') (\<lambda>sub.
     bnd (claim_uuid sub) (\<lambda>user_id.
     insert_claimed e jti user_id expires_at)))))"

definition issue_tokens :: "web_env \<Rightarrow> uuid \<Rightarrow> datetime option \<Rightarrow> token_pair webio" where
  "issue_tokens e user_id expiry =
     bnd (generate_refresh_token e user_id expiry) (\<lambda>new_refresh_token.
     bnd (decode_token e new_refresh_token ''refresh'') (\<lambda>decoded.
     bnd (save_refresh_token e decoded) (\<lambda>_.
     bnd (generate_access_token e user_id) (\<lambda>access_token.
     ret \<lparr>refresh_token_of = new_refresh_token, access_token_of = access_token\<rparr>))))"

text \<open>`datetime.now(UTC) - fresh.revoked_at <= grace`, for a token that has a `revoked_at`.\<close>

definition within_grace :: "web_env \<Rightarrow> refresh_token option \<Rightarrow> bool webio" where
  "within_grace e fresh = (case fresh of None \<Rightarrow> ret False
     | Some t \<Rightarrow> (case rt_revoked_at t of None \<Rightarrow> ret False
         | Some at_time \<Rightarrow> bnd (now_utc e) (\<lambda>now. ret (now - at_time \<le> refresh_grace_seconds e * 1000000))))"

text \<open>A token that was revoked before: its whole family of sessions ends.\<close>

definition end_all_sessions :: "web_env \<Rightarrow> json \<Rightarrow> unit webio" where
  "end_all_sessions e sub =
     bnd (claim_uuid sub) (\<lambda>user_id.
     bnd (delete_all_refresh_tokens_for_user e user_id) (\<lambda>_.
     bnd (web_commit e) (\<lambda>_.
     handle (bnd (claim_uuid sub) (revoke_access_to_all_tokens e))
       (\<lambda>x. if is_redis_error x then ret () else raise x))))"

definition refresh_refused :: "web_env \<Rightarrow> uuid \<Rightarrow> json \<Rightarrow> token_pair webio" where
  "refresh_refused e jti sub =
     bnd (get_refresh_token_by_jti e jti) (\<lambda>fresh.
     bnd (within_grace e fresh) (\<lambda>superseded.
     if superseded then raise just_rotated
     else bnd (end_all_sessions e sub) (\<lambda>_. raise session_invalid)))"

definition refresh_rotated :: "web_env \<Rightarrow> refresh_token \<Rightarrow> json \<Rightarrow> token_pair webio" where
  "refresh_rotated e row expiry =
     bnd (from_timestamp expiry) (\<lambda>original_expiry. issue_tokens e (rt_user_id row) (Some original_expiry))"

definition refresh_access_token_service :: "web_env \<Rightarrow> string \<Rightarrow> token_pair webio" where
  "refresh_access_token_service e token =
     bnd (decode_token e token ''refresh'') (\<lambda>payload.
     let jti = field payload ''jti''; sub = field payload ''sub''; expiry = field payload ''exp'' in
     if jti = JNull \<or> sub = JNull \<or> expiry = JNull then raise (app InvalidTokenError)
     else
       bnd (claim_uuid jti) (\<lambda>j.
       bnd (get_refresh_token_by_jti e j) (\<lambda>found. case found of
         None \<Rightarrow> raise session_invalid
       | Some row \<Rightarrow>
           bnd (revoke_refresh_token e j) (\<lambda>row_count.
           if row_count \<noteq> 1 then refresh_refused e j sub else refresh_rotated e row expiry))))"

section \<open>Login\<close>

text \<open>The cookie a login came with: a session that is still open refuses a second one.\<close>

definition already_logged_in :: "web_env \<Rightarrow> string option \<Rightarrow> unit webio" where
  "already_logged_in e cookie = (case cookie of None \<Rightarrow> ret ()
     | Some token \<Rightarrow> handle
         (bnd (decode_token e token ''refresh'') (\<lambda>decoded.
          let jti = field decoded ''jti''; sub = field decoded ''sub'' in
          if jti = JNull \<or> sub = JNull then raise (app InvalidTokenError)
          else bnd (get_refresh_token_by_claim e jti) (\<lambda>current.
            case current of None \<Rightarrow> ret ()
            | Some t \<Rightarrow> if rt_revoke t then ret ()
                else raise (app_msg AlreadyLoggedInError ''User is already logged in. Please logout first.''))))
         (\<lambda>x. if is_invalid_token x then ret () else raise x))"

definition login_service :: "web_env \<Rightarrow> string \<Rightarrow> string \<Rightarrow> string option \<Rightarrow> token_pair webio" where
  "login_service e email password cookie =
     bnd (already_logged_in e cookie) (\<lambda>_.
     bnd (get_user_by_email e email) (\<lambda>found. case found of
       None \<Rightarrow> raise (app_msg AuthenticationError ''Incorrect password and username'')
     | Some u \<Rightarrow>
         if \<not> check_password e password (usr_password u)
         then raise (app_msg AuthenticationError ''Incorrect password and username'')
         else if \<not> usr_is_verified u
         then raise (app_msg AuthenticationError
                ''Email is not verified. Please verify your email before logging in.'')
         else issue_tokens e (usr_id u) None))"

section \<open>Logout\<close>

text \<open>`InvalidTokenError` and `RedisError` do not keep a logout from going on.\<close>

definition revoke_presented :: "web_env \<Rightarrow> string option \<Rightarrow> unit webio" where
  "revoke_presented e access_token = (case access_token of None \<Rightarrow> ret ()
     | Some token \<Rightarrow> handle
         (bnd (decode_token e token ''access'') (\<lambda>verified.
          let jti = field verified ''jti''; expiry = field verified ''exp''; sub = field verified ''sub'' in
          if jti = JNull \<or> expiry = JNull \<or> sub = JNull then ret ()
          else bnd (claim_uuid sub) (\<lambda>user_id.
               bnd (claim_number expiry) (\<lambda>at_time.
               revoke_single_access_token e (claim_text jti) at_time user_id))))
         (\<lambda>x. if is_invalid_token x \<or> is_redis_error x then ret () else raise x))"

text \<open>`decode_token` with `except InvalidTokenError: return False`.\<close>

definition usable_token :: "web_env \<Rightarrow> string \<Rightarrow> json option webio" where
  "usable_token e token = handle (bnd (decode_token e token ''refresh'') (\<lambda>p. ret (Some p)))
     (\<lambda>x. if is_invalid_token x then ret None else raise x)"

text \<open>The row of a refresh token that is still open, with the claim it names the user by.\<close>

definition open_session :: "web_env \<Rightarrow> string option \<Rightarrow> (json \<times> refresh_token) option webio" where
  "open_session e cookie = (case cookie of None \<Rightarrow> ret None
     | Some token \<Rightarrow>
         bnd (usable_token e token) (\<lambda>verified. case verified of None \<Rightarrow> ret None
         | Some payload \<Rightarrow>
             let sub = field payload ''sub''; jti = field payload ''jti'' in
             if sub = JNull \<or> jti = JNull then ret None
             else bnd (get_refresh_token_by_claim e jti) (\<lambda>current. case current of None \<Rightarrow> ret None
               | Some t \<Rightarrow> if rt_revoke t then ret None else ret (Some (sub, t)))))"

definition logout_service :: "web_env \<Rightarrow> string option \<Rightarrow> string option \<Rightarrow> bool webio" where
  "logout_service e refresh_token access_token =
     bnd (revoke_presented e access_token) (\<lambda>_.
     bnd (open_session e refresh_token) (\<lambda>found. case found of None \<Rightarrow> ret False
     | Some (sub, t) \<Rightarrow> bnd (update_refresh_token e (t\<lparr>rt_revoke := True\<rparr>)) (\<lambda>_. ret True)))"

definition logout_all_accounts :: "web_env \<Rightarrow> string option \<Rightarrow> bool webio" where
  "logout_all_accounts e refresh_token =
     bnd (open_session e refresh_token) (\<lambda>found. case found of None \<Rightarrow> ret False
     | Some (sub, t) \<Rightarrow>
         bnd (claim_uuid sub) (\<lambda>user_id.
         bnd (get_user_by_id e user_id) (\<lambda>u. case u of None \<Rightarrow> ret False
         | Some u \<Rightarrow>
             bnd (update_refresh_token_to_revoke e (usr_id u)) (\<lambda>_.
             bnd (revoke_access_to_all_tokens e user_id) (\<lambda>_. ret True)))))"

section \<open>Who may call\<close>

text \<open>
  app/core/deps.py.  An empty payload is refused as well; a payload that has passed the test of its
  type is never empty.
\<close>

definition authenticated :: "web_env \<Rightarrow> string \<Rightarrow> json webio" where
  "authenticated e credentials =
     bnd (decode_token e credentials ''access'') (\<lambda>payload.
     if \<not> truthy payload then raise (app AuthenticationError)
     else bnd (is_token_revoked e (claim_text (field payload ''jti''))) (\<lambda>is_revoked.
       if is_revoked then raise (app AuthenticationError) else ret (field payload ''sub'')))"

definition require_admin :: "web_env \<Rightarrow> string \<Rightarrow> user webio" where
  "require_admin e credentials =
     bnd (authenticated e credentials) (\<lambda>sub.
     bnd (claim_uuid sub) (\<lambda>user_id.
     bnd (get_user_by_id e user_id) (\<lambda>found. case found of
       None \<Rightarrow> raise (app_msg ForbiddenError ''Admin access required'')
     | Some u \<Rightarrow> if usr_is_admin u then ret u else raise (app_msg ForbiddenError ''Admin access required''))))"

definition get_current_user :: "web_env \<Rightarrow> string \<Rightarrow> user webio" where
  "get_current_user e credentials =
     bnd (authenticated e credentials) (\<lambda>sub.
     bnd (claim_uuid sub) (\<lambda>user_id.
     bnd (get_user_by_id e user_id) (\<lambda>found. case found of
       None \<Rightarrow> raise (app AuthenticationError)
     | Some u \<Rightarrow> ret u)))"

section \<open>The cleanup task\<close>

text \<open>
  A run on a session of its own, which is closed (and so rolled back) at the end.
\<close>

definition refresh_token_scheduler :: "web_env \<Rightarrow> unit webio" where
  "refresh_token_scheduler e =
     (\<lambda>w. case bnd (cleanup_expired_refresh_tokens e) (\<lambda>_. web_commit e) w of
        (r, w') \<Rightarrow> (r, w'\<lparr>w_db := sess_rollback (w_db w')\<rparr>))"

end
