(* ===== verification/User_Service.thy ===== *)
theory User_Service
  imports Web_Model
begin

text \<open>
  app/users/service.py: accounts, the emails that confirm an address or reset a password, and the
  operations of an administrator.  Log lines are left out.
\<close>

section \<open>Responses\<close>

record user_response =
  ur_id :: uuid
  ur_email :: string
  ur_username :: string
  ur_is_verified :: bool
  ur_is_admin :: bool
  ur_created_at :: datetime

text \<open>The pattern `^[a-zA-Z0-9_-]+$` with 3 to 30 characters, of every username field.\<close>

definition username_char :: "char \<Rightarrow> bool" where
  "username_char c = (let n = (of_char c :: nat) in
     (97 \<le> n \<and> n \<le> 122) \<or> (65 \<le> n \<and> n \<le> 90) \<or> (48 \<le> n \<and> n \<le> 57) \<or> n = 95 \<or> n = 45)"

definition valid_username :: "string \<Rightarrow> bool" where
  "valid_username s = (3 \<le> length s \<and> length s \<le> 30 \<and> list_all username_char s)"

definition valid_email :: "web_env \<Rightarrow> string \<Rightarrow> string option" where
  "valid_email e s = (case validate_email e s of None \<Rightarrow> None
     | Some address \<Rightarrow> if length address \<le> 255 then Some address else None)"

text \<open>`UserResponseSchema.model_validate(user)`, which checks the stored row again.\<close>

definition user_response_of :: "web_env \<Rightarrow> user \<Rightarrow> user_response webio" where
  "user_response_of e u = (case valid_email e (usr_email u) of
       None \<Rightarrow> raise (PyError (LibraryError ''ValidationError''))
     | Some address \<Rightarrow>
         if \<not> valid_username (usr_username u) then raise (PyError (LibraryError ''ValidationError''))
         else ret \<lparr>ur_id = usr_id u, ur_email = address, ur_username = usr_username u,
                   ur_is_verified = usr_is_verified u, ur_is_admin = usr_is_admin u,
                   ur_created_at = usr_created_at u\<rparr>)"

section \<open>Emailed tokens\<close>

text \<open>The Redis keys of a token and of the user's current token.\<close>

fun token_key :: "email_task \<Rightarrow> string \<Rightarrow> string" where
  "token_key SendVerification token = ''email_verification:'' @ token"
| "token_key SendPasswordReset token = ''password_reset:'' @ token"

fun owner_key :: "email_task \<Rightarrow> uuid \<Rightarrow> string" where
  "owner_key SendVerification i = ''email_verification_user:'' @ uuid_str i"
| "owner_key SendPasswordReset i = ''password_reset_user:'' @ uuid_str i"

fun cooldown_key :: "email_task \<Rightarrow> uuid \<Rightarrow> string" where
  "cooldown_key SendVerification i = ''resend_cooldown:'' @ uuid_str i"
| "cooldown_key SendPasswordReset i = ''forgot_password_cooldown:'' @ uuid_str i"

definition token_ttl :: int where "token_ttl = 900"
definition cooldown_ttl :: int where "cooldown_ttl = 300"

definition store_and_send :: "web_env \<Rightarrow> email_task \<Rightarrow> user \<Rightarrow> string \<Rightarrow> unit webio" where
  "store_and_send e task u token =
     bnd (redis_setex e (token_key task token) token_ttl (uuid_str (usr_id u))) (\<lambda>_.
     bnd (redis_setex e (owner_key task (usr_id u)) token_ttl token) (\<lambda>_.
     enqueue e task (usr_email u) token))"

definition token_urlsafe :: "web_env \<Rightarrow> string webio" where
  "token_urlsafe e = bnd wtick (\<lambda>n. ret (new_secret e n))"

text \<open>The token sent before is taken back.\<close>

definition drop_previous :: "web_env \<Rightarrow> email_task \<Rightarrow> uuid \<Rightarrow> unit webio" where
  "drop_previous e task i =
     bnd (redis_get e (owner_key task i)) (\<lambda>previous. case previous of None \<Rightarrow> ret ()
     | Some token \<Rightarrow> if token = [] then ret () else redis_delete e (token_key task token))"

definition send_new_token :: "web_env \<Rightarrow> email_task \<Rightarrow> user \<Rightarrow> unit webio" where
  "send_new_token e task u =
     bnd (drop_previous e task (usr_id u)) (\<lambda>_.
     bnd (token_urlsafe e) (store_and_send e task u))"

definition fail_email_request :: "web_env \<Rightarrow> string \<Rightarrow> unit webio" where
  "fail_email_request e cooldown =
     bnd (handle (redis_delete e cooldown)
       (\<lambda>x. if is_redis_error x
            then raise (app_msg ServiceUnavailableError ''Could not send the email. Please wait 5 minutes and try again.'')
            else raise x)) (\<lambda>_.
     raise (app_msg ServiceUnavailableError ''Could not send the email, please try again.''))"

section \<open>Signup and verification\<close>

definition or_email_taken :: "'a webio \<Rightarrow> 'a webio" where
  "or_email_taken m = handle m (\<lambda>x. if is_integrity_error x then raise (app UserAlreadyExistsError) else raise x)"

definition not_sent_text :: string where
  "not_sent_text = ''Your account was created, but we could not send the verification email. '' @
     ''Please request a new verification email in a few minutes.''"

definition create_user_service :: "web_env \<Rightarrow> string \<Rightarrow> string \<Rightarrow> string \<Rightarrow> user_response webio" where
  "create_user_service e email username password =
     bnd (get_user_by_email e email) (\<lambda>exists. if exists \<noteq> None then raise (app UserAlreadyExistsError) else
     bnd (hash_password e password) (\<lambda>hashed.
     bnd (token_urlsafe e) (\<lambda>token.
     bnd (or_email_taken (create_user e email username hashed)) (\<lambda>u.
     bnd (web_commit e) (\<lambda>_.
     bnd (handle (store_and_send e SendVerification u token)
       (\<lambda>x. if is_redis_error x \<or> is_unavailable x then raise (app_msg ServiceUnavailableError not_sent_text)
            else raise x)) (\<lambda>_.
     user_response_of e u))))))"

text \<open>The user an emailed token was sent to; the token is used up.\<close>

definition redeem :: "web_env \<Rightarrow> email_task \<Rightarrow> string \<Rightarrow> user webio" where
  "redeem e task token =
     bnd (redis_getdel e (token_key task token)) (\<lambda>found. case found of
       None \<Rightarrow> raise (app ResourceDoesNotExistError)
     | Some s \<Rightarrow> if s = [] then raise (app ResourceDoesNotExistError) else
         bnd (claim_uuid (JStr s)) (\<lambda>user_id.
         bnd (get_user_by_id e user_id) (\<lambda>u. case u of
           None \<Rightarrow> raise (app ResourceDoesNotExistError)
         | Some u \<Rightarrow> ret u)))"

definition verify_user_email_service :: "web_env \<Rightarrow> string \<Rightarrow> string webio" where
  "verify_user_email_service e token =
     bnd (redeem e SendVerification token) (\<lambda>u.
     bnd (update_user e (u\<lparr>usr_is_verified := True\<rparr>)) (\<lambda>_.
     bnd (redis_delete e (owner_key SendVerification (usr_id u))) (\<lambda>_.
     ret ''Email verified successfully.'')))"

text \<open>
  One email in five minutes: SET NX takes the cooldown, and a request that could not send it gives
  it back.
\<close>

definition email_on_cooldown :: "web_env \<Rightarrow> email_task \<Rightarrow> user \<Rightarrow> string \<Rightarrow> unit webio" where
  "email_on_cooldown e task u refusal =
     bnd (redis_set_nx e (cooldown_key task (usr_id u)) ''1'' cooldown_ttl) (\<lambda>acquired.
     if \<not> acquired then raise (app_msg TooManyRequestsError refusal)
     else handle (send_new_token e task u)
       (\<lambda>x. if is_redis_error x \<or> is_unavailable x then fail_email_request e (cooldown_key task (usr_id u))
            else raise x))"

definition verification_sent :: string where
  "verification_sent = ''If the email exists, a verification email has been sent. Please check your inbox.''"

definition reset_sent :: string where
  "reset_sent = ''If the email exists, a password reset email has been sent. Please check your inbox.''"

definition resend_email_verification_service :: "web_env \<Rightarrow> string \<Rightarrow> string webio" where
  "resend_email_verification_service e email =
     bnd (get_user_by_email e email) (\<lambda>found. case found of None \<Rightarrow> ret verification_sent
     | Some u \<Rightarrow> if usr_is_verified u then ret verification_sent else
         bnd (email_on_cooldown e SendVerification u
               ''Please wait before requesting another verification email.'') (\<lambda>_.
         ret verification_sent))"

definition forgot_password_service :: "web_env \<Rightarrow> string \<Rightarrow> string webio" where
  "forgot_password_service e email =
     bnd (get_user_by_email e email) (\<lambda>found. case found of None \<Rightarrow> ret reset_sent
     | Some u \<Rightarrow>
         bnd (email_on_cooldown e SendPasswordReset u
               ''Please wait before requesting another password reset email.'') (\<lambda>_.
         ret reset_sent))"

section \<open>Passwords\<close>

text \<open>The new password, and the end of every session.\<close>

definition set_password :: "web_env \<Rightarrow> user \<Rightarrow> string \<Rightarrow> unit webio" where
  "set_password e u new_password =
     bnd (hash_password e new_password) (\<lambda>hashed.
     bnd (update_user e (u\<lparr>usr_password := hashed\<rparr>)) (\<lambda>_. ret ()))"

definition end_sessions :: "web_env \<Rightarrow> uuid \<Rightarrow> unit webio" where
  "end_sessions e user_id =
     bnd (delete_all_refresh_tokens_for_user e user_id) (\<lambda>_. revoke_access_to_all_tokens e user_id)"

definition reset_password_service_via_email :: "web_env \<Rightarrow> string \<Rightarrow> string \<Rightarrow> string webio" where
  "reset_password_service_via_email e token new_password =
     bnd (redeem e SendPasswordReset token) (\<lambda>u.
     bnd (set_password e u new_password) (\<lambda>_.
     bnd (redis_delete e (owner_key SendPasswordReset (usr_id u))) (\<lambda>_.
     bnd (end_sessions e (usr_id u)) (\<lambda>_.
     ret ''Password reset successfully.''))))"

definition found_user :: "web_env \<Rightarrow> uuid \<Rightarrow> web_exn \<Rightarrow> user webio" where
  "found_user e user_id missing =
     bnd (get_user_by_id e user_id) (\<lambda>found. case found of None \<Rightarrow> raise missing | Some u \<Rightarrow> ret u)"

definition update_user_password_service :: "web_env \<Rightarrow> uuid \<Rightarrow> string \<Rightarrow> string \<Rightarrow> string webio" where
  "update_user_password_service e user_id new_password old_password =
     bnd (found_user e user_id (app ResourceDoesNotExistError)) (\<lambda>u.
     if \<not> check_password e old_password (usr_password u)
     then raise (app_msg AuthenticationError ''The old password is incorrect.'')
     else
       bnd (set_password e u new_password) (\<lambda>_.
       bnd (end_sessions e user_id) (\<lambda>_.
       ret ''Password updated successfully.'')))"

section \<open>Changes of an account\<close>

text \<open>
  A new address has to be verified again.  The change is committed before anything of the old
  address is taken back.
\<close>

definition change_email :: "web_env \<Rightarrow> user \<Rightarrow> string \<Rightarrow> user webio" where
  "change_email e u new_email =
     bnd (get_user_by_email e new_email) (\<lambda>existing. if existing \<noteq> None then raise (app UserAlreadyExistsError) else
     bnd (or_email_taken (update_user e (u\<lparr>usr_email := new_email, usr_is_verified := False\<rparr>))) (\<lambda>changed.
     bnd (delete_all_refresh_tokens_for_user e (usr_id u)) (\<lambda>_.
     bnd (web_commit e) (\<lambda>_.
     bnd (revoke_access_to_all_tokens e (usr_id u)) (\<lambda>_.
     bnd (send_new_token e SendVerification changed) (\<lambda>_.
     ret changed))))))"

definition update_email_service :: "web_env \<Rightarrow> uuid \<Rightarrow> string \<Rightarrow> string webio" where
  "update_email_service e user_id new_email =
     bnd (found_user e user_id (app ResourceDoesNotExistError)) (\<lambda>u.
     if usr_email u = new_email then ret ''This is already your current email address.''
     else bnd (change_email e u new_email) (\<lambda>_.
       ret ''Your email has been updated. Please check your inbox to verify your new email.''))"

definition update_user_fields_service :: "web_env \<Rightarrow> string option \<Rightarrow> uuid \<Rightarrow> user_response webio" where
  "update_user_fields_service e username user_id =
     bnd (found_user e user_id (app ResourceDoesNotExistError)) (\<lambda>u.
     bnd (update_user e (case username of None \<Rightarrow> u | Some n \<Rightarrow> u\<lparr>usr_username := n\<rparr>)) (user_response_of e))"

text \<open>Access tokens first: without Redis nothing is deleted.\<close>

definition delete_user_and_sessions :: "web_env \<Rightarrow> user \<Rightarrow> unit webio" where
  "delete_user_and_sessions e u =
     bnd (revoke_access_to_all_tokens e (usr_id u)) (\<lambda>_.
     bnd (delete_all_refresh_tokens_for_user e (usr_id u)) (\<lambda>_.
     delete_user e u))"

definition delete_current_user_service :: "web_env \<Rightarrow> uuid \<Rightarrow> string webio" where
  "delete_current_user_service e user_id =
     bnd (found_user e user_id (app ResourceDoesNotExistError)) (\<lambda>u.
     if usr_is_admin u then raise (app_msg ForbiddenError ''Admins cannot delete their own account.'')
     else bnd (delete_user_and_sessions e u) (\<lambda>_. ret ''User deleted successfully.''))"

definition get_user_by_id_service :: "web_env \<Rightarrow> uuid \<Rightarrow> user_response webio" where
  "get_user_by_id_service e user_id =
     bnd (found_user e user_id (app ResourceDoesNotExistError)) (user_response_of e)"

section \<open>Administration\<close>

record users_page =
  pg_items :: "user_response list"
  pg_total :: nat
  pg_size :: int
  pg_page :: int

definition get_all_users_service :: "web_env \<Rightarrow> user_filter \<Rightarrow> bool \<Rightarrow> int \<Rightarrow> int \<Rightarrow> users_page webio" where
  "get_all_users_service e f by_name page page_size =
     bnd (count_users e f) (\<lambda>total.
     bnd (get_users e page_size ((page - 1) * page_size) f by_name) (\<lambda>found.
     bnd (map_prog (user_response_of e) found) (\<lambda>items.
     ret \<lparr>pg_items = items, pg_total = total, pg_size = page_size, pg_page = page\<rparr>)))"

definition update_user_email_by_id_service :: "web_env \<Rightarrow> uuid \<Rightarrow> string \<Rightarrow> user_response webio" where
  "update_user_email_by_id_service e user_id new_email =
     bnd (found_user e user_id (app_msg ResourceDoesNotExistError ''User does not exist.'')) (\<lambda>u.
     if usr_email u = new_email then user_response_of e u
     else bnd (change_email e u new_email) (user_response_of e))"

definition delete_user_by_id_service :: "web_env \<Rightarrow> uuid \<Rightarrow> uuid \<Rightarrow> string webio" where
  "delete_user_by_id_service e user_id admin_id =
     (if admin_id = user_id then raise (app_msg ForbiddenError ''You cannot delete your own account.'')
      else bnd (found_user e user_id (app_msg ResourceDoesNotExistError ''User does not exist.'')) (\<lambda>u.
        if usr_is_admin u then raise (app_msg ForbiddenError ''You cannot delete another admins account.'')
        else bnd (delete_user_and_sessions e u) (\<lambda>_. ret ''User deleted successfully.'')))"

text \<open>
  The result of a bulk delete.  The service writes the ids as text and the response schema reads
  them back as UUIDs.
\<close>

record bulk_delete_result =
  bd_deleted :: "uuid list"
  bd_not_found :: "uuid list"
  bd_skipped_admins :: "uuid list"
  bd_not_processed :: "uuid list"

definition no_result :: bulk_delete_result where
  "no_result = \<lparr>bd_deleted = [], bd_not_found = [], bd_skipped_admins = [], bd_not_processed = []\<rparr>"

text \<open>Whether the user was deleted; False is a Redis that is down.\<close>

definition delete_or_stop :: "web_env \<Rightarrow> user \<Rightarrow> bool webio" where
  "delete_or_stop e u = handle (bnd (delete_user_and_sessions e u) (\<lambda>_. ret True))
     (\<lambda>x. if is_redis_error x then ret False else raise x)"

fun delete_each :: "web_env \<Rightarrow> uuid list \<Rightarrow> bulk_delete_result \<Rightarrow> bulk_delete_result webio" where
  "delete_each e [] r = ret r"
| "delete_each e (i # rest) r =
     bnd (get_user_by_id e i) (\<lambda>found. case found of
       None \<Rightarrow> delete_each e rest (r\<lparr>bd_not_found := bd_not_found r @ [i]\<rparr>)
     | Some u \<Rightarrow>
         if usr_is_admin u then delete_each e rest (r\<lparr>bd_skipped_admins := bd_skipped_admins r @ [i]\<rparr>)
         else bnd (delete_or_stop e u) (\<lambda>deleted.
           if \<not> deleted then ret (r\<lparr>bd_not_processed := i # rest\<rparr>)
           else bnd (web_commit e) (\<lambda>_. delete_each e rest (r\<lparr>bd_deleted := bd_deleted r @ [i]\<rparr>))))"

definition delete_multiple_users_by_ids_service :: "web_env \<Rightarrow> uuid list \<Rightarrow> uuid \<Rightarrow> bulk_delete_result webio" where
  "delete_multiple_users_by_ids_service e user_ids admin_id =
     (if admin_id \<in> set user_ids then raise (app_msg ForbiddenError ''You cannot delete your own account.'')
      else delete_each e user_ids no_result)"

end
