(* ===== verification/Http_Api.thy ===== *)
theory Http_Api
  imports Auth_Service User_Service
begin

text \<open>
  The requests: the schemas of app/users/schemas.py, app/security/schemas.py and app/schemas.py, the
  endpoints of app/users/controller.py and app/security/controller.py, the session of a request
  (`get_db`) and the exception handlers of app/exceptions.py and app/main.py.

  A request is taken apart into the values FastAPI passes on: bodies with text fields, ids that are
  UUIDs.  FastAPI resolves the caller (`get_current_user`, `require_admin`) before it checks the body.
\<close>

section \<open>Schemas\<close>

definition bcrypt_max_bytes :: nat where "bcrypt_max_bytes = 72"

text \<open>`len(value.encode("utf-8"))`\<close>

definition utf8_length :: "string \<Rightarrow> nat" where
  "utf8_length s = sum_list (map (\<lambda>c. if (of_char c :: nat) < 128 then 1 else 2) s)"

definition within_bcrypt_limit :: "string \<Rightarrow> bool" where
  "within_bcrypt_limit s = (utf8_length s \<le> bcrypt_max_bytes)"

text \<open>The password fields: 8 to 60 characters; that of a login has no lower bound.\<close>

definition valid_password :: "string \<Rightarrow> bool" where
  "valid_password s = (8 \<le> length s \<and> length s \<le> 60 \<and> within_bcrypt_limit s)"

definition valid_login_password :: "string \<Rightarrow> bool" where
  "valid_login_password s = (length s \<le> 60 \<and> within_bcrypt_limit s)"

text \<open>The confirmation is compared only with a password that is valid itself.\<close>

definition valid_confirmation :: "string \<Rightarrow> string \<Rightarrow> bool" where
  "valid_confirmation password confirm =
     (8 \<le> length confirm \<and> length confirm \<le> 60 \<and> (valid_password password \<longrightarrow> confirm = password))"

text \<open>`NormalizedEmailMixin`\<close>

definition normalized_email :: "web_env \<Rightarrow> string \<Rightarrow> string option" where
  "normalized_email e s = map_option lower (valid_email e s)"

definition valid_filter :: "user_filter \<Rightarrow> (string \<times> bool) list" where
  "valid_filter f = [(''email'', accepts (\<lambda>s. length s \<le> 255) (f_email f)),
     (''username'', accepts valid_username (f_username f))]"

text \<open>All fields are checked before the endpoint runs.\<close>

definition checked :: "(string \<times> bool) list \<Rightarrow> 'a webio \<Rightarrow> 'a webio" where
  "checked checks m = (case filter (\<lambda>(_, ok). \<not> ok) checks of [] \<Rightarrow> m
     | refused \<Rightarrow> raise (RequestValidationError (map fst refused)))"

section \<open>Requests and responses\<close>

datatype request =
    Signup string string string                        \<comment> \<open>email, username, password\<close>
  | ResendVerification string
  | ForgotPassword string
  | ResetPassword string string string                 \<comment> \<open>token, password, confirmation\<close>
  | VerifyEmail string
  | Me "string option"                                 \<comment> \<open>bearer credentials, here and below\<close>
  | UpdatePassword "string option" string string string  \<comment> \<open>old, new, confirmation\<close>
  | UpdateEmail "string option" string
  | UpdateUser "string option" "string option"
  | DeleteUser "string option"
  | AdminGetUser "string option" uuid
  | AdminListUsers "string option" int int user_filter bool
  | AdminUpdateEmail "string option" uuid string
  | AdminDeleteUser "string option" uuid
  | AdminBulkDelete "string option" "uuid list"
  | Refresh "string option"                            \<comment> \<open>the refresh_token cookie, here and below\<close>
  | Login string string "string option"
  | Logout "string option" "string option"             \<comment> \<open>cookie, bearer credentials\<close>
  | LogoutAll "string option"

datatype reply = Message string | UserReply user_response | UsersReply users_page
  | BulkReply bulk_delete_result | TokenReply string

datatype cookie = NoCookie | SetCookie string int bool  \<comment> \<open>value, max_age, secure\<close>
  | DeleteCookie

datatype body = Success reply | Failure string | Refused "string list"

record response =
  rs_status :: int
  rs_body :: body
  rs_cookie :: cookie
  rs_retry_after :: "int option"

section \<open>Endpoints\<close>

definition bearer :: "web_env \<Rightarrow> string option \<Rightarrow> string webio" where
  "bearer e credentials = (case credentials of Some c \<Rightarrow> ret c
     | None \<Rightarrow> raise (case missing_credentials e of (status, detail) \<Rightarrow> HTTPException status detail))"

definition as_user :: "web_env \<Rightarrow> string option \<Rightarrow> (user \<Rightarrow> 'a webio) \<Rightarrow> 'a webio" where
  "as_user e credentials k = bnd (bearer e credentials) (\<lambda>c. bnd (get_current_user e c) k)"

definition as_admin :: "web_env \<Rightarrow> string option \<Rightarrow> (user \<Rightarrow> 'a webio) \<Rightarrow> 'a webio" where
  "as_admin e credentials k = bnd (bearer e credentials) (\<lambda>c. bnd (require_admin e c) k)"

definition reply_with :: "('a \<Rightarrow> reply) \<Rightarrow> 'a webio \<Rightarrow> (reply \<times> cookie) webio" where
  "reply_with f m = bnd m (\<lambda>a. ret (f a, NoCookie))"

definition refresh_cookie :: "web_env \<Rightarrow> string \<Rightarrow> cookie" where
  "refresh_cookie e token = SetCookie token (refresh_token_expire_days e * 24 * 60 * 60) (http_secure e)"

text \<open>An address that is valid, in the normal form of the mixin.\<close>

definition with_email :: "web_env \<Rightarrow> string \<Rightarrow> (string \<times> bool) list \<Rightarrow> (string \<Rightarrow> 'a webio) \<Rightarrow> 'a webio" where
  "with_email e email others k =
     checked ((''email'', normalized_email e email \<noteq> None) # others) (k (the (normalized_email e email)))"

definition signup :: "web_env \<Rightarrow> string \<Rightarrow> string \<Rightarrow> string \<Rightarrow> (reply \<times> cookie) webio" where
  "signup e email username password =
     with_email e email [(''password'', valid_password password), (''username'', valid_username username)]
       (\<lambda>address. reply_with UserReply (create_user_service e address username password))"

definition resend_verification :: "web_env \<Rightarrow> string \<Rightarrow> (reply \<times> cookie) webio" where
  "resend_verification e email =
     with_email e email [] (\<lambda>address. reply_with Message (resend_email_verification_service e address))"

definition forgot_password :: "web_env \<Rightarrow> string \<Rightarrow> (reply \<times> cookie) webio" where
  "forgot_password e email =
     with_email e email [] (\<lambda>address. reply_with Message (forgot_password_service e address))"

definition reset_password :: "web_env \<Rightarrow> string \<Rightarrow> string \<Rightarrow> string \<Rightarrow> (reply \<times> cookie) webio" where
  "reset_password e token password confirm =
     checked [(''password'', valid_password password), (''confirm_password'', valid_confirmation password confirm)]
       (reply_with Message (reset_password_service_via_email e token password))"

definition verify_email :: "web_env \<Rightarrow> string \<Rightarrow> (reply \<times> cookie) webio" where
  "verify_email e token = reply_with Message (verify_user_email_service e token)"

definition get_user :: "web_env \<Rightarrow> string option \<Rightarrow> (reply \<times> cookie) webio" where
  "get_user e credentials =
     as_user e credentials (\<lambda>u. reply_with UserReply (get_user_by_id_service e (usr_id u)))"

definition update_user_password :: "web_env \<Rightarrow> string option \<Rightarrow> string \<Rightarrow> string \<Rightarrow> string \<Rightarrow> (reply \<times> cookie) webio" where
  "update_user_password e credentials old new confirm =
     as_user e credentials (\<lambda>u.
     checked [(''old_password'', valid_password old), (''new_password'', valid_password new),
              (''confirm_new_password'', valid_confirmation new confirm)]
       (reply_with Message (update_user_password_service e (usr_id u) new old)))"

definition update_user_email :: "web_env \<Rightarrow> string option \<Rightarrow> string \<Rightarrow> (reply \<times> cookie) webio" where
  "update_user_email e credentials email =
     as_user e credentials (\<lambda>u.
     with_email e email [] (\<lambda>address. reply_with Message (update_email_service e (usr_id u) address)))"

definition update_user_user :: "web_env \<Rightarrow> string option \<Rightarrow> string option \<Rightarrow> (reply \<times> cookie) webio" where
  "update_user_user e credentials username =
     as_user e credentials (\<lambda>u.
     checked [(''username'', accepts valid_username username)]
       (reply_with UserReply (update_user_fields_service e username (usr_id u))))"

definition delete_user_endpoint :: "web_env \<Rightarrow> string option \<Rightarrow> (reply \<times> cookie) webio" where
  "delete_user_endpoint e credentials =
     as_user e credentials (\<lambda>u. reply_with Message (delete_current_user_service e (usr_id u)))"

definition get_user_by_id_endpoint :: "web_env \<Rightarrow> string option \<Rightarrow> uuid \<Rightarrow> (reply \<times> cookie) webio" where
  "get_user_by_id_endpoint e credentials user_id =
     as_admin e credentials (\<lambda>_. reply_with UserReply (get_user_by_id_service e user_id))"

definition get_all_users :: "web_env \<Rightarrow> string option \<Rightarrow> int \<Rightarrow> int \<Rightarrow> user_filter \<Rightarrow> bool \<Rightarrow> (reply \<times> cookie) webio" where
  "get_all_users e credentials page page_size f by_name =
     as_admin e credentials (\<lambda>_.
     checked ([(''page'', 1 \<le> page), (''page_size'', 1 \<le> page_size \<and> page_size \<le> 100)] @ valid_filter f)
       (reply_with UsersReply (get_all_users_service e f by_name page page_size)))"

definition update_user_endpoint :: "web_env \<Rightarrow> string option \<Rightarrow> uuid \<Rightarrow> string \<Rightarrow> (reply \<times> cookie) webio" where
  "update_user_endpoint e credentials user_id email =
     as_admin e credentials (\<lambda>_.
     with_email e email [] (\<lambda>address. reply_with UserReply (update_user_email_by_id_service e user_id address)))"

definition admin_delete_user :: "web_env \<Rightarrow> string option \<Rightarrow> uuid \<Rightarrow> (reply \<times> cookie) webio" where
  "admin_delete_user e credentials user_id =
     as_admin e credentials (\<lambda>admin. reply_with Message (delete_user_by_id_service e user_id (usr_id admin)))"

definition bulk_delete_users :: "web_env \<Rightarrow> string option \<Rightarrow> uuid list \<Rightarrow> (reply \<times> cookie) webio" where
  "bulk_delete_users e credentials user_ids =
     as_admin e credentials (\<lambda>admin.
     checked [(''user_ids'', 1 \<le> length user_ids \<and> length user_ids \<le> 50)]
       (reply_with BulkReply (delete_multiple_users_by_ids_service e user_ids (usr_id admin))))"

text \<open>The endpoints under /auth, which set or delete the cookie of the refresh token.\<close>

definition refresh_access_token :: "web_env \<Rightarrow> string option \<Rightarrow> (reply \<times> cookie) webio" where
  "refresh_access_token e cookie = (case cookie of None \<Rightarrow> raise (app InvalidTokenError)
     | Some token \<Rightarrow> bnd (refresh_access_token_service e token) (\<lambda>p.
         ret (TokenReply (access_token_of p), refresh_cookie e (refresh_token_of p))))"

definition login :: "web_env \<Rightarrow> string \<Rightarrow> string \<Rightarrow> string option \<Rightarrow> (reply \<times> cookie) webio" where
  "login e email password cookie =
     checked [(''email'', valid_email e email \<noteq> None), (''password'', valid_login_password password)]
       (bnd (login_service e (the (valid_email e email)) password cookie) (\<lambda>p.
        ret (TokenReply (access_token_of p), refresh_cookie e (refresh_token_of p))))"

definition logout :: "web_env \<Rightarrow> string option \<Rightarrow> string option \<Rightarrow> (reply \<times> cookie) webio" where
  "logout e cookie credentials = bnd (logout_service e cookie credentials) (\<lambda>ended_session.
     ret (Message (if ended_session then ''Logged out successfully'' else ''Already logged out of account''), DeleteCookie))"

definition logout_all :: "web_env \<Rightarrow> string option \<Rightarrow> (reply \<times> cookie) webio" where
  "logout_all e cookie = bnd (logout_all_accounts e cookie) (\<lambda>ended_sessions.
     ret (Message (if ended_sessions then ''Logged out all accounts successfully''
                   else ''Already logged out of all accounts''), DeleteCookie))"

fun endpoint :: "web_env \<Rightarrow> request \<Rightarrow> (reply \<times> cookie) webio" where
  "endpoint e (Signup email username password) = signup e email username password"
| "endpoint e (ResendVerification email) = resend_verification e email"
| "endpoint e (ForgotPassword email) = forgot_password e email"
| "endpoint e (ResetPassword token password confirm) = reset_password e token password confirm"
| "endpoint e (VerifyEmail token) = verify_email e token"
| "endpoint e (Me c) = get_user e c"
| "endpoint e (UpdatePassword c old new confirm) = update_user_password e c old new confirm"
| "endpoint e (UpdateEmail c email) = update_user_email e c email"
| "endpoint e (UpdateUser c username) = update_user_user e c username"
| "endpoint e (DeleteUser c) = delete_user_endpoint e c"
| "endpoint e (AdminGetUser c i) = get_user_by_id_endpoint e c i"
| "endpoint e (AdminListUsers c page page_size f by_name) = get_all_users e c page page_size f by_name"
| "endpoint e (AdminUpdateEmail c i email) = update_user_endpoint e c i email"
| "endpoint e (AdminDeleteUser c i) = admin_delete_user e c i"
| "endpoint e (AdminBulkDelete c is) = bulk_delete_users e c is"
| "endpoint e (Refresh cookie) = refresh_access_token e cookie"
| "endpoint e (Login email password cookie) = login e email password cookie"
| "endpoint e (Logout cookie c) = logout e cookie c"
| "endpoint e (LogoutAll cookie) = logout_all e cookie"

section \<open>A request from its session to its response\<close>

text \<open>`get_db`: commit at the end, roll back on an exception, close the session either way.\<close>

definition in_session :: "web_env \<Rightarrow> 'a webio \<Rightarrow> 'a webio" where
  "in_session e m = handle (bnd m (\<lambda>a. bnd (web_commit e) (\<lambda>_. ret a)))
     (\<lambda>x. bnd web_rollback (\<lambda>_. raise x))"

text \<open>The exception handlers.\<close>

definition error_response :: "int \<Rightarrow> string \<Rightarrow> response" where
  "error_response status text_of = \<lparr>rs_status = status, rs_body = Failure text_of, rs_cookie = NoCookie,
     rs_retry_after = None\<rparr>"

definition dependency_unavailable :: response where
  "dependency_unavailable = (error_response 503 (default_message ServiceUnavailableError))\<lparr>rs_retry_after := Some 5\<rparr>"

fun handle_exception :: "web_exn \<Rightarrow> response" where
  "handle_exception (App k m) = error_response (status_code k) m"
| "handle_exception (RequestValidationError refused) =
     \<lparr>rs_status = 422, rs_body = Refused refused, rs_cookie = NoCookie, rs_retry_after = None\<rparr>"
| "handle_exception (HTTPException status detail) = error_response status detail"
| "handle_exception (RedisError _) = dependency_unavailable"
| "handle_exception IntegrityError = dependency_unavailable"
| "handle_exception (DBAPIError _) = dependency_unavailable"
| "handle_exception (PyError _) = error_response 500 ''An unexpected error occurred. Please try again later.''"

fun success_status :: "request \<Rightarrow> int" where
  "success_status (Signup _ _ _) = 201"
| "success_status _ = 200"

definition respond :: "web_env \<Rightarrow> request \<Rightarrow> response webio" where
  "respond e req = handle
     (bnd (in_session e (endpoint e req)) (\<lambda>(r, c).
      ret \<lparr>rs_status = success_status req, rs_body = Success r, rs_cookie = c, rs_retry_after = None\<rparr>))
     (\<lambda>x. ret (handle_exception x))"

text \<open>Every request gets a response: what it is and the state it leaves.\<close>

definition serve :: "web_env \<Rightarrow> request \<Rightarrow> web \<Rightarrow> response \<times> web" where
  "serve e req w = (case respond e req w of
     (Inr r, w') \<Rightarrow> (r, w') | (Inl x, w') \<Rightarrow> (handle_exception x, w'))"

end
