(* ===== verification/Service_Process.thy ===== *)
theory Service_Process
  imports Http_Api
begin

text \<open>
  The processes around the requests: the start of app/main.py, which waits for Postgres and Redis, and its end, the
  health endpoints of app/core/health.py, and the email tasks of app/users/tasks/tasks.py with
  app/users/utils/email.py.  The Resend SDK is a parameter; a check that takes longer than its timeout
  is one of the faults of its step.
\<close>

section \<open>Startup\<close>

definition startup_attempts :: int where "startup_attempts = 3"
definition startup_retry_delay_s :: int where "startup_retry_delay_s = 2"

definition check_database :: "web_env \<Rightarrow> unit webio" where
  "check_database e = bnd wtick (\<lambda>n. case web_db_fault e n of None \<Rightarrow> ret () | Some m \<Rightarrow> raise (DBAPIError m))"

definition check_redis :: "web_env \<Rightarrow> unit webio" where
  "check_redis e = redis_do e (\<lambda>_ rs. (Inr (), rs))"

definition check_dependencies :: "web_env \<Rightarrow> unit webio" where
  "check_dependencies e = bnd (check_database e) (\<lambda>_. check_redis e)"

definition web_sleep :: "int \<Rightarrow> unit webio" where
  "web_sleep d = update (\<lambda>w. w\<lparr>w_slept := w_slept w @ [d]\<rparr>)"

text \<open>The loop over `range(1, STARTUP_ATTEMPTS + 1)`: `left` attempts remain.\<close>

fun wait_attempts :: "web_env \<Rightarrow> nat \<Rightarrow> int \<Rightarrow> unit webio" where
  "wait_attempts e 0 attempt = ret ()"
| "wait_attempts e (Suc left) attempt =
     handle (check_dependencies e)
       (\<lambda>x. if attempt = startup_attempts then raise x
            else bnd (web_sleep (startup_retry_delay_s * attempt)) (\<lambda>_. wait_attempts e left (attempt + 1)))"

definition wait_for_dependencies :: "web_env \<Rightarrow> unit webio" where
  "wait_for_dependencies e = wait_attempts e (nat startup_attempts) 1"

text \<open>
  `_close_clients` and `lifespan`: whether Redis and the pool of the engine are still open is the local state
  around the world; a close that raises leaves its client open, and the other is closed all the same.
  `running` is what runs while the service is up.
\<close>

record clients =
  redis_open :: bool
  pool_open :: bool

definition close_redis :: "web_env \<Rightarrow> (web \<times> clients, web_exn, unit) prog" where
  "close_redis e = bnd (lifted (check_redis e)) (\<lambda>_. locals (\<lambda>c. c\<lparr>redis_open := False\<rparr>))"

definition dispose_pool :: "web_env \<Rightarrow> (web \<times> clients, web_exn, unit) prog" where
  "dispose_pool e = bnd (lifted (check_database e)) (\<lambda>_. locals (\<lambda>c. c\<lparr>pool_open := False\<rparr>))"

definition close_clients :: "web_env \<Rightarrow> (web \<times> clients, web_exn, unit) prog" where
  "close_clients e = bnd (handle (close_redis e) (\<lambda>_. ret ())) (\<lambda>_. handle (dispose_pool e) (\<lambda>_. ret ()))"

definition lifespan :: "web_env \<Rightarrow> 'a webio \<Rightarrow> (web \<times> clients, web_exn, 'a) prog" where
  "lifespan e running =
     bnd (outcome_of (bnd (lifted (wait_for_dependencies e)) (\<lambda>_. lifted running))) (\<lambda>r.
     bnd (close_clients e) (\<lambda>_. lift_sum r))"

section \<open>Health\<close>

text \<open>`_run_check`: any exception, the timeout included, is a failed check.\<close>

definition run_check :: "unit webio \<Rightarrow> bool webio" where
  "run_check check = handle (bnd check (\<lambda>_. ret True)) (\<lambda>_. ret False)"

record health =
  h_status_code :: int
  h_status :: string
  h_database :: string
  h_redis :: string

definition readiness :: "web_env \<Rightarrow> health webio" where
  "readiness e =
     bnd (run_check (check_database e)) (\<lambda>db_ok.
     bnd (run_check (check_redis e)) (\<lambda>redis_ok.
     let healthy = db_ok \<and> redis_ok in
     ret \<lparr>h_status_code = (if healthy then 200 else 503), h_status = (if healthy then ''healthy'' else ''unhealthy''),
         h_database = (if db_ok then ''ok'' else ''down''), h_redis = (if redis_ok then ''ok'' else ''down'')\<rparr>))"

section \<open>Emails\<close>

datatype email_exn =
    ResendError json "string option" string   \<comment> \<open>code, error_type, message\<close>
  | RuntimeError string
  | EmailPyError py_exn
  | TransientEmailError string

fun email_text :: "email_exn \<Rightarrow> string" where
  "email_text (ResendError _ _ m) = m"
| "email_text (RuntimeError m) = m"
| "email_text (EmailPyError _) = []"
| "email_text (TransientEmailError m) = m"

definition transient_resend_error_types :: "string list" where
  "transient_resend_error_types = [''rate_limit_exceeded'', ''concurrent_idempotent_requests'']"

text \<open>
  `int(exc.code)` with 0 for a TypeError or ValueError; the OverflowError of an infinity is not caught.
\<close>

fun status_of_code :: "json \<Rightarrow> py_exn + int" where
  "status_of_code (JInt i) = Inr i"
| "status_of_code (JBool b) = Inr (if b then 1 else 0)"
| "status_of_code (JStr s) = Inr (case py_int_of_str s of None \<Rightarrow> 0 | Some i \<Rightarrow> i)"
| "status_of_code (JFloat (FNum q)) = Inr (trunc q)"
| "status_of_code (JFloat (FInf _)) = Inl OverflowError"
| "status_of_code _ = Inr 0"

definition is_transient_email_error :: "email_exn \<Rightarrow> py_exn + bool" where
  "is_transient_email_error x = (case x of
     ResendError code error_type _ \<Rightarrow> sbind (status_of_code code) (\<lambda>status.
       Inr (500 \<le> status \<or> (case error_type of None \<Rightarrow> False | Some t \<Rightarrow> t \<in> set transient_resend_error_types)))
   | RuntimeError m \<Rightarrow> Inr (prefix_of ''Request failed'' m)
   | _ \<Rightarrow> Inr False)"

record email_params =
  em_from :: string
  em_to :: "string list"
  em_subject :: string
  em_html :: string

record mail_env =
  frontend_url :: string
  resend_send :: "email_params \<Rightarrow> string \<Rightarrow> email_exn + json"  \<comment> \<open>with the idempotency key\<close>

definition sender_address :: string where "sender_address = ''AnimePlanet <onboarding@resend.dev>''"

text \<open>The send, and `response.get("id")` for the log.\<close>

definition send_params :: "mail_env \<Rightarrow> email_params \<Rightarrow> string \<Rightarrow> email_exn + unit" where
  "send_params m params key = sbind (resend_send m params key) (\<lambda>response.
     case dget response ''id'' of Inl x \<Rightarrow> Inl (EmailPyError x) | Inr _ \<Rightarrow> Inr ())"

definition send_email_verification :: "mail_env \<Rightarrow> string \<Rightarrow> string \<Rightarrow> email_exn + unit" where
  "send_email_verification m to_email code = send_params m
     \<lparr>em_from = sender_address, em_to = [to_email], em_subject = ''Verify your AnimePlanet account'',
      em_html = ''<p>Click <a href='' @ [CHR 0x27] @ frontend_url m @ ''/verify-email?token='' @ code @ [CHR 0x27] @
        ''>here</a> to verify your email. This link expires in 15 minutes.</p>''\<rparr>
     (''verify-email/'' @ code)"

definition send_email_password_reset :: "mail_env \<Rightarrow> string \<Rightarrow> string \<Rightarrow> email_exn + unit" where
  "send_email_password_reset m to_email code = send_params m
     \<lparr>em_from = sender_address, em_to = [to_email], em_subject = ''Reset your AnimePlanet password'',
      em_html = ''<p>Click <a href='' @ [CHR 0x27] @ frontend_url m @ ''/reset-password?token='' @ code @ [CHR 0x27] @
        ''>here</a> to reset your password. This link expires in 15 minutes.</p>''\<rparr>
     (''password-reset/'' @ code)"

text \<open>`_send`: a transient failure is marked for a retry.\<close>

definition send_marked :: "email_exn + unit \<Rightarrow> email_exn + unit" where
  "send_marked sent = (case sent of Inr _ \<Rightarrow> Inr ()
     | Inl x \<Rightarrow> (case is_transient_email_error x of
         Inl y \<Rightarrow> Inl (EmailPyError y)
       | Inr transient \<Rightarrow> Inl (if transient then TransientEmailError (email_text x) else x)))"

definition send_email_task :: "mail_env \<Rightarrow> email_task \<Rightarrow> string \<Rightarrow> string \<Rightarrow> email_exn + unit" where
  "send_email_task m task to_email code = send_marked (case task of
     SendVerification \<Rightarrow> send_email_verification m to_email code
   | SendPasswordReset \<Rightarrow> send_email_password_reset m to_email code)"

end
