(* ===== verification/Web_Rules.thy ===== *)
theory Web_Rules
  imports Http_Api
begin

text \<open>
  The rules behind the theorems of the web side: weakest preconditions of its effects, and the
  calculus `yields`, for programs that preserve a predicate of the state and whose results satisfy
  another one.
\<close>

section \<open>Preserving a predicate and bounding the result\<close>

named_theorems yields_rules \<open>how the combinators preserve a predicate and bound the result\<close>

definition yields :: "('s \<Rightarrow> bool) \<Rightarrow> ('s, 'e, 'a) prog \<Rightarrow> ('a \<Rightarrow> bool) \<Rightarrow> bool" where
  "yields P m R \<longleftrightarrow> (\<forall>s. P s \<longrightarrow> wp m (\<lambda>a t. P t \<and> R a) (\<lambda>_. P) s)"

lemma yieldsI: "(\<And>s. P s \<Longrightarrow> wp m (\<lambda>a t. P t \<and> R a) (\<lambda>_. P) s) \<Longrightarrow> yields P m R"
  by (simp add: yields_def)

lemma yields_keeps: "yields P m R \<Longrightarrow> keeps P m"
  unfolding yields_def keeps_def by (auto simp: wp_def split: prod.splits sum.splits) (metis snd_conv sum.exhaust prod.exhaust)

lemma keeps_yields: "keeps P m \<Longrightarrow> yields P m (\<lambda>_. True)"
  by (auto simp: yields_def intro: keeps_wp)

lemma yieldsD: "yields P m R \<Longrightarrow> P s \<Longrightarrow> wp m (\<lambda>a t. P t \<and> R a) (\<lambda>_. P) s"
  by (simp add: yields_def)

lemma yields_weaken: "yields P m R \<Longrightarrow> (\<And>a. R a \<Longrightarrow> S a) \<Longrightarrow> yields P m S"
  unfolding yields_def by (blast intro: wp_mono)

lemma yields_ret [yields_rules]: "R a \<Longrightarrow> yields P (ret a) R"
  by (simp add: yields_def wp_simps)

lemma yields_raise [yields_rules]: "yields P (raise x) R"
  by (simp add: yields_def wp_simps)

lemma yields_bnd:
  assumes "yields P m R" and "\<And>a. R a \<Longrightarrow> yields P (k a) S" shows "yields P (bnd m k) S"
proof (rule yieldsI)
  fix s assume "P s"
  from yieldsD [OF assms(1) this] show "wp (bnd m k) (\<lambda>a t. P t \<and> S a) (\<lambda>_. P) s"
    unfolding wp_bnd by (rule wp_mono) (auto dest: yieldsD [OF assms(2)])
qed

lemma yields_handle:
  assumes "yields P m R" and "\<And>x. yields P (h x) R" shows "yields P (handle m h) R"
proof (rule yieldsI)
  fix s assume "P s"
  from yieldsD [OF assms(1) this] show "wp (handle m h) (\<lambda>a t. P t \<and> R a) (\<lambda>_. P) s"
    unfolding wp_handle by (rule wp_mono) (auto dest: yieldsD [OF assms(2)])
qed

lemma yields_if [yields_rules]:
  "(c \<Longrightarrow> yields P m R) \<Longrightarrow> (\<not> c \<Longrightarrow> yields P n R) \<Longrightarrow> yields P (if c then m else n) R"
  by simp

lemma yields_case_option [yields_rules]:
  "(x = None \<Longrightarrow> yields P m R) \<Longrightarrow> (\<And>a. x = Some a \<Longrightarrow> yields P (n a) R)
     \<Longrightarrow> yields P (case x of None \<Rightarrow> m | Some a \<Rightarrow> n a) R"
  by (simp split: option.split)

lemma yields_case_prod [yields_rules]:
  "(\<And>a b. x = (a, b) \<Longrightarrow> yields P (m a b) R) \<Longrightarrow> yields P (case x of (a, b) \<Rightarrow> m a b) R"
  by (simp split: prod.split)

lemma yields_let [yields_rules]: "(\<And>x. x = a \<Longrightarrow> yields P (m x) R) \<Longrightarrow> yields P (let x = a in m x) R"
  by (simp add: Let_def)

lemma yields_for_each:
  assumes "\<And>x. x \<in> set xs \<Longrightarrow> yields P (f x) (\<lambda>_. True)" shows "yields P (for_each f xs) (\<lambda>_. True)"
  using assms by (induction xs) (auto intro!: yields_rules intro: yields_bnd)

section \<open>Weakest preconditions of the effects\<close>

lemma wp_wtick [wp_simps]: "wp wtick Q E w = Q (w_steps w) (w\<lparr>w_steps := Suc (w_steps w)\<rparr>)"
  by (simp add: wp_def wtick_def)

lemma wp_now_utc [wp_simps]: "wp (now_utc e) Q E w = Q (clock e (w_steps w)) (w\<lparr>w_steps := Suc (w_steps w)\<rparr>)"
  by (simp add: now_utc_def wp_simps)

lemma wp_web_rollback [wp_simps]: "wp web_rollback Q E w = Q () (w\<lparr>w_db := sess_rollback (w_db w)\<rparr>)"
  by (simp add: web_rollback_def wp_simps)

text \<open>What a statement or a Redis command can do, whatever fails.\<close>

lemma wp_web_exec:
  assumes "\<And>s x. s = w_db w \<Longrightarrow> E x (w\<lparr>w_steps := Suc (w_steps w), w_db := s\<rparr>)"
    and "\<And>x t. E x (w\<lparr>w_steps := Suc (w_steps w), w_db := (w_db w)\<lparr>tx_time := Some t, broken := True\<rparr>\<rparr>)"
    and "\<And>a d t. stmt t (cur (w_db w)) = Inr (a, d)
           \<Longrightarrow> Q a (w\<lparr>w_steps := Suc (w_steps w), w_db := (w_db w)\<lparr>tx_time := Some t, cur := d\<rparr>\<rparr>)"
  shows "wp (web_exec e stmt) Q E w"
  unfolding web_exec_def wp_bnd wp_wtick
  using assms by (auto simp: wp_def Let_def split: prod.split sum.split option.split)

lemma wp_web_commit:
  assumes "\<And>x b. E x (w\<lparr>w_steps := Suc (w_steps w), w_db := (w_db w)\<lparr>broken := b\<rparr>\<rparr>)"
    and "\<not> broken (w_db w) \<Longrightarrow> Q () (w\<lparr>w_steps := Suc (w_steps w), w_db := (w_db w)\<lparr>saved := cur (w_db w), tx_time := None\<rparr>\<rparr>)"
  shows "wp (web_commit e) Q E w"
proof -
  have "E x (w\<lparr>w_steps := Suc (w_steps w)\<rparr>)" if "broken (w_db w)" for x
    using assms(1) [of x True] that by (cases w; cases "w_db w") simp
  then show ?thesis
    unfolding web_commit_def wp_bnd wp_wtick
    using assms by (auto simp: wp_def Let_def split: option.split)
qed

lemma wp_redis_do:
  assumes "\<And>x rs. E x (w\<lparr>w_steps := Suc (w_steps w), w_redis := rs\<rparr>)"
    and "\<And>a rs. Q a (w\<lparr>w_steps := Suc (w_steps w), w_redis := rs\<rparr>)"
  shows "wp (redis_do e f) Q E w"
proof -
  have "E x (w\<lparr>w_steps := Suc (w_steps w)\<rparr>)" for x
    using assms(1) [of x "w_redis w"] by simp
  then show ?thesis
    unfolding redis_do_def wp_bnd wp_wtick
    using assms by (auto simp: wp_def split: option.split sum.split prod.split)
qed

section \<open>Predicates of the database\<close>

text \<open>A property of the database, of what is committed and of the session's view.\<close>

definition db_holds :: "(web_db \<Rightarrow> bool) \<Rightarrow> web \<Rightarrow> bool" where
  "db_holds G w \<longleftrightarrow> G (cur (w_db w)) \<and> G (saved (w_db w))"

lemma db_holds_simps [simp]:
  "db_holds G (w\<lparr>w_steps := n\<rparr>) = db_holds G w" "db_holds G (w\<lparr>w_redis := rs\<rparr>) = db_holds G w"
  "db_holds G (w\<lparr>w_queue := q\<rparr>) = db_holds G w" "db_holds G (w\<lparr>w_slept := l\<rparr>) = db_holds G w"
  by (simp_all add: db_holds_def)

lemma yields_wtick [yields_rules]: "yields (db_holds G) wtick (\<lambda>_. True)"
  by (simp add: yields_def wp_simps)

lemma yields_now_utc [yields_rules]: "yields (db_holds G) (now_utc e) (\<lambda>_. True)"
  by (simp add: yields_def wp_simps)

lemma yields_redis_do: "yields (db_holds G) (redis_do e f) (\<lambda>_. True)"
  by (rule yieldsI, rule wp_redis_do) simp_all

lemma yields_web_exec:
  assumes "\<And>t d a d'. G d \<Longrightarrow> stmt t d = Inr (a, d') \<Longrightarrow> G d' \<and> R a"
  shows "yields (db_holds G) (web_exec e stmt) R"
proof (rule yieldsI)
  fix w assume w: "db_holds G w"
  show "wp (web_exec e stmt) (\<lambda>a t. db_holds G t \<and> R a) (\<lambda>_. db_holds G) w"
    by (rule wp_web_exec) (use w assms in \<open>auto simp: db_holds_def\<close>)
qed

lemma yields_web_query:
  assumes "\<And>d. G d \<Longrightarrow> R (f d)" shows "yields (db_holds G) (web_exec e (web_query f)) R"
  by (rule yields_web_exec) (use assms in \<open>auto simp: web_query_def\<close>)

lemma yields_web_commit [yields_rules]: "yields (db_holds G) (web_commit e) (\<lambda>_. True)"
  by (rule yieldsI, rule wp_web_commit) (auto simp: db_holds_def)

lemma yields_web_rollback [yields_rules]: "yields (db_holds G) web_rollback (\<lambda>_. True)"
  by (simp add: yields_def wp_simps db_holds_def)

lemma yields_enqueue [yields_rules]: "yields (db_holds G) (enqueue e task email token) (\<lambda>_. True)"
  by (simp add: yields_def enqueue_def wp_simps)

text \<open>The Redis commands and what is built from them alone leave the database as it is.\<close>

lemma yields_redis [yields_rules]:
  "yields (db_holds G) (redis_get e k) (\<lambda>_. True)" "yields (db_holds G) (redis_getdel e k) (\<lambda>_. True)"
  "yields (db_holds G) (redis_delete e k) (\<lambda>_. True)" "yields (db_holds G) (redis_exists e k) (\<lambda>_. True)"
  "yields (db_holds G) (redis_setex e k n v) (\<lambda>_. True)" "yields (db_holds G) (redis_set_nx e k v n) (\<lambda>_. True)"
  "yields (db_holds G) (redis_zremrangebyscore e k s) (\<lambda>_. True)" "yields (db_holds G) (redis_zadd e k m s) (\<lambda>_. True)"
  "yields (db_holds G) (redis_zrangebyscore e k s) (\<lambda>_. True)" "yields (db_holds G) (redis_zscore e k m) (\<lambda>_. True)"
  "yields (db_holds G) (redis_zrem e k m) (\<lambda>_. True)"
  unfolding redis_get_def redis_getdel_def redis_delete_def redis_exists_def redis_setex_def redis_set_nx_def
    redis_zremrangebyscore_def redis_zadd_def redis_zrangebyscore_def redis_zscore_def redis_zrem_def
  by (rule yields_redis_do)+

section \<open>What holds if a program returns\<close>

text \<open>
  Rules for postconditions of returns alone, whatever fails: `pc_rules`.  Programs that use only
  Redis leave the database and the queue as they are.
\<close>

named_theorems pc_rules \<open>postconditions of returns\<close>

definition returns :: "'a webio \<Rightarrow> ('a \<Rightarrow> web \<Rightarrow> bool) \<Rightarrow> web \<Rightarrow> bool" where
  "returns m Q w = wp m Q (\<lambda>_ _. True) w"

lemma returnsD: "returns m Q w \<Longrightarrow> m w = (Inr a, w') \<Longrightarrow> Q a w'"
  by (simp add: returns_def wp_def)

lemma returns_ret [pc_rules]: "Q a w \<Longrightarrow> returns (ret a) Q w"
  by (simp add: returns_def wp_simps)

lemma returns_raise [pc_rules]: "returns (raise x) Q w"
  by (simp add: returns_def wp_simps)

lemma returns_bnd [pc_rules]: "returns m (\<lambda>a. returns (k a) Q) w \<Longrightarrow> returns (bnd m k) Q w"
  by (simp add: returns_def [abs_def] wp_simps)

lemma returns_handle:
  "wp m Q (\<lambda>x. returns (h x) Q) w \<Longrightarrow> returns (handle m h) Q w"
  by (simp add: returns_def [abs_def] wp_simps)

lemma returns_if [pc_rules]:
  "(c \<Longrightarrow> returns m Q w) \<Longrightarrow> (\<not> c \<Longrightarrow> returns n Q w) \<Longrightarrow> returns (if c then m else n) Q w"
  by simp

lemma returns_let [pc_rules]: "returns (m a) Q w \<Longrightarrow> returns (let x = a in m x) Q w"
  by simp

lemma returns_case_option [pc_rules]:
  "(x = None \<Longrightarrow> returns m Q w) \<Longrightarrow> (\<And>a. x = Some a \<Longrightarrow> returns (n a) Q w)
     \<Longrightarrow> returns (case x of None \<Rightarrow> m | Some a \<Rightarrow> n a) Q w"
  by (simp split: option.split)

lemma returns_mono: "returns m Q w \<Longrightarrow> (\<And>a t. Q a t \<Longrightarrow> R a t) \<Longrightarrow> returns m R w"
  unfolding returns_def by (erule wp_mono) auto

lemma returns_any: "(\<And>a t. Q a t) \<Longrightarrow> returns m Q w"
  unfolding returns_def by (rule wp_any)

lemma returns_wtick [pc_rules]: "Q (w_steps w) (w\<lparr>w_steps := Suc (w_steps w)\<rparr>) \<Longrightarrow> returns wtick Q w"
  by (simp add: returns_def wp_simps)

lemma returns_now_utc [pc_rules]:
  "Q (clock e (w_steps w)) (w\<lparr>w_steps := Suc (w_steps w)\<rparr>) \<Longrightarrow> returns (now_utc e) Q w"
  by (simp add: returns_def wp_simps)

lemma returns_exec:
  assumes "\<And>a d t. stmt t (cur (w_db w)) = Inr (a, d)
      \<Longrightarrow> Q a (w\<lparr>w_steps := Suc (w_steps w), w_db := (w_db w)\<lparr>tx_time := Some t, cur := d\<rparr>\<rparr>)"
  shows "returns (web_exec e stmt) Q w"
  unfolding returns_def by (rule wp_web_exec) (use assms in auto)

lemma returns_query:
  assumes "\<And>t. Q (f (cur (w_db w))) (w\<lparr>w_steps := Suc (w_steps w), w_db := (w_db w)\<lparr>tx_time := Some t\<rparr>\<rparr>)"
  shows "returns (web_exec e (web_query f)) Q w"
proof (rule returns_exec)
  fix a d t assume "web_query f t (cur (w_db w)) = Inr (a, d)"
  then show "Q a (w\<lparr>w_steps := Suc (w_steps w), w_db := w_db w\<lparr>tx_time := Some t, cur := d\<rparr>\<rparr>)"
    using assms [of t] by (cases "w_db w") (simp add: web_query_def)
qed

lemma returns_commit [pc_rules]:
  assumes "Q () (w\<lparr>w_steps := Suc (w_steps w), w_db := (w_db w)\<lparr>saved := cur (w_db w), tx_time := None\<rparr>\<rparr>)"
  shows "returns (web_commit e) Q w"
  unfolding returns_def by (rule wp_web_commit) (use assms in auto)

text \<open>What a program that uses only Redis and the clock leaves as it is.\<close>

definition rest_of :: "web \<Rightarrow> web_db session \<times> (email_task \<times> string \<times> string) list \<times> int list" where
  "rest_of w = (w_db w, w_queue w, w_slept w)"

lemma rest_of_simps [simp]:
  "rest_of (w\<lparr>w_steps := n\<rparr>) = rest_of w" "rest_of (w\<lparr>w_redis := rs\<rparr>) = rest_of w"
  by (simp_all add: rest_of_def)

lemma rest_of_eq: "rest_of w' = rest_of w \<longleftrightarrow> w_db w' = w_db w \<and> w_queue w' = w_queue w \<and> w_slept w' = w_slept w"
  by (auto simp: rest_of_def)

definition redis_only :: "'a webio \<Rightarrow> bool" where
  "redis_only m \<longleftrightarrow> (\<forall>r. keeps (\<lambda>w. rest_of w = r) m)"

named_theorems redis_rules \<open>programs that use only Redis and the clock\<close>

lemma redis_onlyD: "redis_only m \<Longrightarrow> m w = (r, w') \<Longrightarrow> rest_of w' = rest_of w"
  unfolding redis_only_def by (rule keepsD [of "\<lambda>v. rest_of v = rest_of w" m w r w']) (rule spec, assumption+, rule refl)

lemma redis_only_basic [redis_rules]:
  "redis_only (ret a)" "redis_only (raise x)" "redis_only wtick" "redis_only (now_utc e)"
proof -
  have tick: "keeps (\<lambda>w. rest_of w = r) wtick" for r
    by (simp add: keeps_def wtick_def)
  show "redis_only (ret a)" unfolding redis_only_def by (rule allI, rule keeps_ret)
  show "redis_only (raise x)" unfolding redis_only_def by (rule allI, rule keeps_raise)
  show "redis_only wtick" unfolding redis_only_def by (rule allI, rule tick)
  show "redis_only (now_utc e)"
    unfolding redis_only_def now_utc_def by (rule allI, rule keeps_bnd, rule tick, rule keeps_ret)
qed

lemma redis_only_bnd [redis_rules]: "redis_only m \<Longrightarrow> (\<And>a. redis_only (k a)) \<Longrightarrow> redis_only (bnd m k)"
  by (simp add: redis_only_def keeps_bnd)

lemma redis_only_handle [redis_rules]: "redis_only m \<Longrightarrow> (\<And>x. redis_only (h x)) \<Longrightarrow> redis_only (handle m h)"
  by (simp add: redis_only_def keeps_handle)

lemma redis_only_each [redis_rules]: "(\<And>y. redis_only (g y)) \<Longrightarrow> redis_only (for_each g ys)"
  by (simp add: redis_only_def keeps_for_each)

lemma redis_only_if [redis_rules]:
  "(c \<Longrightarrow> redis_only m) \<Longrightarrow> (\<not> c \<Longrightarrow> redis_only n) \<Longrightarrow> redis_only (if c then m else n)"
  by simp

lemma redis_only_case [redis_rules]:
  "redis_only m \<Longrightarrow> (\<And>a. redis_only (k a)) \<Longrightarrow> redis_only (case z of None \<Rightarrow> m | Some a \<Rightarrow> k a)"
  by (simp split: option.split)

lemma redis_only_let [redis_rules]: "redis_only (k v) \<Longrightarrow> redis_only (let y = v in k y)"
  by simp

lemma redis_only_do: "redis_only (redis_do e f)"
  by (auto simp: redis_only_def keeps_def redis_do_def bnd_def wtick_def
      split: prod.splits option.splits sum.splits)

lemma redis_only_commands [redis_rules]:
  "redis_only (redis_get e k)" "redis_only (redis_getdel e k)" "redis_only (redis_delete e k)"
  "redis_only (redis_exists e k)" "redis_only (redis_setex e k n v)" "redis_only (redis_set_nx e k v n)"
  "redis_only (redis_zremrangebyscore e k s)" "redis_only (redis_zadd e k m s)"
  "redis_only (redis_zrangebyscore e k s)" "redis_only (redis_zscore e k m)" "redis_only (redis_zrem e k m)"
  unfolding redis_get_def redis_getdel_def redis_delete_def redis_exists_def redis_setex_def redis_set_nx_def
    redis_zremrangebyscore_def redis_zadd_def redis_zrangebyscore_def redis_zscore_def redis_zrem_def
  by (rule redis_only_do)+

lemma redis_only_tokens [redis_rules]:
  "redis_only (track_access_token e i j t)" "redis_only (is_token_revoked e j)"
  "redis_only (revoke_single_access_token e j x i)" "redis_only (revoke_access_to_all_tokens e i)"
  "redis_only (generate_access_token e i)" "redis_only (decode_token e c k)"
  unfolding track_access_token_def is_token_revoked_def revoke_single_access_token_def revoke_tracked_def
    revoke_access_to_all_tokens_def generate_access_token_def decode_token_def
  by (auto intro!: redis_rules)

lemma returns_redis_only:
  assumes "redis_only m" and "\<And>a w'. rest_of w' = rest_of w \<Longrightarrow> Q a w'" shows "returns m Q w"
  unfolding returns_def by (rule wpI) (auto intro: assms(2) dest: redis_onlyD [OF assms(1)])

text \<open>Tokens and claims.\<close>

lemma returns_decode:
  assumes "\<And>q. jwt_decode e (clock e (w_steps w)) c = Some q \<Longrightarrow> field q ''type'' = JStr k
      \<Longrightarrow> Q q (w\<lparr>w_steps := Suc (w_steps w)\<rparr>)"
  shows "returns (decode_token e c k) Q w"
  unfolding decode_token_def by (rule pc_rules | simp add: assms)+

lemma returns_claim_uuid [pc_rules]:
  assumes "\<And>s u. c = JStr s \<Longrightarrow> uuid_of s = Some u \<Longrightarrow> Q u w" shows "returns (claim_uuid c) Q w"
  by (cases c) (use assms in \<open>auto intro!: pc_rules split: option.split\<close>)

lemma returns_subscript [pc_rules]:
  assumes "\<And>v. field q k = v \<Longrightarrow> Q v w" shows "returns (subscript q k) Q w"
  by (cases q) (use assms in \<open>auto intro!: pc_rules split: option.split\<close>)

lemma from_timestamp_pure: "from_timestamp c w = (r, w') \<Longrightarrow> w' = w \<and> from_timestamp c u = (r, u)"
  by (cases c rule: from_timestamp.cases) (auto simp: of_seconds_def split: if_splits)

lemma returns_from_timestamp [pc_rules]:
  assumes "\<And>x. from_timestamp c w = (Inr x, w) \<Longrightarrow> Q x w" shows "returns (from_timestamp c) Q w"
  unfolding returns_def by (rule wpI) (metis assms from_timestamp_pure, simp)

end
