(* ===== verification/Account_Store.thy ===== *)
theory Account_Store
  imports Web_Rules
begin

text \<open>
  The interface between the requests and the two repositories: a property of the database that every
  statement keeps, for the arguments the services pass, is kept by every request.  The locale has
  the statements' laws as assumptions and proves the services and endpoints once; it is interpreted
  on three properties of the tables: that they are consistent, that the administrators are the same,
  and that no open session has a given id.
\<close>

text \<open>The id a decoded token names.\<close>

fun jti_of :: "json \<Rightarrow> uuid option" where
  "jti_of q = (case field q ''jti'' of JStr s \<Rightarrow> uuid_of s | _ \<Rightarrow> None)"

named_theorems store_rules \<open>what the requests keep and return\<close>

locale account_store =
  fixes e :: web_env
    and good :: "web_db \<Rightarrow> bool"
    and ok_user :: "user \<Rightarrow> bool"
    and ok_email :: "string \<Rightarrow> bool"
    and ok_jti :: "uuid \<Rightarrow> bool"
  assumes found: "good d \<Longrightarrow> u \<in> set (users d) \<Longrightarrow> ok_user u"
    and insert_user: "good d \<Longrightarrow> ok_email (usr_email u) \<Longrightarrow> \<not> usr_is_admin u \<Longrightarrow> insert_user u t d = Inr (a, d')
          \<Longrightarrow> good d' \<and> ok_user a"
    and store_user: "good d \<Longrightarrow> ok_user u \<Longrightarrow> store_user u t d = Inr (a, d') \<Longrightarrow> good d'"
    and remove_user: "good d \<Longrightarrow> ok_user u \<Longrightarrow> \<not> usr_is_admin u \<Longrightarrow> remove_user (usr_id u) t d = Inr (x, d') \<Longrightarrow> good d'"
    and insert_token: "good d \<Longrightarrow> ok_jti (rt_jti k) \<Longrightarrow> insert_token k t d = Inr (b, d') \<Longrightarrow> good d'"
    and store_token: "good d \<Longrightarrow> rt_revoke k \<Longrightarrow> store_token k t d = Inr (b, d') \<Longrightarrow> good d'"
    and revoke_where: "good d \<Longrightarrow> revoke_where P now t d = Inr (n, d') \<Longrightarrow> good d'"
    and remove_tokens: "good d \<Longrightarrow> remove_tokens P t d = Inr (n, d') \<Longrightarrow> good d'"
    and edited: "ok_user u \<Longrightarrow> ok_user (u\<lparr>usr_is_verified := v\<rparr>)" "ok_user u \<Longrightarrow> ok_user (u\<lparr>usr_password := p\<rparr>)"
      "ok_user u \<Longrightarrow> ok_user (u\<lparr>usr_username := p\<rparr>)"
      "ok_user u \<Longrightarrow> ok_email p \<Longrightarrow> ok_user (u\<lparr>usr_email := p, usr_is_verified := v\<rparr>)"
    and normal: "ok_email (lower p)"
    and issued: "jwt_decode e t (jwt_encode e (token_payload i kind (uuid_str (new_uuid e n)) t1 t2)) = Some q
          \<Longrightarrow> jti_of q = Some j \<Longrightarrow> ok_jti j"
begin

abbreviation safe :: "'a webio \<Rightarrow> ('a \<Rightarrow> bool) \<Rightarrow> bool" where
  "safe m R \<equiv> yields (db_holds good) m R"

abbreviation kept :: "'a webio \<Rightarrow> bool" where
  "kept m \<equiv> safe m (\<lambda>_. True)"

subsection \<open>The repositories\<close>

lemma safe_users [store_rules]:
  "safe (get_user_by_email e p) (\<lambda>r. \<forall>u. r = Some u \<longrightarrow> ok_user u)"
  "safe (get_user_by_id e i) (\<lambda>r. \<forall>u. r = Some u \<longrightarrow> ok_user u)"
  unfolding get_user_by_email_def get_user_by_id_def
  by (rule yields_web_query, auto intro: found simp: find_Some_iff)+

lemma safe_listing [store_rules]:
  "kept (count_users e f)" "kept (get_users e l off f b)"
  unfolding count_users_def get_users_def
  by (rule yields_web_exec, auto simp: web_query_def Let_def split: if_splits)+

lemma safe_create_user [store_rules]: "ok_email p \<Longrightarrow> safe (create_user e p n h) ok_user"
  unfolding create_user_def
  by (rule yields_bnd, rule yields_wtick, rule yields_web_exec, rule insert_user [rotated 3], assumption) simp_all

lemma safe_update_user [store_rules]: "ok_user u \<Longrightarrow> safe (update_user e u) ok_user"
  unfolding update_user_def by (rule yields_web_exec) (auto dest: store_user simp: store_user_def split: if_splits)

lemma safe_delete_user [store_rules]: "ok_user u \<Longrightarrow> \<not> usr_is_admin u \<Longrightarrow> kept (delete_user e u)"
  unfolding delete_user_def by (rule yields_web_exec) (auto dest: remove_user)

lemma safe_create_token [store_rules]: "ok_jti j \<Longrightarrow> kept (create_refresh_token e j i t)"
  unfolding create_refresh_token_def
  by (rule yields_web_exec, rule conjI, rule insert_token [rotated 2], assumption) simp_all

lemma safe_tokens [store_rules]:
  "kept (update_refresh_token e (k\<lparr>rt_revoke := True\<rparr>))"
  "kept (get_refresh_token_by_jti e j)"
  unfolding update_refresh_token_def get_refresh_token_by_jti_def
  by (rule yields_web_exec, rule conjI, rule store_token [rotated 2], assumption, simp_all)
    (rule yields_web_query, simp)

lemma safe_token_sets [store_rules]:
  "kept (revoke_refresh_token e j)" "kept (update_refresh_token_to_revoke e i)"
  "kept (delete_all_refresh_tokens_for_user e i)"
  unfolding revoke_refresh_token_def update_refresh_token_to_revoke_def delete_all_refresh_tokens_for_user_def
  by (rule yields_bnd yields_now_utc yields_web_exec yields_ret | blast dest: revoke_where remove_tokens)+

lemma safe_by_claim [store_rules]: "kept (get_refresh_token_by_claim e c)"
  by (cases "(e, c)" rule: get_refresh_token_by_claim.cases)
    (auto split: option.split intro!: store_rules intro: yields_web_exec)

subsection \<open>Tokens\<close>

lemma safe_claims [store_rules]:
  "kept (claim_uuid c)" "kept (subscript q k)" "kept (from_timestamp c)" "kept (claim_number c)"
proof -
  show "kept (claim_uuid c)"
    by (cases c rule: claim_uuid.cases) (auto intro!: yields_rules split: option.split)
  show "kept (subscript q k)"
    by (cases "(q, k)" rule: subscript.cases) (auto intro!: yields_rules split: option.split)
  show "kept (from_timestamp c)"
    by (cases c rule: from_timestamp.cases) (auto intro!: yields_rules simp: of_seconds_def)
  show "kept (claim_number c)"
    by (cases c rule: claim_number.cases) (auto intro!: yields_rules)
qed

lemma safe_decode [store_rules]: "safe (decode_token e c k) (\<lambda>q. \<exists>t. jwt_decode e t c = Some q)"
  unfolding decode_token_def
  by (rule yields_bnd, rule yields_now_utc) (auto intro!: yields_rules)

lemma safe_tracking [store_rules]:
  "kept (track_access_token e i j t)" "kept (is_token_revoked e j)" "kept (revoke_single_access_token e j x i)"
  "kept (revoke_access_to_all_tokens e i)"
  unfolding track_access_token_def is_token_revoked_def revoke_single_access_token_def
    revoke_access_to_all_tokens_def revoke_tracked_def
  by (rule yields_bnd yields_for_each yields_rules | blast)+

lemma safe_generate [store_rules]:
  "kept (generate_access_token e i)"
  "safe (generate_refresh_token e i x) (\<lambda>c. \<exists>n t1 t2.
     c = jwt_encode e (token_payload i ''refresh'' (uuid_str (new_uuid e n)) t1 t2))"
  unfolding generate_access_token_def generate_refresh_token_def
  by (rule yields_bnd yields_let yields_rules store_rules | blast)+

lemma safe_save:
  assumes "jti_of q = None \<or> ok_jti (the (jti_of q))" shows "kept (save_refresh_token e q)"
proof -
  have claimed: "kept (insert_claimed e c i t)" if "\<And>s. c = JStr s \<Longrightarrow> field q ''jti'' = JStr s" for c i t
    using that assms
    by (cases c) (auto split: option.split intro!: safe_create_token intro: yields_web_exec)
  have step: "safe (subscript q ''jti'') (\<lambda>c. \<forall>s. c = JStr s \<longrightarrow> field q ''jti'' = JStr s)"
    by (cases q) (auto intro!: yields_rules split: option.split)
  show ?thesis
    unfolding save_refresh_token_def
    by (rule yields_bnd [OF safe_claims(2)] yields_bnd [OF safe_claims(3)] yields_bnd [OF step]
          yields_bnd [OF safe_claims(1)] claimed | blast)+
qed

lemma safe_issue [store_rules]: "kept (issue_tokens e i x)"
  unfolding issue_tokens_def
proof (rule yields_bnd, rule safe_generate(2), elim exE)
  fix c n t1 t2
  assume c: "c = jwt_encode e (token_payload i ''refresh'' (uuid_str (new_uuid e n)) t1 t2)"
  have "kept (save_refresh_token e q)" if "\<exists>t. jwt_decode e t c = Some q" for q
    by (rule safe_save) (use that c issued in \<open>cases "jti_of q"; auto\<close>)
  note saved = this
  show "kept (bnd (decode_token e c ''refresh'') (\<lambda>q. bnd (save_refresh_token e q) (\<lambda>_.
      bnd (generate_access_token e i) (\<lambda>a. ret \<lparr>refresh_token_of = c, access_token_of = a\<rparr>))))"
    by (rule yields_bnd [OF safe_decode] yields_bnd yields_ret safe_generate(1) saved | simp)+
qed

subsection \<open>Sessions\<close>

lemma safe_handle:
  assumes "kept m" and "\<And>x. kept (h x)" shows "kept (handle m h)"
  using assms by (rule yields_handle)

lemma safe_within_grace [store_rules]: "kept (within_grace e r)"
  unfolding within_grace_def
  by (rule yields_case_option yields_bnd yields_rules | simp)+

lemma safe_end_all [store_rules]: "kept (end_all_sessions e c)"
  unfolding end_all_sessions_def
  by (rule safe_handle yields_bnd yields_rules store_rules | simp)+

lemma safe_refresh [store_rules]: "kept (refresh_access_token_service e c)"
  unfolding refresh_access_token_service_def refresh_refused_def refresh_rotated_def
  by (rule yields_bnd yields_rules store_rules | simp)+

lemma safe_already [store_rules]: "kept (already_logged_in e c)"
  unfolding already_logged_in_def
  by (rule safe_handle yields_bnd yields_rules store_rules | simp)+

lemma safe_login [store_rules]: "kept (login_service e p w c)"
  unfolding login_service_def by (rule yields_bnd yields_rules store_rules | simp)+

lemma safe_usable [store_rules]: "kept (usable_token e c)"
  unfolding usable_token_def by (rule safe_handle yields_bnd yields_rules store_rules | simp)+

lemma safe_open_session [store_rules]: "kept (open_session e c)"
  unfolding open_session_def by (rule yields_bnd yields_rules store_rules | simp)+

lemma safe_presented [store_rules]: "kept (revoke_presented e a)"
  unfolding revoke_presented_def by (rule safe_handle yields_bnd yields_rules store_rules | simp)+

lemma safe_logout [store_rules]: "kept (logout_service e c a)" "kept (logout_all_accounts e c)"
  unfolding logout_service_def logout_all_accounts_def
  by (rule yields_bnd yields_rules store_rules | simp)+

lemma safe_authenticated [store_rules]: "kept (authenticated e c)"
  unfolding authenticated_def by (rule yields_bnd yields_rules store_rules | simp)+

lemma safe_callers [store_rules]:
  "safe (require_admin e c) ok_user" "safe (get_current_user e c) ok_user" "kept (bearer e x)"
  unfolding require_admin_def get_current_user_def bearer_def
  by (rule yields_bnd yields_rules store_rules | simp)+

subsection \<open>Accounts\<close>

lemma safe_response [store_rules]: "kept (user_response_of e u)"
  unfolding user_response_of_def by (rule yields_rules | simp)+

lemma safe_emails [store_rules]:
  "kept (store_and_send e k u c)" "kept (token_urlsafe e)" "kept (drop_previous e k i)"
  "kept (fail_email_request e c)" "kept (hash_password e w)"
  unfolding store_and_send_def token_urlsafe_def drop_previous_def fail_email_request_def hash_password_def
  by (rule safe_handle yields_bnd yields_rules store_rules | simp)+

lemma safe_send [store_rules]: "kept (send_new_token e k u)" "kept (email_on_cooldown e k u c)"
  unfolding send_new_token_def email_on_cooldown_def
  by (rule safe_handle yields_bnd yields_rules store_rules | simp)+

lemma safe_or_taken [store_rules]: "safe m R \<Longrightarrow> safe (or_email_taken m) R"
  unfolding or_email_taken_def by (rule yields_handle yields_rules | simp)+

lemma safe_found [store_rules]: "safe (found_user e i x) ok_user" "safe (redeem e k c) ok_user"
  unfolding found_user_def redeem_def
  by (rule yields_bnd yields_rules store_rules | simp)+

lemma safe_password [store_rules]: "ok_user u \<Longrightarrow> kept (set_password e u w)" "kept (end_sessions e i)"
  unfolding set_password_def end_sessions_def
  by (rule yields_bnd yields_rules store_rules edited | simp)+

lemma safe_signup [store_rules]: "ok_email p \<Longrightarrow> kept (create_user_service e p n w)"
  unfolding create_user_service_def
  by (rule safe_handle yields_bnd yields_rules store_rules | simp)+

lemma safe_email_services [store_rules]:
  "kept (verify_user_email_service e c)" "kept (resend_email_verification_service e p)"
  "kept (forgot_password_service e p)" "kept (reset_password_service_via_email e c w)"
  unfolding verify_user_email_service_def resend_email_verification_service_def forgot_password_service_def
    reset_password_service_via_email_def
  by (rule yields_bnd yields_rules store_rules edited | simp)+

lemma safe_change_email [store_rules]: "ok_user u \<Longrightarrow> ok_email p \<Longrightarrow> kept (change_email e u p)"
  unfolding change_email_def
  by (rule yields_bnd yields_rules store_rules edited | simp)+

lemma safe_account_services [store_rules]:
  "kept (update_user_password_service e i w v)" "ok_email p \<Longrightarrow> kept (update_email_service e i p)"
  "kept (update_user_fields_service e n i)" "kept (get_user_by_id_service e i)"
  "ok_email p \<Longrightarrow> kept (update_user_email_by_id_service e i p)"
  unfolding update_user_password_service_def update_email_service_def update_user_fields_service_def
    get_user_by_id_service_def update_user_email_by_id_service_def
  by (rule yields_bnd yields_rules store_rules edited | simp add: edited split: option.split)+

lemma safe_delete [store_rules]: "ok_user u \<Longrightarrow> \<not> usr_is_admin u \<Longrightarrow> kept (delete_user_and_sessions e u)"
  unfolding delete_user_and_sessions_def
  by (rule yields_bnd yields_rules store_rules | simp)+

lemma safe_delete_each [store_rules]: "kept (delete_each e is r)"
proof (induction "is" arbitrary: r)
  case (Cons i rest)
  show ?case
    unfolding delete_each.simps delete_or_stop_def
    by (rule Cons safe_handle yields_bnd yields_rules store_rules | simp)+
qed (auto intro: yields_rules)

lemma safe_delete_services [store_rules]:
  "kept (delete_current_user_service e i)" "kept (delete_user_by_id_service e i a)"
  "kept (delete_multiple_users_by_ids_service e is a)"
  unfolding delete_current_user_service_def delete_user_by_id_service_def delete_multiple_users_by_ids_service_def
  by (rule yields_bnd yields_rules store_rules | simp)+

subsection \<open>Requests\<close>

lemma safe_checked [store_rules]: "kept m \<Longrightarrow> kept (checked cs m)"
  unfolding checked_def by (auto intro!: yields_rules split: list.split)

lemma safe_with_email [store_rules]:
  assumes "\<And>p. ok_email p \<Longrightarrow> kept (k p)" shows "kept (with_email e p cs k)"
  unfolding with_email_def checked_def normalized_email_def
  by (auto intro!: yields_rules assms normal split: list.split)

lemma safe_reply [store_rules]: "kept m \<Longrightarrow> kept (reply_with f m)"
  unfolding reply_with_def by (rule yields_bnd yields_rules | assumption)+

lemma safe_as [store_rules]:
  "(\<And>u. kept (k u)) \<Longrightarrow> kept (as_user e c k)" "(\<And>u. kept (k u)) \<Longrightarrow> kept (as_admin e c k)"
  unfolding as_user_def as_admin_def
  by (rule yields_bnd [OF safe_callers(3)] yields_bnd [OF safe_callers(1)] yields_bnd [OF safe_callers(2)] | assumption)+

lemma safe_page [store_rules]: "kept (get_all_users_service e f b n k)"
proof -
  have "kept (map_prog (user_response_of e) us)" for us
    by (induction us) (auto intro!: yields_rules store_rules intro: yields_bnd)
  note pages = this
  show ?thesis
    unfolding get_all_users_service_def by (rule yields_bnd pages yields_rules store_rules | simp)+
qed

lemma safe_endpoint: "kept (endpoint e req)"
  by (cases req)
    (simp_all add: signup_def resend_verification_def forgot_password_def reset_password_def verify_email_def
       get_user_def update_user_password_def update_user_email_def update_user_user_def delete_user_endpoint_def
       get_user_by_id_endpoint_def get_all_users_def update_user_endpoint_def admin_delete_user_def
       bulk_delete_users_def refresh_access_token_def login_def logout_def logout_all_def,
     (rule yields_bnd yields_rules store_rules | assumption | simp)+)

lemma safe_respond: "kept (respond e req)"
  unfolding respond_def in_session_def
  by (rule safe_handle yields_bnd [OF safe_endpoint] yields_bnd yields_rules | simp)+

theorem serve_keeps: "db_holds good w \<Longrightarrow> db_holds good (snd (serve e req w))"
  using yields_keeps [OF safe_respond [of req]]
  by (force simp: keeps_def serve_def split: prod.splits sum.splits)

lemma scheduler_keeps: "db_holds good w \<Longrightarrow> db_holds good (snd (refresh_token_scheduler e w))"
proof -
  assume w: "db_holds good w"
  have "kept (bnd (cleanup_expired_refresh_tokens e) (\<lambda>_. web_commit e))"
    unfolding cleanup_expired_refresh_tokens_def
    by (rule yields_bnd yields_now_utc yields_web_exec yields_web_commit | blast dest: remove_tokens)+
  from yields_keeps [OF this] w show ?thesis
    by (force simp: keeps_def refresh_token_scheduler_def db_holds_def split: prod.splits)
qed

lemma served_keeps: "db_holds good w \<Longrightarrow> db_holds good (foldl (\<lambda>w req. snd (serve e req w)) w reqs)"
  by (induction reqs arbitrary: w) (auto intro: serve_keeps)

end

section \<open>The tables are consistent\<close>

text \<open>
  Keys and addresses are unique, every refresh token belongs to a user, and every address is in the
  normal form the signup gives it.
\<close>

definition consistent :: "web_db \<Rightarrow> bool" where
  "consistent d \<longleftrightarrow> distinct (map usr_id (users d)) \<and> distinct (map usr_email (users d))
     \<and> distinct (map rt_jti (refresh_tokens d)) \<and> rt_user_id ` set (refresh_tokens d) \<subseteq> usr_id ` set (users d)
     \<and> (\<forall>u\<in>set (users d). lower (usr_email u) = usr_email u)"

lemma map_replace_key:
  "map f (map (\<lambda>v. if f v = f u then u else v) xs) = map f xs"
  by simp

lemma distinct_replace:
  assumes "distinct (map f xs)" and "distinct (map g xs)" and "\<forall>v\<in>set xs. g v \<noteq> g u \<longrightarrow> f v \<noteq> f u"
  shows "distinct (map f (map (\<lambda>v. if g v = g u then u else v) xs))"
proof -
  have "inj_on (\<lambda>v. f (if g v = g u then u else v)) (set xs)"
  proof (rule inj_onI)
    fix x y assume "x \<in> set xs" "y \<in> set xs" "f (if g x = g u then u else x) = f (if g y = g u then u else y)"
    with assms show "x = y" by (auto simp: distinct_map inj_on_def split: if_splits)
  qed
  with assms(1) show ?thesis by (simp add: distinct_map comp_def)
qed

lemma consistent_store_user:
  assumes "consistent d" and "lower (usr_email u) = usr_email u" and "store_user u t d = Inr (a, d')"
  shows "consistent d'"
proof -
  define us where "us = map (\<lambda>v. if usr_id v = usr_id u then u else v) (users d)"
  have d': "d' = d\<lparr>users := us\<rparr>" and free: "\<forall>v\<in>set (users d). usr_id v \<noteq> usr_id u \<longrightarrow> usr_email v \<noteq> usr_email u"
    using assms(3) by (auto simp: store_user_def us_def split: if_splits)
  have ids: "map usr_id us = map usr_id (users d)" unfolding us_def by (rule map_replace_key)
  have emails: "distinct (map usr_email us)"
    unfolding us_def by (rule distinct_replace) (use assms(1) free in \<open>auto simp: consistent_def\<close>)
  have same: "usr_id ` set us = usr_id ` set (users d)"
    by (metis ids set_map)
  have "\<forall>v\<in>set us. lower (usr_email v) = usr_email v"
    using assms(1,2) by (auto simp: consistent_def us_def)
  with assms(1) emails show ?thesis
    unfolding consistent_def d' by (simp add: ids same)
qed

lemma consistent_insert_user:
  assumes "consistent d" and "lower (usr_email u) = usr_email u" and "insert_user u t d = Inr (a, d')"
  shows "consistent d' \<and> lower (usr_email a) = usr_email a"
proof -
  have d': "a = u\<lparr>usr_created_at := t\<rparr>" "d' = d\<lparr>users := users d @ [u\<lparr>usr_created_at := t\<rparr>]\<rparr>"
    and new: "usr_email u \<notin> usr_email ` set (users d)" "usr_id u \<notin> usr_id ` set (users d)"
    using assms(3) by (auto simp: insert_user_def Let_def split: if_splits)
  from assms(1,2) new show ?thesis unfolding consistent_def d' by (simp add: subset_insertI2)
qed

lemma consistent_remove_user:
  assumes "consistent d" and "remove_user i t d = Inr (x, d')" shows "consistent d'"
proof -
  have d': "d' = d\<lparr>users := filter (\<lambda>v. usr_id v \<noteq> i) (users d),
      refresh_tokens := filter (\<lambda>t. rt_user_id t \<noteq> i) (refresh_tokens d)\<rparr>"
    using assms(2) by (simp add: remove_user_def)
  have "\<forall>t\<in>set (refresh_tokens d). \<exists>v\<in>set (users d). usr_id v = rt_user_id t"
    using assms(1) by (force simp: consistent_def)
  then have "rt_user_id ` set (refresh_tokens d') \<subseteq> usr_id ` set (users d')"
    unfolding d' by (simp, blast intro: sym)
  with assms(1) show ?thesis unfolding consistent_def d' by (simp add: distinct_map_filter)
qed

lemma consistent_tokens:
  assumes "consistent d" and "users d' = users d" and "map rt_jti (refresh_tokens d') = map rt_jti (refresh_tokens d)"
    and "rt_user_id ` set (refresh_tokens d') \<subseteq> usr_id ` set (users d)"
  shows "consistent d'"
  using assms by (simp add: consistent_def)

interpretation consistency: account_store e consistent "\<lambda>u. lower (usr_email u) = usr_email u"
    "\<lambda>p. lower p = p" "\<lambda>_. True" for e :: web_env
proof (unfold_locales, goal_cases)
  case (2 d u t a d')
  from 2(1,2,4) show ?case by (rule consistent_insert_user)
next
  case (3 d u t a d')
  then show ?case by (rule consistent_store_user)
next
  case (4 d u t x d')
  from 4(1,4) show ?case by (rule consistent_remove_user)
next
  case (5 d k t b d')
  then have d': "d' = d\<lparr>refresh_tokens := refresh_tokens d @ [k\<lparr>rt_created_at := t\<rparr>]\<rparr>"
    and new: "rt_jti k \<notin> rt_jti ` set (refresh_tokens d)" "rt_user_id k \<in> usr_id ` set (users d)"
    by (auto simp: insert_token_def Let_def split: if_splits)
  from 5(1) new show ?case unfolding consistent_def d' by simp
next
  case (6 d k t b d')
  then have d': "d' = d\<lparr>refresh_tokens := map (\<lambda>v. if rt_jti v = rt_jti k then k else v) (refresh_tokens d)\<rparr>"
    and user: "rt_user_id k \<in> usr_id ` set (users d)"
    by (auto simp: store_token_def split: if_splits)
  from 6(1) have owners: "rt_user_id ` set (refresh_tokens d) \<subseteq> usr_id ` set (users d)"
    by (simp add: consistent_def)
  show ?case
    by (rule consistent_tokens [OF 6(1)]) (use user owners in \<open>auto simp: d'\<close>)
next
  case (7 d P now t n d')
  then have d': "users d' = users d" "map rt_jti (refresh_tokens d') = map rt_jti (refresh_tokens d)"
    "map rt_user_id (refresh_tokens d') = map rt_user_id (refresh_tokens d)"
    by (auto simp: revoke_where_def Let_def)
  from d'(3) have "rt_user_id ` set (refresh_tokens d') = rt_user_id ` set (refresh_tokens d)"
    by (metis set_map)
  with 7(1) show ?case
    by (intro consistent_tokens [OF 7(1) d'(1,2)]) (simp add: consistent_def)
next
  case (8 d P t n d')
  then have d': "d' = d\<lparr>refresh_tokens := filter (\<lambda>t. \<not> P t) (refresh_tokens d)\<rparr>"
    by (simp add: remove_tokens_def)
  have "rt_user_id ` set (refresh_tokens d') \<subseteq> rt_user_id ` set (refresh_tokens d)"
    unfolding d' by auto
  with 8(1) show ?case unfolding consistent_def d' by (auto simp: distinct_map_filter)
qed (simp_all add: consistent_def)

end
