(* ===== verification/Account_Correct.thy ===== *)
theory Account_Correct
  imports Account_Store
begin

text \<open>
  What the requests guarantee about accounts and sessions: the consistency of the tables, who the
  administrators are, and the life of a refresh token.
\<close>

section \<open>UUIDs as text\<close>

lemma length_hex_digits [simp]: "length (hex_digits k n) = k"
  by (induction k arbitrary: n) simp_all

lemma hex_val_char [simp]: "d < 16 \<Longrightarrow> hex_val (hex_char d) = Some d"
  by (auto simp: hex_val_def hex_char_def Let_def)

lemma hex_value_append: "hex_value acc (xs @ ys) = (case hex_value acc xs of None \<Rightarrow> None | Some a \<Rightarrow> hex_value a ys)"
  by (induction xs arbitrary: acc) (auto split: option.split)

lemma hex_value_digits: "hex_value 0 (hex_digits k n) = Some (n mod 16 ^ k)"
proof (induction k arbitrary: n)
  case (Suc k)
  have "n mod 16 ^ Suc k = 16 * (n div 16 mod 16 ^ k) + n mod 16"
    by (simp add: mod_mult2_eq)
  with Suc show ?case by (simp add: hex_value_append)
qed simp

lemma hex_digits_chars: "c \<in> set (hex_digits k n) \<Longrightarrow> c \<noteq> CHR ''-'' \<and> c \<noteq> CHR ''u'' \<and> c \<noteq> CHR ''{'' \<and> c \<noteq> CHR ''}''"
proof (induction k arbitrary: n)
  case (Suc k)
  have "hex_char d \<noteq> CHR ''-'' \<and> hex_char d \<noteq> CHR ''u'' \<and> hex_char d \<noteq> CHR ''{'' \<and> hex_char d \<noteq> CHR ''}''"
    if "d < 16" for d
  proof -
    have "\<exists>m. hex_val (hex_char d) = Some m" using that by simp
    then show ?thesis by (auto simp: hex_val_def Let_def)
  qed
  with Suc show ?case by auto
qed simp

lemma remove_absent:
  assumes "p = a # q" and "a \<notin> set s" shows "remove_all p s = s"
  using assms(2)
proof (induction s)
  case Nil
  then show ?case using assms(1) by (simp add: remove_all.simps)
next
  case (Cons c s)
  have "\<not> prefix_of p (c # s)" using Cons.prems assms(1) by auto
  with Cons assms(1) show ?case by (subst remove_all.simps) auto
qed

lemma strip_absent:
  assumes "CHR ''{'' \<notin> set s" and "CHR ''}'' \<notin> set s" shows "strip_braces s = s"
proof -
  have "dropWhile (\<lambda>c. c = CHR ''{'' \<or> c = CHR ''}'') t = t" if "set t = set s" for t
    by (rule dropWhile_id) (metis assms that hd_in_set)
  from this [of s] this [of "rev s"] show ?thesis by (simp only: strip_braces_def Let_def set_rev rev_rev_ident)
qed

lemma cut_in_five:
  "take 8 h @ take 4 (drop 8 h) @ take 4 (drop 12 h) @ take 4 (drop 16 h) @ drop 20 h = h"
proof -
  have "take 4 (drop n h) @ drop (4 + n) h = drop n h" for n
    by (metis append_take_drop_id drop_drop)
  from this [of 16] this [of 12] this [of 8] show ?thesis by (simp add: eval_nat_numeral(3))
qed

lemma uuid_of_str [simp]: "uuid_of (uuid_str u) = Some u"
proof -
  define h where "h = hex_digits 32 (unat u)"
  have written: "uuid_str u = take 8 h @ ''-'' @ take 4 (drop 8 h) @ ''-'' @ take 4 (drop 12 h) @ ''-'' @ take 4 (drop 16 h)
      @ ''-'' @ drop 20 h"
    by (simp only: uuid_str_def Let_def h_def)
  have chars: "c \<noteq> CHR ''-'' \<and> c \<noteq> CHR ''u'' \<and> c \<noteq> CHR ''{'' \<and> c \<noteq> CHR ''}''" if "c \<in> set h" for c
    using that hex_digits_chars unfolding h_def by blast
  have "set (uuid_str u) \<subseteq> insert (CHR ''-'') (set h)"
    unfolding written by (auto dest: in_set_takeD in_set_dropD)
  then have absent: "CHR ''u'' \<notin> set (uuid_str u)" "CHR ''{'' \<notin> set (uuid_str u)" "CHR ''}'' \<notin> set (uuid_str u)"
    using chars by blast+
  have plain: "strip_braces (remove_all ''uuid:'' (remove_all ''urn:'' (uuid_str u))) = uuid_str u"
    using absent by (simp add: remove_absent strip_absent)
  have keep: "filter (\<lambda>c. c \<noteq> CHR ''-'') xs = xs" if "set xs \<subseteq> set h" for xs
    using that chars by (auto simp: filter_id_conv)
  have "filter (\<lambda>c. c \<noteq> CHR ''-'') (uuid_str u)
      = take 8 h @ take 4 (drop 8 h) @ take 4 (drop 12 h) @ take 4 (drop 16 h) @ drop 20 h"
    unfolding written by (simp add: keep set_take_subset set_drop_subset subset_trans [OF set_take_subset])
  then have "filter (\<lambda>c. c \<noteq> CHR ''-'') (uuid_str u) = h" by (simp only: cut_in_five)
  moreover have "length h = 32" by (simp add: h_def del: hex_digits.simps)
  moreover have "hex_value 0 h = Some (unat u)"
  proof -
    have "unat u < 2 ^ LENGTH(128)" by (rule unsigned_less)
    then show ?thesis unfolding h_def hex_value_digits by simp
  qed
  ultimately show ?thesis by (simp add: uuid_of_def Let_def plain)
qed

section \<open>The administrators\<close>

text \<open>Ids are unique and the administrators are those of `A`.\<close>

definition admins_are :: "uuid set \<Rightarrow> web_db \<Rightarrow> bool" where
  "admins_are A d \<longleftrightarrow> distinct (map usr_id (users d)) \<and> usr_id ` {u \<in> set (users d). usr_is_admin u} = A"

lemma admins_are_iff:
  assumes "admins_are A d" and "u \<in> set (users d)" shows "usr_is_admin u \<longleftrightarrow> usr_id u \<in> A"
proof
  assume "usr_id u \<in> A"
  then obtain v where "v \<in> set (users d)" "usr_is_admin v" "usr_id v = usr_id u"
    using assms(1) by (auto simp: admins_are_def)
  then show "usr_is_admin u" using assms by (auto simp: admins_are_def distinct_map inj_on_def)
qed (use assms in \<open>auto simp: admins_are_def\<close>)

lemma admins_are_users:
  assumes "admins_are A d" and "users d' = users d" shows "admins_are A d'"
  using assms by (simp add: admins_are_def)

interpretation admins: account_store e "admins_are A" "\<lambda>u. usr_is_admin u \<longleftrightarrow> usr_id u \<in> A"
    "\<lambda>_. True" "\<lambda>_. True" for e :: web_env and A :: "uuid set"
proof (unfold_locales, goal_cases)
  case (1 d u)
  then show ?case by (rule admins_are_iff)
next
  case (2 d u t a d')
  then have d': "a = u\<lparr>usr_created_at := t\<rparr>" "d' = d\<lparr>users := users d @ [u\<lparr>usr_created_at := t\<rparr>]\<rparr>"
    and new: "usr_id u \<notin> usr_id ` set (users d)"
    by (auto simp: insert_user_def Let_def split: if_splits)
  from 2(1) new have "usr_id u \<notin> A" by (auto simp: admins_are_def)
  with 2(1,3) new show ?case unfolding admins_are_def d' by (auto simp: image_iff)
next
  case (3 d u t a d')
  then have d': "d' = d\<lparr>users := map (\<lambda>v. if usr_id v = usr_id u then u else v) (users d)\<rparr>"
    and old: "usr_id u \<in> usr_id ` set (users d)"
    by (auto simp: store_user_def split: if_splits)
  have ids: "map usr_id (users d') = map usr_id (users d)" unfolding d' by simp
  have "usr_id ` {v \<in> set (users d'). usr_is_admin v} = A"
  proof (intro equalityI subsetI)
    fix i assume "i \<in> usr_id ` {v \<in> set (users d'). usr_is_admin v}"
    then obtain v where v: "v \<in> set (users d')" "usr_is_admin v" "i = usr_id v" by blast
    then have "v = u \<or> v \<in> set (users d)" unfolding d' by auto
    then show "i \<in> A" using v(2,3) 3(2) admins_are_iff [OF 3(1)] by metis
  next
    fix i assume i: "i \<in> A"
    then obtain v where v: "v \<in> set (users d)" "usr_is_admin v" "i = usr_id v"
      using 3(1) by (auto simp: admins_are_def)
    show "i \<in> usr_id ` {v \<in> set (users d'). usr_is_admin v}"
    proof (cases "i = usr_id u")
      case True
      from old obtain w where "w \<in> set (users d)" "usr_id w = usr_id u" by auto
      then have "u \<in> set (users d')" unfolding d' by (auto simp: image_iff)
      with i 3(2) True show ?thesis by blast
    next
      case False
      with v have "v \<in> set (users d')" unfolding d' by force
      with v show ?thesis by blast
    qed
  qed
  with 3(1) ids show ?case by (simp add: admins_are_def)
next
  case (4 d u t x d')
  then have d': "users d' = filter (\<lambda>v. usr_id v \<noteq> usr_id u) (users d)" and "usr_id u \<notin> A"
    by (auto simp: remove_user_def)
  moreover from this have "{v \<in> set (users d'). usr_is_admin v} = {v \<in> set (users d). usr_is_admin v}"
    using 4(1) by (auto simp: admins_are_def) (metis (mono_tags, lifting) imageI mem_Collect_eq)
  ultimately show ?case using 4(1) unfolding admins_are_def by (simp add: distinct_map_filter)
next
  case (5 d k t b d')
  then show ?case by (intro admins_are_users [OF 5(1)]) (auto simp: insert_token_def Let_def split: if_splits)
next
  case (6 d k t b d')
  then show ?case by (intro admins_are_users [OF 6(1)]) (auto simp: store_token_def split: if_splits)
next
  case (7 d P now t n d')
  then show ?case by (intro admins_are_users [OF 7(1)]) (auto simp: revoke_where_def Let_def)
next
  case (8 d P t n d')
  then show ?case by (intro admins_are_users [OF 8(1)]) (auto simp: remove_tokens_def)
qed simp_all

section \<open>Sessions that are over\<close>

text \<open>
  What the theorems rely on of PyJWT and uuid4: a token that was encoded decodes to its own payload
  if it decodes at all, and a new id is not `j`.
\<close>

definition tokens_decode :: "web_env \<Rightarrow> bool" where
  "tokens_decode e \<longleftrightarrow> (\<forall>t p q. jwt_decode e t (jwt_encode e p) = Some q \<longrightarrow> q = p)"

definition never_new :: "web_env \<Rightarrow> uuid \<Rightarrow> bool" where
  "never_new e j \<longleftrightarrow> (\<forall>n. new_uuid e n \<noteq> j)"

definition closed_session :: "uuid \<Rightarrow> web_db \<Rightarrow> bool" where
  "closed_session j d \<longleftrightarrow> (\<forall>t\<in>set (refresh_tokens d). rt_jti t = j \<longrightarrow> rt_revoke t)"

lemma jti_of_payload [simp]: "jti_of (token_payload i k (uuid_str j) t1 t2) = Some j"
  by (simp add: token_payload_def)

lemma issued_is_new:
  assumes "jwt_decode e t (jwt_encode e (token_payload i kind (uuid_str (new_uuid e n)) t1 t2)) = Some q"
    and "jti_of q = Some k"
  shows "tokens_decode e \<and> never_new e j \<longrightarrow> k \<noteq> j"
proof
  assume "tokens_decode e \<and> never_new e j"
  moreover from this have "q = token_payload i kind (uuid_str (new_uuid e n)) t1 t2"
    using assms(1) unfolding tokens_decode_def by blast
  ultimately show "k \<noteq> j" using assms(2) unfolding never_new_def by (metis jti_of_payload option.inject)
qed

interpretation closing: account_store e "\<lambda>d. tokens_decode e \<and> never_new e j \<longrightarrow> closed_session j d" "\<lambda>_. True"
    "\<lambda>_. True" "\<lambda>k. tokens_decode e \<and> never_new e j \<longrightarrow> k \<noteq> j" for e :: web_env and j :: uuid
proof (unfold_locales, goal_cases)
  case (2 d u t a d')
  then show ?case by (auto simp: insert_user_def closed_session_def Let_def split: if_splits)
next
  case (3 d u t a d')
  then show ?case by (auto simp: store_user_def closed_session_def split: if_splits)
next
  case (4 d u t x d')
  then show ?case by (auto simp: remove_user_def closed_session_def)
next
  case (5 d k t b d')
  then show ?case by (auto simp: insert_token_def closed_session_def Let_def split: if_splits)
next
  case (6 d k t b d')
  then show ?case by (auto simp: store_token_def closed_session_def split: if_splits)
next
  case (7 d P now t n d')
  then show ?case by (auto simp: revoke_where_def closed_session_def Let_def)
next
  case (8 d P t n d')
  then show ?case by (auto simp: remove_tokens_def closed_session_def)
qed (simp, simp, simp, simp, simp, erule (1) issued_is_new)

text \<open>The state after a list of requests.\<close>

definition serve_all :: "web_env \<Rightarrow> request list \<Rightarrow> web \<Rightarrow> web" where
  "serve_all e reqs w = foldl (\<lambda>w req. snd (serve e req w)) w reqs"

lemma closed_stays:
  assumes "tokens_decode e" and "never_new e j" and "db_holds (closed_session j) w"
  shows "db_holds (closed_session j) (serve_all e reqs w)"
  using closing.served_keeps [of e j w reqs] assms by (simp add: db_holds_def serve_all_def)

subsection \<open>A closed session is never refreshed\<close>

definition fails :: "'a webio \<Rightarrow> bool" where
  "fails m \<longleftrightarrow> (\<forall>w. returns m (\<lambda>_ _. False) w)"

lemma fails_raise [simp]: "fails (raise x)"
  by (simp add: fails_def returns_raise)

lemma fails_bnd: "(\<And>a. fails (k a)) \<Longrightarrow> fails (bnd m k)"
  unfolding fails_def by (blast intro: returns_bnd returns_any)

lemma fails_if: "fails m \<Longrightarrow> fails n \<Longrightarrow> fails (if c then m else n)"
  by simp

lemma refresh_refused_fails: "fails (refresh_refused e j sub)"
  unfolding refresh_refused_def by (intro fails_bnd fails_if fails_raise)

lemma closed_count:
  "closed_session j d \<Longrightarrow> revoke_where (\<lambda>t. rt_jti t = j) at_time now d = Inr (n, d') \<Longrightarrow> n = 0"
  by (auto simp: revoke_where_def closed_session_def Let_def filter_empty_conv)

lemma closed_refresh_fails:
  assumes decoded: "\<And>t q. jwt_decode e t c = Some q \<Longrightarrow> jti_of q = Some j"
    and closed: "closed_session j (cur (w_db w))"
  shows "returns (refresh_access_token_service e c) (\<lambda>_ _. False) w"
proof -
  have revoked: "returns (revoke_refresh_token e j) (\<lambda>row_count. returns
      (if row_count \<noteq> 1 then refresh_refused e j sub else refresh_rotated e row x) (\<lambda>_ _. False)) u"
    if "closed_session j (cur (w_db u))" for row sub x u
    unfolding revoke_refresh_token_def
  proof (intro returns_bnd returns_now_utc returns_exec)
    fix n d t
    assume "revoke_where (\<lambda>t. rt_jti t = j) (clock e (w_steps u)) t (cur (w_db (u\<lparr>w_steps := Suc (w_steps u)\<rparr>))) = Inr (n, d)"
    with that have "n = 0" using closed_count by fastforce
    then show "returns (if n \<noteq> 1 then refresh_refused e j sub else refresh_rotated e row x) (\<lambda>_ _. False) v" for v
      using refresh_refused_fails by (simp add: fails_def)
  qed
  have step: "returns (revoke_refresh_token e k) (\<lambda>row_count. returns
      (if row_count \<noteq> 1 then refresh_refused e k sub else refresh_rotated e row x) (\<lambda>_ _. False)) u"
    if "jwt_decode e t c = Some q" "field q ''jti'' = JStr s" "uuid_of s = Some k" "cur (w_db u) = cur (w_db w)"
    for k row sub x u t q s
  proof -
    have k: "k = j" using decoded [OF that(1)] that(2,3) by simp
    show ?thesis unfolding k by (rule revoked) (use that(4) closed in simp)
  qed
  show ?thesis
    unfolding refresh_access_token_service_def get_refresh_token_by_jti_def
    by (intro returns_bnd returns_decode returns_let returns_if returns_raise returns_claim_uuid returns_query
        returns_case_option) (auto intro: step simp del: One_nat_def)
qed

text \<open>
  C25. A refresh token whose session is closed (its row revoked or gone) never works again: after any
  further requests, by anybody, a refresh with it is refused.  This rests on PyJWT decoding a token
  to the payload it was made from and on uuid4 not giving an id twice.
\<close>

theorem refresh_single_use:
  assumes "tokens_decode e" and "never_new e j"
    and "\<And>t q. jwt_decode e t c = Some q \<Longrightarrow> jti_of q = Some j"
    and "closed_session j (cur (w_db w))" and "closed_session j (saved (w_db w))"
  shows "\<forall>r. rs_body (fst (serve e (Refresh (Some c)) (serve_all e reqs w))) \<noteq> Success r"
proof -
  let ?w = "serve_all e reqs w"
  have closed: "closed_session j (cur (w_db ?w))"
    using closed_stays [of e j w reqs] assms by (simp add: db_holds_def)
  have refused: "\<forall>r. rs_body (handle_exception x) \<noteq> Success r" for x
    by (cases x rule: handle_exception.cases) (simp_all add: error_response_def dependency_unavailable_def)
  have "returns (endpoint e (Refresh (Some c))) (\<lambda>_ _. False) ?w"
    unfolding endpoint.simps refresh_access_token_def option.case
    by (rule returns_bnd, rule returns_mono [OF closed_refresh_fails]) (use assms(3) closed in auto)
  then obtain x w' where "endpoint e (Refresh (Some c)) ?w = (Inl x, w')"
    by (cases "endpoint e (Refresh (Some c)) ?w"; cases "fst (endpoint e (Refresh (Some c)) ?w)")
      (auto simp: returns_def wp_def)
  then have "fst (serve e (Refresh (Some c)) ?w) = handle_exception x"
    by (simp add: serve_def respond_def in_session_def handle_def bnd_def web_rollback_def update_def raise_def ret_def
        del: endpoint.simps)
  with refused show ?thesis by simp
qed

subsection \<open>What a refresh issues\<close>

lemma py_round_int [simp]: "py_round (of_int i) = i"
  by (simp add: py_round_def)

lemma date_claim_back:
  assumes "from_timestamp (date_claim t) w = (Inr x, w')" shows "x = t div 1000000 * 1000000"
proof -
  have "py_round (of_int (t div 1000000) * 1000000) = t div 1000000 * 1000000"
    by (metis of_int_mult of_int_numeral py_round_int)
  then show ?thesis using assms by (auto simp: date_claim_def of_seconds_def split: if_splits)
qed

lemma returns_generate_refresh:
  assumes "\<And>t1. Q (jwt_encode e (token_payload i ''refresh'' (uuid_str (new_uuid e (Suc (w_steps w)))) t1
      (case x of Some t \<Rightarrow> t | None \<Rightarrow> t1 + refresh_token_expire_days e * 86400000000)))
      (w\<lparr>w_steps := Suc (Suc (w_steps w))\<rparr>)"
  shows "returns (generate_refresh_token e i x) Q w"
  unfolding generate_refresh_token_def
  by (intro returns_bnd returns_now_utc returns_wtick returns_let returns_ret) (use assms in \<open>auto simp: split: option.split\<close>)

text \<open>The row of a new session, and the database with it.\<close>

definition session_row :: "uuid \<Rightarrow> uuid \<Rightarrow> datetime \<Rightarrow> datetime \<Rightarrow> refresh_token" where
  "session_row j i expires created = \<lparr>rt_jti = j, rt_user_id = i, rt_revoke = False, rt_revoked_at = None,
     rt_expires_at = expires, rt_created_at = created\<rparr>"

definition opens_session :: "web_env \<Rightarrow> uuid \<Rightarrow> datetime \<Rightarrow> web_db \<Rightarrow> web_db \<Rightarrow> bool" where
  "opens_session e i expires d d' \<longleftrightarrow> (\<exists>n created. new_uuid e n \<notin> rt_jti ` set (refresh_tokens d)
     \<and> i \<in> usr_id ` set (users d)
     \<and> d' = d\<lparr>refresh_tokens := refresh_tokens d @ [session_row (new_uuid e n) i expires created]\<rparr>)"

lemma token_fields [simp]:
  "field (token_payload i k j t1 t2) ''exp'' = date_claim t2" "field (token_payload i k j t1 t2) ''jti'' = JStr j"
  "field (token_payload i k j t1 t2) ''sub'' = JStr (uuid_str i)"
  by (simp_all add: token_payload_def)

lemma returns_save:
  assumes "\<And>created d'. new_uuid e n \<notin> rt_jti ` set (refresh_tokens (cur (w_db w)))
      \<Longrightarrow> i \<in> usr_id ` set (users (cur (w_db w)))
      \<Longrightarrow> d' = (cur (w_db w))\<lparr>refresh_tokens := refresh_tokens (cur (w_db w))
             @ [session_row (new_uuid e n) i (t2 div 1000000 * 1000000) created]\<rparr>
      \<Longrightarrow> Q (w\<lparr>w_steps := Suc (w_steps w), w_db := (w_db w)\<lparr>tx_time := Some created, cur := d'\<rparr>\<rparr>)"
  shows "returns (save_refresh_token e (token_payload i k (uuid_str (new_uuid e n)) t1 t2)) (\<lambda>_. Q) w"
proof -
  have "returns (insert_claimed e (JStr (uuid_str (new_uuid e n))) i (t2 div 1000000 * 1000000)) (\<lambda>_. Q) w"
    unfolding insert_claimed.simps uuid_of_str option.case create_refresh_token_def
  proof (rule returns_exec)
    fix a d' t
    assume ins: "insert_token \<lparr>rt_jti = new_uuid e n, rt_user_id = i, rt_revoke = False, rt_revoked_at = None,
      rt_expires_at = t2 div 1000000 * 1000000, rt_created_at = 0\<rparr> t (cur (w_db w)) = Inr (a, d')"
    show "Q (w\<lparr>w_steps := Suc (w_steps w), w_db := w_db w\<lparr>tx_time := Some t, cur := d'\<rparr>\<rparr>)"
      by (rule assms [of d' t]) (use ins in \<open>auto simp: insert_token_def session_row_def Let_def split: if_splits\<close>)
  qed
  then show ?thesis
    unfolding save_refresh_token_def
    by (intro returns_bnd returns_subscript returns_from_timestamp returns_claim_uuid)
      (auto dest: date_claim_back)
qed

lemma issue_opens:
  assumes "tokens_decode e"
  shows "returns (issue_tokens e i x) (\<lambda>_ w'. \<exists>t1. opens_session e i
     ((case x of Some t \<Rightarrow> t | None \<Rightarrow> t1 + refresh_token_expire_days e * 86400000000) div 1000000 * 1000000)
     (cur (w_db w)) (cur (w_db w')) \<and> saved (w_db w') = saved (w_db w) \<and> w_queue w' = w_queue w) w"
  unfolding issue_tokens_def
proof (intro returns_bnd returns_generate_refresh returns_decode)
  fix t1 q
  let ?t2 = "case x of Some t \<Rightarrow> t | None \<Rightarrow> t1 + refresh_token_expire_days e * 86400000000"
  let ?p = "token_payload i ''refresh'' (uuid_str (new_uuid e (Suc (w_steps w)))) t1 ?t2"
  let ?w = "w\<lparr>w_steps := Suc (Suc (w_steps w))\<rparr>"
  assume "jwt_decode e (clock e (w_steps ?w)) (jwt_encode e ?p) = Some q"
  with assms have q: "q = ?p" unfolding tokens_decode_def by blast
  show "returns (save_refresh_token e q) (\<lambda>_. returns (bnd (generate_access_token e i)
      (\<lambda>a. ret \<lparr>refresh_token_of = jwt_encode e ?p, access_token_of = a\<rparr>))
      (\<lambda>_ w'. \<exists>t1. opens_session e i
     ((case x of Some t \<Rightarrow> t | None \<Rightarrow> t1 + refresh_token_expire_days e * 86400000000) div 1000000 * 1000000)
     (cur (w_db w)) (cur (w_db w')) \<and> saved (w_db w') = saved (w_db w) \<and> w_queue w' = w_queue w))
      (?w\<lparr>w_steps := Suc (w_steps ?w)\<rparr>)"
    unfolding q
    by (intro returns_save returns_bnd returns_redis_only redis_rules returns_ret)
      (auto simp: rest_of_eq opens_session_def intro!: exI)
qed

lemma find_in_set: "find P xs = Some x \<Longrightarrow> x \<in> set xs \<and> P x"
  by (auto simp: find_Some_iff)

lemma revoke_one:
  assumes "distinct (map rt_jti (refresh_tokens d))" and "row \<in> set (refresh_tokens d)" and "j = rt_jti row"
    and "revoke_where (\<lambda>t. rt_jti t = j) at_time now d = Inr (n, d')" and "n = 1"
  shows "\<not> rt_revoke row \<and> d' = d\<lparr>refresh_tokens := map (\<lambda>t. if rt_jti t = rt_jti row
    then t\<lparr>rt_revoke := True, rt_revoked_at := Some at_time\<rparr> else t) (refresh_tokens d)\<rparr>"
proof -
  have only: "t = row" if "t \<in> set (refresh_tokens d)" "rt_jti t = rt_jti row" for t
    using assms(1,2) that by (auto simp: distinct_map inj_on_def)
  have "length (filter (\<lambda>t. rt_jti t = j \<and> \<not> rt_revoke t) (refresh_tokens d)) = 1"
    using assms(4,5) by (simp add: revoke_where_def Let_def)
  then have "filter (\<lambda>t. rt_jti t = j \<and> \<not> rt_revoke t) (refresh_tokens d) \<noteq> []" by auto
  then obtain t where "t \<in> set (refresh_tokens d)" "rt_jti t = j" "\<not> rt_revoke t"
    by (auto simp: filter_empty_conv)
  with only assms(3) have open_row: "\<not> rt_revoke row" by auto
  have "map (\<lambda>t. if rt_jti t = j \<and> \<not> rt_revoke t then t\<lparr>rt_revoke := True, rt_revoked_at := Some at_time\<rparr> else t) (refresh_tokens d)
    = map (\<lambda>t. if rt_jti t = rt_jti row then t\<lparr>rt_revoke := True, rt_revoked_at := Some at_time\<rparr> else t) (refresh_tokens d)"
    using only open_row assms(3) by (intro map_cong) auto
  then show ?thesis using open_row assms(4) by (auto simp: revoke_where_def Let_def)
qed

text \<open>What a refresh does: `row` is revoked and a session of the same user and end is opened.\<close>

definition rotated :: "web_env \<Rightarrow> refresh_token \<Rightarrow> datetime \<Rightarrow> web_db \<Rightarrow> web_db \<Rightarrow> bool" where
  "rotated e row expires d d' \<longleftrightarrow> row \<in> set (refresh_tokens d) \<and> \<not> rt_revoke row
     \<and> (\<exists>at_time. opens_session e (rt_user_id row) expires
           (d\<lparr>refresh_tokens := map (\<lambda>t. if rt_jti t = rt_jti row
              then t\<lparr>rt_revoke := True, rt_revoked_at := Some at_time\<rparr> else t) (refresh_tokens d)\<rparr>) d')"

lemma rotation:
  assumes "tokens_decode e" and "distinct (map rt_jti (refresh_tokens (cur (w_db w))))"
  shows "returns (refresh_access_token_service e c) (\<lambda>_ w'. \<exists>q row x.
     jwt_decode e (clock e (w_steps w)) c = Some q \<and> jti_of q = Some (rt_jti row)
     \<and> from_timestamp (field q ''exp'') w = (Inr x, w)
     \<and> rotated e row (x div 1000000 * 1000000) (cur (w_db w)) (cur (w_db w'))) w"
  unfolding refresh_access_token_service_def get_refresh_token_by_jti_def
proof (intro returns_bnd returns_decode returns_let returns_if returns_raise returns_claim_uuid returns_query
    returns_case_option)
  fix q s j t row
  let ?Q = "\<lambda>_ w'. \<exists>q row x. jwt_decode e (clock e (w_steps w)) c = Some q \<and> jti_of q = Some (rt_jti row)
     \<and> from_timestamp (field q ''exp'') w = (Inr x, w)
     \<and> rotated e row (x div 1000000 * 1000000) (cur (w_db w)) (cur (w_db w'))"
  let ?u = "w\<lparr>w_steps := Suc (w_steps w)\<rparr>"
  let ?v = "?u\<lparr>w_steps := Suc (w_steps ?u), w_db := w_db ?u\<lparr>tx_time := Some t\<rparr>\<rparr>"
  assume q: "jwt_decode e (clock e (w_steps w)) c = Some q" "field q ''jti'' = JStr s" "uuid_of s = Some j"
    and row: "find (\<lambda>t. rt_jti t = j) (refresh_tokens (cur (w_db ?u))) = Some row"
  have found: "row \<in> set (refresh_tokens (cur (w_db w)))" "rt_jti row = j"
    using find_in_set [OF row] by simp_all
  show "returns (revoke_refresh_token e j) (\<lambda>n. returns
      (if n \<noteq> 1 then refresh_refused e j (field q ''sub'') else refresh_rotated e row (field q ''exp'')) ?Q) ?v"
    unfolding revoke_refresh_token_def
  proof (intro returns_bnd returns_now_utc returns_exec returns_if)
    fix n d t'
    assume "n \<noteq> 1"
    show "returns (refresh_refused e j (field q ''sub'')) ?Q z" for z
      using refresh_refused_fails unfolding fails_def by (blast intro: returns_mono)
  next
    fix n d t'
    let ?z = "?v\<lparr>w_steps := Suc (w_steps ?v)\<rparr>"
    let ?y = "?z\<lparr>w_steps := Suc (w_steps ?z), w_db := w_db ?z\<lparr>tx_time := Some t', cur := d\<rparr>\<rparr>"
    assume one: "\<not> n \<noteq> 1"
      and upd: "revoke_where (\<lambda>t. rt_jti t = j) (clock e (w_steps ?v)) t' (cur (w_db ?z)) = Inr (n, d)"
    have revoked: "\<not> rt_revoke row \<and> d = (cur (w_db w))\<lparr>refresh_tokens := map (\<lambda>t. if rt_jti t = rt_jti row
        then t\<lparr>rt_revoke := True, rt_revoked_at := Some (clock e (w_steps ?v))\<rparr> else t) (refresh_tokens (cur (w_db w)))\<rparr>"
      by (rule revoke_one [OF assms(2) found(1) found(2) [symmetric], of _ t' n d]) (use upd one in simp_all)
    show "returns (refresh_rotated e row (field q ''exp'')) ?Q ?y"
      unfolding refresh_rotated_def
    proof (intro returns_bnd returns_from_timestamp)
      fix x assume x: "from_timestamp (field q ''exp'') ?y = (Inr x, ?y)"
      show "returns (issue_tokens e (rt_user_id row) (Some x)) ?Q ?y"
        by (rule returns_mono [OF issue_opens [OF assms(1)]])
          (use q found revoked from_timestamp_pure [OF x, of w] in \<open>auto simp: rotated_def intro!: exI\<close>)
    qed
  qed
qed

text \<open>
  C26. A refresh that returns has found an open session with the token's id, revoked it and opened one
  new session of the same user that ends when the token did (in whole seconds); every other session
  and all accounts are as before.
\<close>

theorem refresh_rotates:
  assumes "refresh_access_token_service e c w = (Inr p, w')" and "tokens_decode e"
    and "distinct (map rt_jti (refresh_tokens (cur (w_db w))))"
  shows "\<exists>q row x. jwt_decode e (clock e (w_steps w)) c = Some q \<and> jti_of q = Some (rt_jti row)
     \<and> from_timestamp (field q ''exp'') w = (Inr x, w)
     \<and> rotated e row (x div 1000000 * 1000000) (cur (w_db w)) (cur (w_db w'))"
  using returnsD [OF rotation [OF assms(2,3)] assms(1)] .

section \<open>The tables after any requests\<close>

text \<open>
  C27. Whatever requests are served and whatever fails, the committed tables stay consistent (ids,
  addresses and token ids are unique, every session belongs to a user, addresses are in lower case)
  and the administrators stay the same.
\<close>

theorem requests_keep_tables:
  assumes "consistent (cur (w_db w))" and "consistent (saved (w_db w))"
    and "usr_id ` {u \<in> set (users (cur (w_db w))). usr_is_admin u} = A"
    and "usr_id ` {u \<in> set (users (saved (w_db w))). usr_is_admin u} = A"
  shows "consistent (saved (w_db (serve_all e reqs w)))
     \<and> usr_id ` {u \<in> set (users (saved (w_db (serve_all e reqs w)))). usr_is_admin u} = A"
proof -
  have "db_holds consistent (serve_all e reqs w)"
    unfolding serve_all_def by (rule consistency.served_keeps) (simp add: db_holds_def assms(1,2))
  moreover have "db_holds (admins_are A) (serve_all e reqs w)"
    unfolding serve_all_def
    by (rule admins.served_keeps) (use assms in \<open>simp add: db_holds_def admins_are_def consistent_def\<close>)
  ultimately show ?thesis by (simp add: db_holds_def admins_are_def)
qed

section \<open>A small world\<close>

text \<open>
  A world for the concrete instances: user 1 with the open session 5, whose refresh token is `old`;
  the next token issued is `new`.
\<close>

definition old_payload :: json where
  "old_payload = token_payload 1 ''refresh'' (uuid_str 5) 0 2000000000"

definition new_payload :: json where
  "new_payload = token_payload 1 ''refresh'' (uuid_str 7) 1000000000 2000000000"

definition small_env :: web_env where
  "small_env = \<lparr>clock = \<lambda>_. 1000000000, new_uuid = \<lambda>_. 7, new_secret = \<lambda>_. ''s'', hashpw = \<lambda>_ p. p,
     checkpw = \<lambda>p h. p = h, jwt_encode = \<lambda>p. if p = new_payload then ''new'' else ''other'',
     jwt_decode = \<lambda>_ s. if s = ''old'' then Some old_payload else if s = ''new'' then Some new_payload else None,
     web_db_fault = \<lambda>_. None, redis_fault = \<lambda>_. None, broker_down = \<lambda>_. False, collation = map of_char,
     validate_email = Some, http_secure = False, missing_credentials = (403, ''Not authenticated''),
     access_token_expire_minutes = 30, refresh_token_expire_days = 7, refresh_grace_seconds = 10\<rparr>"

definition small_user :: user where
  "small_user = \<lparr>usr_id = 1, usr_email = ''a'', usr_username = ''abc'', usr_password = ''p'', usr_is_admin = False,
     usr_is_verified = True, usr_created_at = 0\<rparr>"

definition small_session :: refresh_token where
  "small_session = session_row 5 1 2000000000 0"

definition world_of :: "web_db \<Rightarrow> web" where
  "world_of d = \<lparr>w_db = fresh_session d, w_redis = \<lparr>keys = [], zsets = []\<rparr>, w_queue = [], w_slept = [], w_steps = 0\<rparr>"

definition small_web :: web where
  "small_web = world_of \<lparr>users = [small_user], refresh_tokens = [small_session]\<rparr>"

lemma small_decodes [simp]: "tokens_decode small_env"
  by (simp add: tokens_decode_def small_env_def)

lemma small_consistent:
  "consistent (cur (w_db small_web))" "consistent (saved (w_db small_web))"
  by (simp_all add: consistent_def small_web_def world_of_def fresh_session_def small_user_def small_session_def
      session_row_def lower_def lower_char_def)

lemma requests_keep_tables_witness:
  "consistent (saved (w_db (serve_all small_env [Refresh (Some ''old''), ForgotPassword ''a''] small_web)))
   \<and> usr_id ` {u \<in> set (users (saved (w_db (serve_all small_env [Refresh (Some ''old''), ForgotPassword ''a''] small_web)))).
       usr_is_admin u} = {}"
  by (rule requests_keep_tables [OF small_consistent])
    (simp_all add: small_web_def world_of_def fresh_session_def small_user_def)

lemma refresh_single_use_witness:
  "\<forall>r. rs_body (fst (serve small_env (Refresh (Some ''old''))
     (serve_all small_env [ForgotPassword ''a''] (world_of \<lparr>users = [small_user], refresh_tokens = []\<rparr>)))) \<noteq> Success r"
proof (rule refresh_single_use [where j = 5])
  show "never_new small_env 5" by (simp add: never_new_def small_env_def)
  fix t q assume "jwt_decode small_env t ''old'' = Some q"
  then show "jti_of q = Some 5" by (auto simp: small_env_def old_payload_def token_payload_def)
qed (simp_all add: closed_session_def world_of_def fresh_session_def)

lemmas service_defs = refresh_access_token_service_def refresh_rotated_def issue_tokens_def save_refresh_token_def
  create_refresh_token_def get_refresh_token_by_jti_def revoke_refresh_token_def generate_refresh_token_def
  generate_access_token_def track_access_token_def decode_token_def

lemmas effect_defs = web_exec_def web_query_def redis_do_def redis_zremrangebyscore_def redis_zadd_def wtick_def
  now_utc_def bnd_def ret_def raise_def

lemma small_refresh: "\<exists>p w'. refresh_access_token_service small_env ''old'' small_web = (Inr p, w')"
proof -
  have at: "field new_payload ''exp'' = JInt 2000" "field new_payload ''type'' = JStr ''refresh''"
    "field new_payload ''jti'' = JStr (uuid_str 7)" "field new_payload ''sub'' = JStr (uuid_str 1)"
    "field old_payload ''exp'' = JInt 2000" "field old_payload ''type'' = JStr ''refresh''"
    "field old_payload ''jti'' = JStr (uuid_str 5)" "field old_payload ''sub'' = JStr (uuid_str 1)"
    by (simp_all add: new_payload_def old_payload_def token_payload_def date_claim_def)
  have sub: "subscript new_payload k = ret (field new_payload k)" if "k \<in> {''exp'', ''jti'', ''sub''}" for k
    using that by (auto simp: new_payload_def token_payload_def)
  have stamp: "of_seconds 2000 = ret 2000000000"
    by (simp add: of_seconds_def py_round_int [of 2000000000, simplified])
  have next_token: "jwt_encode small_env (token_payload 1 ''refresh'' (uuid_str 7) 1000000000 2000000000) = ''new''"
    by (simp add: small_env_def new_payload_def)
  have env: "clock small_env n = 1000000000" "new_uuid small_env n = 7" "web_db_fault small_env n = None"
    "redis_fault small_env n = None" "jwt_decode small_env t ''old'' = Some old_payload"
    "jwt_decode small_env t ''new'' = Some new_payload" for n t
    by (simp_all add: small_env_def)
  show ?thesis
    unfolding small_web_def world_of_def
    by (simp add: service_defs effect_defs at sub stamp next_token env fresh_session_def Let_def revoke_where_def
        insert_token_def small_session_def session_row_def small_user_def split_beta)
qed

lemma refresh_rotates_witness:
  "\<exists>p w' q row x. refresh_access_token_service small_env ''old'' small_web = (Inr p, w')
     \<and> jti_of q = Some (rt_jti row) \<and> from_timestamp (field q ''exp'') small_web = (Inr x, small_web)
     \<and> rotated small_env row (x div 1000000 * 1000000) (cur (w_db small_web)) (cur (w_db w'))"
proof -
  from small_refresh obtain p w' where "refresh_access_token_service small_env ''old'' small_web = (Inr p, w')" by blast
  moreover have "distinct (map rt_jti (refresh_tokens (cur (w_db small_web))))"
    using small_consistent by (simp add: consistent_def)
  ultimately show ?thesis using refresh_rotates small_decodes by blast
qed

end
