(* ===== verification/Request_Correct.thy ===== *)
theory Request_Correct
  imports Account_Correct
begin

text \<open>
  What single requests guarantee: who may call, what a login needs, what a bulk delete does, and how long a
  revocation lasts.
\<close>

section \<open>Programs that leave a part of the state as it is\<close>

named_theorems same_rules \<open>programs that leave a part of the state as it is\<close>

definition same :: "(web \<Rightarrow> 'v) \<Rightarrow> 'a webio \<Rightarrow> bool" where
  "same f m \<longleftrightarrow> (\<forall>v. keeps (\<lambda>w. f w = v) m)"

lemma sameD: "same f m \<Longrightarrow> m w = (r, w') \<Longrightarrow> f w' = f w"
  unfolding same_def by (rule keepsD [of "\<lambda>v. f v = f w" m w r w']) (rule spec, assumption+, rule refl)

lemma same_pure [same_rules]: "same f (ret a)" "same f (raise x)"
  by (simp_all add: same_def)

lemma same_bnd [same_rules]: "same f m \<Longrightarrow> (\<And>a. same f (k a)) \<Longrightarrow> same f (bnd m k)"
  by (simp add: same_def keeps_bnd)

lemma same_handle [same_rules]: "same f m \<Longrightarrow> (\<And>x. same f (h x)) \<Longrightarrow> same f (handle m h)"
  by (simp add: same_def keeps_handle)

lemma same_if [same_rules]: "(c \<Longrightarrow> same f m) \<Longrightarrow> (\<not> c \<Longrightarrow> same f n) \<Longrightarrow> same f (if c then m else n)"
  by simp

lemma same_case [same_rules]:
  "same f m \<Longrightarrow> (\<And>a. same f (k a)) \<Longrightarrow> same f (case z of None \<Rightarrow> m | Some a \<Rightarrow> k a)"
  by (simp split: option.split)

lemma same_let [same_rules]: "same f (k v) \<Longrightarrow> same f (let y = v in k y)"
  by simp

text \<open>All but the clock and the state of the transaction.\<close>

definition data_of :: "web \<Rightarrow> web_db \<times> web_db \<times> redis \<times> (email_task \<times> string \<times> string) list" where
  "data_of w = (cur (w_db w), saved (w_db w), w_redis w, w_queue w)"

lemma data_of_simps [simp]: "data_of (w\<lparr>w_steps := n\<rparr>) = data_of w"
  by (simp add: data_of_def)

lemma same_tick [same_rules]: "same data_of wtick" "same data_of (now_utc e)"
proof -
  show t: "same data_of wtick" by (simp add: same_def keeps_def wtick_def)
  show "same data_of (now_utc e)" unfolding now_utc_def by (intro same_rules t)
qed

lemma same_query [same_rules]: "same data_of (web_exec e (web_query f))"
  unfolding same_def keeps_def
  by (auto simp: web_exec_def web_query_def bnd_def wtick_def data_of_def Let_def split: option.split)

lemma same_refused [same_rules]: "same data_of (web_exec e (\<lambda>_ _. Inl x))"
  unfolding same_def keeps_def
  by (auto simp: web_exec_def bnd_def wtick_def data_of_def Let_def split: option.split)

lemma same_exists [same_rules]: "same data_of (redis_exists e k)"
  unfolding same_def keeps_def
  by (auto simp: redis_exists_def redis_do_def bnd_def wtick_def data_of_def split: option.split)

lemma same_claims [same_rules]: "same f (claim_uuid c)"
  by (cases c) (auto intro!: same_rules split: option.split)

lemma same_decode [same_rules]: "same data_of (decode_token e c k)"
  unfolding decode_token_def by (intro same_rules)

lemma same_reads [same_rules]:
  "same data_of (get_user_by_id e i)" "same data_of (get_user_by_email e p)"
  "same data_of (get_refresh_token_by_jti e j)"
  unfolding get_user_by_id_def get_user_by_email_def get_refresh_token_by_jti_def by (rule same_query)+

lemma same_by_claim [same_rules]: "same data_of (get_refresh_token_by_claim e c)"
  by (cases "(e, c)" rule: get_refresh_token_by_claim.cases) (auto intro!: same_rules split: option.split)

lemma same_callers [same_rules]:
  "same data_of (authenticated e c)" "same data_of (require_admin e c)" "same data_of (get_current_user e c)"
  "same data_of (bearer e b)"
  unfolding require_admin_def get_current_user_def authenticated_def is_token_revoked_def bearer_def
  by (intro same_rules)+

section \<open>Who may call\<close>

text \<open>The user that bearer credentials stand for, as the specification has it.\<close>

definition caller_of :: "web_env \<Rightarrow> web \<Rightarrow> string option \<Rightarrow> user option" where
  "caller_of e w credentials = (case credentials of None \<Rightarrow> None
     | Some c \<Rightarrow> (case jwt_decode e (clock e (w_steps w)) c of None \<Rightarrow> None
       | Some q \<Rightarrow>
           if field q ''type'' \<noteq> JStr ''access''
              \<or> live_key (seconds (clock e (Suc (w_steps w)))) (w_redis w) (revoked_key (claim_text (field q ''jti''))) \<noteq> None
           then None
           else (case field q ''sub'' of JStr s \<Rightarrow>
                   (case uuid_of s of None \<Rightarrow> None | Some i \<Rightarrow> find (\<lambda>u. usr_id u = i) (users (cur (w_db w))))
                 | _ \<Rightarrow> None)))"

lemma returns_exists:
  assumes "Q (live_key (seconds (clock e (w_steps w))) (w_redis w) k \<noteq> None) (w\<lparr>w_steps := Suc (w_steps w)\<rparr>)"
  shows "returns (redis_exists e k) Q w"
  using assms
  by (cases w) (auto simp: returns_def wp_def redis_exists_def redis_do_def bnd_def wtick_def split: option.split)

lemma authenticated_returns:
  assumes "\<And>q. jwt_decode e (clock e (w_steps w)) c = Some q \<Longrightarrow> field q ''type'' = JStr ''access''
      \<Longrightarrow> live_key (seconds (clock e (Suc (w_steps w)))) (w_redis w) (revoked_key (claim_text (field q ''jti''))) = None
      \<Longrightarrow> Q (field q ''sub'') (w\<lparr>w_steps := Suc (Suc (w_steps w))\<rparr>)"
  shows "returns (authenticated e c) Q w"
  unfolding authenticated_def is_token_revoked_def
  by (intro returns_bnd returns_decode returns_if returns_raise returns_exists returns_ret) (use assms in auto)

lemma require_admin_returns:
  "returns (bnd (bearer e b) (require_admin e)) (\<lambda>u _. caller_of e w b = Some u \<and> usr_is_admin u) w"
  unfolding require_admin_def bearer_def get_user_by_id_def
  by (cases b; intro returns_bnd returns_case_option returns_ret returns_raise authenticated_returns
        returns_claim_uuid returns_query returns_if)
    (auto simp: caller_of_def)

lemma get_current_user_returns:
  "returns (bnd (bearer e b) (get_current_user e)) (\<lambda>u _. caller_of e w b = Some u) w"
  unfolding get_current_user_def bearer_def get_user_by_id_def
  by (cases b; intro returns_bnd returns_case_option returns_ret returns_raise authenticated_returns
        returns_claim_uuid returns_query returns_if)
    (auto simp: caller_of_def)

text \<open>The credentials of the requests that need a user, or an administrator.\<close>

fun user_request :: "request \<Rightarrow> string option option" where
  "user_request (Me c) = Some c"
| "user_request (UpdatePassword c _ _ _) = Some c"
| "user_request (UpdateEmail c _) = Some c"
| "user_request (UpdateUser c _) = Some c"
| "user_request (DeleteUser c) = Some c"
| "user_request _ = None"

fun admin_request :: "request \<Rightarrow> string option option" where
  "admin_request (AdminGetUser c _) = Some c"
| "admin_request (AdminListUsers c _ _ _ _) = Some c"
| "admin_request (AdminUpdateEmail c _ _) = Some c"
| "admin_request (AdminDeleteUser c _) = Some c"
| "admin_request (AdminBulkDelete c _) = Some c"
| "admin_request _ = None"

lemma stopped_request:
  assumes "same data_of m" and "returns m (\<lambda>_ _. False) w" and "endpoint e req = bnd m k"
  shows "(\<forall>b. rs_body (fst (serve e req w)) \<noteq> Success b) \<and> saved (w_db (snd (serve e req w))) = saved (w_db w)
     \<and> w_redis (snd (serve e req w)) = w_redis w \<and> w_queue (snd (serve e req w)) = w_queue w"
proof -
  obtain x w' where m: "m w = (Inl x, w')"
    using assms(2) by (cases "m w"; cases "fst (m w)") (auto simp: returns_def wp_def)
  then have served: "serve e req w = (handle_exception x, w'\<lparr>w_db := sess_rollback (w_db w')\<rparr>)"
    using assms(3) by (simp add: serve_def respond_def in_session_def handle_def bnd_def web_rollback_def update_def
        raise_def ret_def del: endpoint.simps)
  moreover have "\<forall>b. rs_body (handle_exception x) \<noteq> Success b"
    by (cases x rule: handle_exception.cases) (simp_all add: error_response_def dependency_unavailable_def)
  moreover have "data_of w' = data_of w" using assms(1) m by (rule sameD)
  ultimately show ?thesis by (simp add: data_of_def)
qed

text \<open>
  C28. A request that needs a user is refused and changes nothing (no row, nothing in Redis, no email)
  unless its access token decodes, is not revoked and names a user of the table; an administrator's
  request also unless that user is an administrator.
\<close>

theorem callers_checked:
  assumes "user_request req = Some c \<and> caller_of e w c = None
     \<or> admin_request req = Some c \<and> (\<forall>u. caller_of e w c = Some u \<longrightarrow> \<not> usr_is_admin u)"
  shows "(\<forall>b. rs_body (fst (serve e req w)) \<noteq> Success b) \<and> saved (w_db (snd (serve e req w))) = saved (w_db w)
     \<and> w_redis (snd (serve e req w)) = w_redis w \<and> w_queue (snd (serve e req w)) = w_queue w"
  using assms
proof (elim disjE conjE)
  assume req: "user_request req = Some c" and none: "caller_of e w c = None"
  from req obtain k where k: "endpoint e req = bnd (bnd (bearer e c) (get_current_user e)) k"
    by (cases req) (auto simp: get_user_def update_user_password_def update_user_email_def update_user_user_def
        delete_user_endpoint_def as_user_def bnd_assoc)
  show ?thesis
    by (rule stopped_request [OF _ _ k]) (intro same_rules, rule returns_mono [OF get_current_user_returns], use none in simp)
next
  assume req: "admin_request req = Some c" and none: "\<forall>u. caller_of e w c = Some u \<longrightarrow> \<not> usr_is_admin u"
  from req obtain k where k: "endpoint e req = bnd (bnd (bearer e c) (require_admin e)) k"
    by (cases req) (auto simp: get_user_by_id_endpoint_def get_all_users_def update_user_endpoint_def
        admin_delete_user_def bulk_delete_users_def as_admin_def bnd_assoc)
  show ?thesis
    by (rule stopped_request [OF _ _ k]) (intro same_rules, rule returns_mono [OF require_admin_returns], use none in blast)
qed

lemma callers_checked_witness:
  "(\<forall>b. rs_body (fst (serve small_env (Me (Some ''old'')) small_web)) \<noteq> Success b)
   \<and> saved (w_db (snd (serve small_env (Me (Some ''old'')) small_web))) = saved (w_db small_web)
   \<and> w_redis (snd (serve small_env (Me (Some ''old'')) small_web)) = w_redis small_web
   \<and> w_queue (snd (serve small_env (Me (Some ''old'')) small_web)) = w_queue small_web"
  by (rule callers_checked [where c = "Some ''old''"])
    (simp add: caller_of_def small_env_def old_payload_def token_payload_def)

section \<open>Login\<close>

lemma same_already [same_rules]: "same data_of (already_logged_in e c)"
  unfolding already_logged_in_def by (intro same_rules)

lemma returns_same:
  assumes "same data_of m" and "\<And>a w'. data_of w' = data_of w \<Longrightarrow> Q a w'" shows "returns m Q w"
  unfolding returns_def by (rule wpI) (auto intro: assms(2) dest: sameD [OF assms(1)])

text \<open>
  C29. A login that returns is one of a verified user with this very address and password, and opens one
  session of that user and changes no other row.  Addresses are stored in lower case and a login does not
  convert the one it is given, so the address of a login that returns is in lower case.
\<close>

theorem login_checks:
  assumes "login_service e email password cookie w = (Inr p, w')" and "tokens_decode e"
    and "consistent (cur (w_db w))"
  shows "\<exists>u\<in>set (users (cur (w_db w))). usr_email u = email \<and> checkpw e password (usr_password u) \<and> usr_is_verified u
     \<and> (\<exists>expires. opens_session e (usr_id u) expires (cur (w_db w)) (cur (w_db w'))) \<and> lower email = email"
proof -
  let ?Q = "\<lambda>_ w'. \<exists>u\<in>set (users (cur (w_db w))). usr_email u = email \<and> checkpw e password (usr_password u)
     \<and> usr_is_verified u \<and> (\<exists>expires. opens_session e (usr_id u) expires (cur (w_db w)) (cur (w_db w'))) \<and> lower email = email"
  have "returns (login_service e email password cookie) ?Q w"
    unfolding login_service_def get_user_by_email_def check_password_def
  proof (rule returns_bnd, rule returns_same [OF same_already],
      intro returns_bnd returns_query returns_case_option returns_if returns_raise)
    fix v t u
    assume v: "data_of v = data_of w"
      and found: "find (\<lambda>u. usr_email u = email) (users (cur (w_db v))) = Some u"
      and checks: "\<not> \<not> checkpw e password (usr_password u)" "\<not> \<not> usr_is_verified u"
    have same: "cur (w_db v) = cur (w_db w)" using v by (simp add: data_of_def)
    have u: "u \<in> set (users (cur (w_db w)))" "usr_email u = email"
      using find_in_set [OF found] same by simp_all
    then have "lower email = email" using assms(3) by (auto simp: consistent_def)
    with u checks same show "returns (issue_tokens e (usr_id u) None) ?Q
        (v\<lparr>w_steps := Suc (w_steps v), w_db := w_db v\<lparr>tx_time := Some t\<rparr>\<rparr>)"
      by (intro returns_mono [OF issue_opens [OF assms(2)]]) auto
  qed
  then show ?thesis using assms(1) by (rule returnsD)
qed

definition login_payload :: json where
  "login_payload = token_payload 1 ''refresh'' (uuid_str 7) 1000000000 605800000000"

definition login_env :: web_env where
  "login_env = small_env\<lparr>jwt_encode := \<lambda>p. if p = login_payload then ''new'' else ''other'',
     jwt_decode := \<lambda>_ s. if s = ''new'' then Some login_payload else None\<rparr>"

lemma login_checks_witness:
  "\<exists>p w' expires. login_service login_env ''a'' ''p'' None small_web = (Inr p, w')
     \<and> opens_session login_env 1 expires (cur (w_db small_web)) (cur (w_db w'))"
proof -
  have at: "field login_payload ''exp'' = JInt 605800" "field login_payload ''type'' = JStr ''refresh''"
    "field login_payload ''jti'' = JStr (uuid_str 7)" "field login_payload ''sub'' = JStr (uuid_str 1)"
    by (simp_all add: login_payload_def token_payload_def date_claim_def)
  have sub: "subscript login_payload k = ret (field login_payload k)" if "k \<in> {''exp'', ''jti'', ''sub''}" for k
    using that by (auto simp: login_payload_def token_payload_def)
  have stamp: "of_seconds 605800 = ret 605800000000"
    by (simp add: of_seconds_def py_round_int [of 605800000000, simplified])
  have next_token: "jwt_encode login_env (token_payload 1 ''refresh'' (uuid_str 7) 1000000000 605800000000) = ''new''"
    by (simp add: login_env_def login_payload_def)
  have env: "clock login_env n = 1000000000" "new_uuid login_env n = 7" "web_db_fault login_env n = None"
    "redis_fault login_env n = None" "checkpw login_env = (\<lambda>p h. p = h)" "refresh_token_expire_days login_env = 7"
    "jwt_decode login_env t ''new'' = Some login_payload" for n t
    by (simp_all add: login_env_def small_env_def)
  have "\<exists>p w'. login_service login_env ''a'' ''p'' None small_web = (Inr p, w')"
    unfolding small_web_def world_of_def
    by (simp add: login_service_def already_logged_in_def get_user_by_email_def check_password_def service_defs effect_defs
        at sub stamp next_token env fresh_session_def Let_def revoke_where_def insert_token_def small_session_def
        session_row_def small_user_def split_beta)
  then obtain p w' where login: "login_service login_env ''a'' ''p'' None small_web = (Inr p, w')" by blast
  have "tokens_decode login_env" by (simp add: tokens_decode_def login_env_def)
  from login_checks [OF login this small_consistent(1)] login show ?thesis
    by (auto simp: small_web_def world_of_def fresh_session_def small_user_def)
qed

section \<open>Bulk deletion\<close>

text \<open>
  The specification: a directory of ids with whether each is an administrator; an id that is not there
  is reported, an administrator is skipped, any other is deleted.
\<close>

fun bulk_spec :: "uuid list \<Rightarrow> (uuid \<times> bool) list \<Rightarrow> bulk_delete_result \<Rightarrow> bulk_delete_result \<times> (uuid \<times> bool) list" where
  "bulk_spec [] dir r = (r, dir)"
| "bulk_spec (i # rest) dir r = (case map_of dir i of
     None \<Rightarrow> bulk_spec rest dir (r\<lparr>bd_not_found := bd_not_found r @ [i]\<rparr>)
   | Some True \<Rightarrow> bulk_spec rest dir (r\<lparr>bd_skipped_admins := bd_skipped_admins r @ [i]\<rparr>)
   | Some False \<Rightarrow> bulk_spec rest (filter (\<lambda>(j, _). j \<noteq> i) dir) (r\<lparr>bd_deleted := bd_deleted r @ [i]\<rparr>))"

definition directory :: "web_db \<Rightarrow> (uuid \<times> bool) list" where
  "directory d = map (\<lambda>u. (usr_id u, usr_is_admin u)) (users d)"

lemma directory_find:
  "map_of (directory d) i = map_option usr_is_admin (find (\<lambda>u. usr_id u = i) (users d))"
proof -
  have "map_of (map (\<lambda>u. (usr_id u, usr_is_admin u)) us) i = map_option usr_is_admin (find (\<lambda>u. usr_id u = i) us)" for us
    by (induction us) auto
  then show ?thesis by (simp add: directory_def)
qed

subsection \<open>Only Redis can stop it\<close>

definition quiet_db :: "web_env \<Rightarrow> bool" where
  "quiet_db e \<longleftrightarrow> (\<forall>n. web_db_fault e n = None)"

lemma wp_exec_quiet:
  assumes "quiet_db e" and "\<not> broken (w_db w)"
    and "\<And>t. \<exists>a d. stmt t (cur (w_db w)) = Inr (a, d)
          \<and> Q a (w\<lparr>w_steps := Suc (w_steps w), w_db := (w_db w)\<lparr>tx_time := Some t, cur := d\<rparr>\<rparr>)"
  shows "wp (web_exec e stmt) Q E w"
proof -
  define t where "t = (case tx_time (w_db w) of None \<Rightarrow> clock e (w_steps w) | Some t \<Rightarrow> t)"
  obtain a d where "stmt t (cur (w_db w)) = Inr (a, d)"
    and "Q a (w\<lparr>w_steps := Suc (w_steps w), w_db := (w_db w)\<lparr>tx_time := Some t, cur := d\<rparr>\<rparr>)"
    using assms(3) [of t] by blast
  then show ?thesis
    using assms(1,2) unfolding web_exec_def wp_bnd wp_wtick
    by (simp add: wp_def Let_def quiet_db_def t_def [symmetric])
qed

lemma wp_commit_quiet:
  assumes "quiet_db e" and "\<not> broken (w_db w)"
    and "Q () (w\<lparr>w_steps := Suc (w_steps w), w_db := (w_db w)\<lparr>saved := cur (w_db w), tx_time := None\<rparr>\<rparr>)"
  shows "wp (web_commit e) Q E w"
  using assms unfolding web_commit_def wp_bnd wp_wtick by (simp add: wp_def Let_def quiet_db_def)

text \<open>
  Redis stops the deletion of user `i` between two states when a command of that time failed, or when
  one of the user's tracked tokens had less than a second left at a step of that time: its mark would
  need a time to live of 0, which Redis refuses.
\<close>

definition redis_stops :: "web_env \<Rightarrow> uuid \<Rightarrow> web \<Rightarrow> web \<Rightarrow> bool" where
  "redis_stops e i w w' \<longleftrightarrow> (\<exists>n. w_steps w \<le> n \<and> n < w_steps w' \<and> (redis_fault e n \<noteq> None
     \<or> (\<exists>js\<in>set (zset (w_redis w) (tokens_key i)). 0 < snd js - seconds (clock e n) \<and> snd js - seconds (clock e n) < 1)))"

definition fewer_tokens :: "redis \<Rightarrow> redis \<Rightarrow> bool" where
  "fewer_tokens rs rs' \<longleftrightarrow> (\<forall>k. set (zset rs' k) \<subseteq> set (zset rs k))"

lemma fewer_refl [simp]: "fewer_tokens rs rs"
  by (simp add: fewer_tokens_def)

lemma fewer_trans: "fewer_tokens a b \<Longrightarrow> fewer_tokens b c \<Longrightarrow> fewer_tokens a c"
  unfolding fewer_tokens_def by blast

lemma zset_put: "zset (put_zset k z rs) k' = (if k' = k then z else zset rs k')"
  by (simp add: zset_def put_zset_def update_conv)

lemma fewer_put: "set z \<subseteq> set (zset rs k) \<Longrightarrow> fewer_tokens rs (put_zset k z rs)"
  by (auto simp: fewer_tokens_def zset_put)

lemma redis_stops_earlier:
  "redis_stops e i v w' \<Longrightarrow> w_steps w \<le> w_steps v \<Longrightarrow> fewer_tokens (w_redis w) (w_redis v) \<Longrightarrow> redis_stops e i w w'"
  unfolding redis_stops_def fewer_tokens_def by (meson le_trans subsetD)

lemma wp_redis_cmd:
  assumes "f (seconds (clock e (w_steps w))) (w_redis w) = (r, rs)" and "I (w_redis w)" and "I rs"
    and "\<And>a. r = Inr a \<Longrightarrow> Q a (w\<lparr>w_steps := Suc (w_steps w), w_redis := rs\<rparr>)"
    and "\<And>x. r = Inl x \<Longrightarrow> E x (w\<lparr>w_steps := Suc (w_steps w), w_redis := rs\<rparr>)"
    and "\<And>m rs'. I rs' \<Longrightarrow> redis_fault e (w_steps w) \<noteq> None \<Longrightarrow> E (RedisError m) (w\<lparr>w_steps := Suc (w_steps w), w_redis := rs'\<rparr>)"
  shows "wp (redis_do e f) Q E w"
proof -
  have same: "w\<lparr>w_steps := n\<rparr> = w\<lparr>w_steps := n, w_redis := w_redis w\<rparr>" for n by simp
  show ?thesis
    unfolding redis_do_def wp_bnd wp_wtick
  proof (cases "redis_fault e (w_steps w)")
    case None
    then show "wp (\<lambda>w'. case f (seconds (clock e (w_steps w))) (w_redis w') of (r, rs) \<Rightarrow> (case redis_fault e (w_steps w) of
        None \<Rightarrow> (r, w'\<lparr>w_redis := rs\<rparr>) | Some (m, done) \<Rightarrow> (Inl (RedisError m), if done then w'\<lparr>w_redis := rs\<rparr> else w')))
        Q E (w\<lparr>w_steps := Suc (w_steps w)\<rparr>)"
      using assms(1,4,5) by (auto simp: wp_def split: sum.splits)
  next
    case (Some md)
    then show "wp (\<lambda>w'. case f (seconds (clock e (w_steps w))) (w_redis w') of (r, rs) \<Rightarrow> (case redis_fault e (w_steps w) of
        None \<Rightarrow> (r, w'\<lparr>w_redis := rs\<rparr>) | Some (m, done) \<Rightarrow> (Inl (RedisError m), if done then w'\<lparr>w_redis := rs\<rparr> else w')))
        Q E (w\<lparr>w_steps := Suc (w_steps w)\<rparr>)"
      using assms(1,3) assms(6) [OF assms(2)] assms(6) [OF assms(3)] by (cases md) (auto simp: wp_def)
  qed
qed

text \<open>While the tokens of user `i` are revoked: all that are left end after the time read at the start.\<close>

definition revoking :: "web_env \<Rightarrow> uuid \<Rightarrow> web \<Rightarrow> web \<Rightarrow> bool" where
  "revoking e i w v \<longleftrightarrow> rest_of v = rest_of w \<and> w_steps w < w_steps v \<and> fewer_tokens (w_redis w) (w_redis v)
     \<and> (\<forall>js\<in>set (zset (w_redis v) (tokens_key i)). seconds (clock e (w_steps w)) < snd js)"

definition revoke_stopped :: "web_env \<Rightarrow> uuid \<Rightarrow> web \<Rightarrow> web_exn \<Rightarrow> web \<Rightarrow> bool" where
  "revoke_stopped e i w x v \<longleftrightarrow> rest_of v = rest_of w \<and> is_redis_error x \<and> redis_stops e i w v"

lemma revoking_step:
  assumes "revoking e i w v" and "fewer_tokens (w_redis v) rs"
  shows "revoking e i w (v\<lparr>w_steps := Suc (w_steps v), w_redis := rs\<rparr>)"
  using assms fewer_trans [of "w_redis w" "w_redis v" rs] unfolding revoking_def
  by (auto simp: fewer_tokens_def [of "w_redis v" rs])

lemma fault_stops:
  assumes "rest_of v = rest_of w" and "w_steps w \<le> w_steps v" and "redis_fault e (w_steps v) \<noteq> None"
  shows "revoke_stopped e i w (RedisError m) (v\<lparr>w_steps := Suc (w_steps v), w_redis := rs\<rparr>)"
  using assms by (auto simp: revoke_stopped_def redis_stops_def intro!: exI [of _ "w_steps v"])

lemma time_to_live_end: "time_to_live s now \<le> 0 \<Longrightarrow> seconds now < s \<Longrightarrow> s - seconds now < 1"
  by (auto simp: time_to_live_def trunc_def split: if_splits) 


lemma set_delete_sub: "set (AList.delete k z) \<subseteq> set z"
  by (simp add: AList.delete_eq filter_is_subset)

lemma wp_revoking_redis:
  assumes v: "revoking e i w v" and f: "\<And>now rs. fewer_tokens rs (snd (f now rs))"
    and "\<And>a u. revoking e i w u \<Longrightarrow> fst (f (seconds (clock e (w_steps v))) (w_redis v)) = Inr a \<Longrightarrow> Q a u"
    and "\<And>x u. revoking e i w u \<Longrightarrow> fst (f (seconds (clock e (w_steps v))) (w_redis v)) = Inl x \<Longrightarrow> E x u"
    and "\<And>x u. revoke_stopped e i w x u \<Longrightarrow> E x u"
  shows "wp (redis_do e f) Q E v"
proof (rule wp_redis_cmd [where I = "fewer_tokens (w_redis v)", OF prod.collapse [symmetric]], goal_cases)
  case (3 a)
  then show ?case using revoking_step [OF v f] assms(3) by simp
next
  case (4 x)
  then show ?case using revoking_step [OF v f] assms(4) by simp
next
  case (5 m rs)
  then show ?case using v by (intro assms(5) fault_stops) (simp_all add: revoking_def)
qed (simp_all add: f)

lemma wp_revoke_tracked:
  assumes v: "revoking e i w v"
  shows "wp (revoke_tracked e i (clock e (w_steps w)) jti) (\<lambda>_. revoking e i w) (revoke_stopped e i w) v"
  unfolding revoke_tracked_def redis_zscore_def wp_bnd
proof (rule wp_revoking_redis [OF v], goal_cases)
  case (2 score u)
  show ?case
  proof (cases score)
    case None
    then show ?thesis using 2 by (simp add: wp_simps)
  next
    case (Some s)
    with 2 have s: "(jti, s) \<in> set (zset (w_redis v) (tokens_key i))" by (auto dest: map_of_SomeD)
    show ?thesis
      unfolding Some option.case redis_setex_def redis_zrem_def wp_bnd
    proof (rule wp_revoking_redis [OF 2(1)], goal_cases)
      case (2 a u')
      then show ?case
        by (intro wp_revoking_redis [OF 2(1)]) (auto intro!: fewer_put set_delete_sub)
    next
      case (3 x u')
      then have "time_to_live s (clock e (w_steps w)) \<le> 0" by (auto split: if_splits)
      with s v have "0 < s - seconds (clock e (w_steps w))" "s - seconds (clock e (w_steps w)) < 1"
        "(jti, s) \<in> set (zset (w_redis w) (tokens_key i))"
        using time_to_live_end [of s "clock e (w_steps w)"]
        by (auto simp: revoking_def fewer_tokens_def)
      then have "redis_stops e i w u'" using 3(1) unfolding redis_stops_def revoking_def
        by (intro exI [of _ "w_steps w"]) (auto intro!: bexI [of _ "(jti, s)"])
      then show ?case using 3 by (auto simp: revoke_stopped_def revoking_def split: if_splits)
    qed (auto simp: fewer_tokens_def put_key_def zset_def)
  qed
qed simp_all

lemma wp_for_each_keep:
  assumes "\<And>x w. I w \<Longrightarrow> wp (g x) (\<lambda>_. I) E w"
  shows "I w \<Longrightarrow> wp (for_each g xs) (\<lambda>_. I) E w"
proof (induction xs arbitrary: w)
  case (Cons x xs)
  then show ?case by (auto simp: wp_simps intro: wp_mono [OF assms])
qed (simp add: wp_simps)

lemma wp_revoke_all:
  assumes "\<And>v. revoking e i w v \<Longrightarrow> Q () v" and "\<And>x v. revoke_stopped e i w x v \<Longrightarrow> E x v"
  shows "wp (revoke_access_to_all_tokens e i) Q E w"
proof -
  let ?now = "clock e (w_steps w)"
  have "wp (revoke_access_to_all_tokens e i) (\<lambda>_. revoking e i w) (revoke_stopped e i w) w"
    unfolding revoke_access_to_all_tokens_def now_utc_def wp_bnd wp_wtick wp_ret redis_zremrangebyscore_def
  proof (rule wp_redis_cmd [where I = "fewer_tokens (w_redis w)", OF refl], goal_cases)
    case (3 a)
    then have "revoking e i w (w\<lparr>w_steps := Suc (Suc (w_steps w)),
        w_redis := put_zset (tokens_key i) (filter (\<lambda>(_, score). seconds ?now < score) (zset (w_redis w) (tokens_key i))) (w_redis w)\<rparr>)"
      by (auto simp: revoking_def zset_put intro!: fewer_put)
    then show ?case
      unfolding redis_zrangebyscore_def
      by (simp add: wp_bnd) (rule wp_revoking_redis, assumption, auto intro!: wp_for_each_keep wp_revoke_tracked)
  next
    case (5 m rs)
    then show ?case using fault_stops [of "w\<lparr>w_steps := Suc (w_steps w)\<rparr>" w e i m rs] by simp
  qed (auto intro!: fewer_put)
  then show ?thesis by (rule wp_mono) (use assms in auto)
qed

lemma wp_delete_or_stop:
  assumes "quiet_db e" and "\<not> broken (w_db w)"
    and "\<And>v. rest_of v = rest_of w \<Longrightarrow> redis_stops e (usr_id u) w v \<Longrightarrow> Q False v"
    and "\<And>v. \<not> broken (w_db v) \<Longrightarrow> directory (cur (w_db v)) = filter (\<lambda>(j, _). j \<noteq> usr_id u) (directory (cur (w_db w)))
          \<Longrightarrow> w_steps w \<le> w_steps v \<Longrightarrow> fewer_tokens (w_redis w) (w_redis v) \<Longrightarrow> Q True v"
  shows "wp (delete_or_stop e u) Q E w"
  unfolding delete_or_stop_def delete_user_and_sessions_def delete_all_refresh_tokens_for_user_def delete_user_def wp_handle
    wp_bnd wp_ret
proof (rule wp_revoke_all)
  fix v assume v: "revoking e (usr_id u) w v"
  show "wp (web_exec e (remove_tokens (\<lambda>t. rt_user_id t = usr_id u)))
      (\<lambda>_. wp (web_exec e (remove_user (usr_id u))) (\<lambda>_. Q True)
        (\<lambda>x. wp (if is_redis_error x then ret False else raise x) Q E))
      (\<lambda>x. wp (if is_redis_error x then ret False else raise x) Q E) v"
    by (rule wp_exec_quiet [OF assms(1)], use v assms(2) in \<open>simp add: revoking_def rest_of_eq\<close>)
      (use v assms(2) in \<open>auto simp: remove_tokens_def remove_user_def revoking_def rest_of_eq directory_def filter_map comp_def
         intro!: wp_exec_quiet [OF assms(1)] assms(4)\<close>)
qed (use assms(3) in \<open>simp_all add: wp_simps revoke_stopped_def\<close>)

text \<open>
  What a bulk delete has done with the first `k` of the ids, and why it went no further: at the next id,
  of a user who is still there and no administrator, Redis stopped it.
\<close>

definition bulk_stopped_at :: "web_env \<Rightarrow> uuid list \<Rightarrow> nat \<Rightarrow> web \<Rightarrow> web \<Rightarrow> bool" where
  "bulk_stopped_at e is k w w' \<longleftrightarrow> k < length is \<and> (is ! k, False) \<in> set (directory (cur (w_db w')))
     \<and> redis_stops e (is ! k) w w'"

definition bulk_done :: "web_env \<Rightarrow> uuid list \<Rightarrow> bulk_delete_result \<Rightarrow> web \<Rightarrow> bulk_delete_result \<Rightarrow> web \<Rightarrow> bool" where
  "bulk_done e is r w r' w' \<longleftrightarrow> (\<exists>k. saved (w_db w') = cur (w_db w')
     \<and> (r'\<lparr>bd_not_processed := bd_not_processed r\<rparr>, directory (cur (w_db w')))
         = bulk_spec (take k is) (directory (cur (w_db w))) r
     \<and> (bd_not_processed r' = drop k is \<and> bulk_stopped_at e is k w w'
        \<or> k = length is \<and> bd_not_processed r' = bd_not_processed r))"

lemma bulk_done_next:
  assumes "bulk_done e rest r2 v r' w'" and "w_steps w \<le> w_steps v" and "fewer_tokens (w_redis w) (w_redis v)"
    and "bd_not_processed r2 = bd_not_processed r"
    and "\<And>k. bulk_spec (take (Suc k) (i # rest)) (directory (cur (w_db w))) r = bulk_spec (take k rest) (directory (cur (w_db v))) r2"
  shows "bulk_done e (i # rest) r w r' w'"
proof -
  from assms(1) obtain k where k: "saved (w_db w') = cur (w_db w')"
      "(r'\<lparr>bd_not_processed := bd_not_processed r2\<rparr>, directory (cur (w_db w'))) = bulk_spec (take k rest) (directory (cur (w_db v))) r2"
      "bd_not_processed r' = drop k rest \<and> bulk_stopped_at e rest k v w'
        \<or> k = length rest \<and> bd_not_processed r' = bd_not_processed r2"
    unfolding bulk_done_def by blast
  have "bulk_stopped_at e (i # rest) (Suc k) w w'" if "bulk_stopped_at e rest k v w'"
    using that redis_stops_earlier [OF _ assms(2,3)] by (simp add: bulk_stopped_at_def)
  with k assms(4,5) show ?thesis unfolding bulk_done_def by (intro exI [of _ "Suc k"]) auto
qed

lemma bulk_refines:
  assumes "quiet_db e"
  shows "\<not> broken (w_db w) \<Longrightarrow> saved (w_db w) = cur (w_db w) \<Longrightarrow>
    wp (delete_each e is r) (bulk_done e is r w) (\<lambda>_ _. False) w"
proof (induction "is" arbitrary: r w)
  case Nil
  then show ?case by (simp add: wp_simps bulk_done_def exI [of _ 0])
next
  case (Cons i rest)
  let ?Q = "bulk_done e (i # rest) r w"
  have next_ids: "wp (delete_each e rest r2) ?Q (\<lambda>_ _. False) v"
    if "\<not> broken (w_db v)" "saved (w_db v) = cur (w_db v)" "w_steps w \<le> w_steps v" "fewer_tokens (w_redis w) (w_redis v)"
      "bd_not_processed r2 = bd_not_processed r"
      "\<And>k. bulk_spec (take (Suc k) (i # rest)) (directory (cur (w_db w))) r = bulk_spec (take k rest) (directory (cur (w_db v))) r2"
    for r2 v
    by (rule wp_mono [OF Cons.IH [OF that(1,2), of r2]]) (auto intro: bulk_done_next that)
  let ?f = "find (\<lambda>u. usr_id u = i) (users (cur (w_db w)))"
  let ?next = "\<lambda>found. case found of None \<Rightarrow> delete_each e rest (r\<lparr>bd_not_found := bd_not_found r @ [i]\<rparr>)
       | Some u \<Rightarrow> if usr_is_admin u then delete_each e rest (r\<lparr>bd_skipped_admins := bd_skipped_admins r @ [i]\<rparr>)
         else bnd (delete_or_stop e u) (\<lambda>deleted. if \<not> deleted then ret (r\<lparr>bd_not_processed := i # rest\<rparr>)
           else bnd (web_commit e) (\<lambda>_. delete_each e rest (r\<lparr>bd_deleted := bd_deleted r @ [i]\<rparr>)))"
  have "wp (?next ?f) ?Q (\<lambda>_ _. False) (w\<lparr>w_steps := Suc (w_steps w), w_db := (w_db w)\<lparr>tx_time := Some t, cur := cur (w_db w)\<rparr>\<rparr>)"
    (is "wp _ _ _ ?v") for t
  proof (cases ?f)
    case None
    show ?thesis unfolding None option.case
      by (rule next_ids) (use None Cons.prems in \<open>simp_all add: directory_find\<close>)
  next
    case (Some u)
    then have u: "usr_id u = i" "(i, usr_is_admin u) \<in> set (directory (cur (w_db w)))"
      using find_in_set [OF Some] by (auto simp: directory_def)
    show ?thesis
    proof (cases "usr_is_admin u")
      case True
      then show ?thesis unfolding Some option.case if_P [OF True]
        by (intro next_ids) (use Some Cons.prems in \<open>simp_all add: directory_find\<close>)
    next
      case False
      have spec: "bulk_spec (take (Suc k) (i # rest)) (directory (cur (w_db w))) r
          = bulk_spec (take k rest) (filter (\<lambda>(j, _). j \<noteq> i) (directory (cur (w_db w)))) (r\<lparr>bd_deleted := bd_deleted r @ [i]\<rparr>)" for k
        using Some False by (simp add: directory_find)
      show ?thesis
        unfolding Some option.case if_not_P [OF False] wp_bnd
      proof (rule wp_delete_or_stop [OF assms])
        fix v :: web assume "\<not> broken (w_db v)" "w_steps ?v \<le> w_steps v" "fewer_tokens (w_redis ?v) (w_redis v)"
          "directory (cur (w_db v)) = filter (\<lambda>(j, _). j \<noteq> usr_id u) (directory (cur (w_db ?v)))"
        then show "wp (if \<not> True then ret (r\<lparr>bd_not_processed := i # rest\<rparr>)
           else bnd (web_commit e) (\<lambda>_. delete_each e rest (r\<lparr>bd_deleted := bd_deleted r @ [i]\<rparr>))) ?Q (\<lambda>_ _. False) v"
          using spec u by (simp only: not_True_eq_False if_False wp_bnd)
            (rule wp_commit_quiet [OF assms], assumption, rule next_ids, simp_all)
      next
        fix v :: web assume "rest_of v = rest_of ?v" "redis_stops e (usr_id u) ?v v"
        then show "wp (if \<not> False then ret (r\<lparr>bd_not_processed := i # rest\<rparr>)
           else bnd (web_commit e) (\<lambda>_. delete_each e rest (r\<lparr>bd_deleted := bd_deleted r @ [i]\<rparr>))) ?Q (\<lambda>_ _. False) v"
          using Cons.prems u False redis_stops_earlier [of e i ?v v w]
          by (simp add: wp_simps rest_of_eq bulk_done_def bulk_stopped_at_def) (rule exI [of _ 0], simp)
      qed (use Cons.prems in simp)
    qed
  qed
  then have "\<exists>a d. web_query (\<lambda>d. find (\<lambda>u. usr_id u = i) (users d)) t (cur (w_db w)) = Inr (a, d)
      \<and> wp (?next a) ?Q (\<lambda>_ _. False) (w\<lparr>w_steps := Suc (w_steps w), w_db := (w_db w)\<lparr>tx_time := Some t, cur := d\<rparr>\<rparr>)" for t
    by (simp add: web_query_def)
  then show ?case
    unfolding delete_each.simps get_user_by_id_def wp_bnd
    by (intro wp_exec_quiet [OF assms Cons.prems(1)])
qed

text \<open>
  C30. A bulk delete refines its specification on the directory of ids, whatever Redis does: with a
  working database it returns, what it has done to some first `k` of the ids is what the specification
  does to them and is committed, and it reports the others as not processed.  There are others only
  when Redis stopped it at the id after these, of a user who is still there and no administrator: one
  of the Redis commands of the request failed, or one of this user's tracked tokens was in its last
  second.
\<close>

theorem bulk_delete_refines:
  assumes "quiet_db e" and "\<not> broken (w_db w)" and "saved (w_db w) = cur (w_db w)" and "a \<notin> set is"
  shows "\<exists>k r w'. delete_multiple_users_by_ids_service e is a w = (Inr r, w') \<and> k \<le> length is
     \<and> (r\<lparr>bd_not_processed := []\<rparr>, directory (saved (w_db w'))) = bulk_spec (take k is) (directory (saved (w_db w))) no_result
     \<and> bd_not_processed r = drop k is
     \<and> (k < length is \<longrightarrow> (is ! k, False) \<in> set (directory (saved (w_db w')))
         \<and> (\<exists>n. w_steps w \<le> n \<and> n < w_steps w' \<and> (redis_fault e n \<noteq> None
              \<or> (\<exists>(jti, expiry)\<in>set (zset (w_redis w) (tokens_key (is ! k))).
                   0 < expiry - seconds (clock e n) \<and> expiry - seconds (clock e n) < 1))))"
proof -
  have "wp (delete_multiple_users_by_ids_service e is a) (bulk_done e is no_result w) (\<lambda>_ _. False) w"
    using bulk_refines [OF assms(1-3)] assms(4) by (simp add: delete_multiple_users_by_ids_service_def)
  then obtain r w' where run: "delete_multiple_users_by_ids_service e is a w = (Inr r, w')"
    and d: "bulk_done e is no_result w r w'"
    by (auto simp: wp_def split: prod.splits sum.splits)
  from d obtain k where k: "saved (w_db w') = cur (w_db w')"
      "(r\<lparr>bd_not_processed := []\<rparr>, directory (cur (w_db w'))) = bulk_spec (take k is) (directory (cur (w_db w))) no_result"
      "bd_not_processed r = drop k is \<and> bulk_stopped_at e is k w w' \<or> k = length is \<and> bd_not_processed r = []"
    unfolding bulk_done_def by (auto simp: no_result_def)
  show ?thesis
    using run k assms(3) unfolding bulk_stopped_at_def redis_stops_def split_beta
    by (intro exI [of _ k] exI [of _ r] exI [of _ w']) auto
qed

lemma bulk_delete_refines_witness:
  "\<exists>r w'. delete_multiple_users_by_ids_service small_env [1, 9] 3 small_web = (Inr r, w') \<and> bd_not_processed r = []
     \<and> (r\<lparr>bd_not_processed := []\<rparr>, directory (saved (w_db w')))
         = bulk_spec [1, 9] (directory (saved (w_db small_web))) no_result"
proof -
  have none: "redis_fault small_env n = None" "zset (w_redis small_web) key = []" for n key
    by (simp_all add: small_env_def small_web_def world_of_def zset_def)
  have "quiet_db small_env" "\<not> broken (w_db small_web)" "saved (w_db small_web) = cur (w_db small_web)"
    by (simp_all add: quiet_db_def small_env_def small_web_def world_of_def fresh_session_def)
  from bulk_delete_refines [OF this, of 3 "[1, 9]"]
  obtain k r w' where "delete_multiple_users_by_ids_service small_env [1, 9] 3 small_web = (Inr r, w')" "k = 2"
    "(r\<lparr>bd_not_processed := []\<rparr>, directory (saved (w_db w')))
       = bulk_spec (take k [1, 9]) (directory (saved (w_db small_web))) no_result"
    "bd_not_processed r = drop k [1, 9]"
    by (force simp: none simp del: bulk_spec.simps)
  then show ?thesis by auto
qed

section \<open>How long a revocation lasts\<close>

text \<open>
  C32. With a working Redis, a token that is revoked at least a second before its end `x` is marked until
  less than a second before that end, shifted by the time the command took; one that is revoked later than
  that is not marked at all: the time to live is 0, which SETEX refuses.
\<close>

theorem revocation_lasts:
  assumes "\<And>n. redis_fault e n = None"
    and "now = seconds (clock e (w_steps w))" and "set_at = seconds (clock e (Suc (w_steps w)))"
  shows "(now + 1 \<le> x \<longrightarrow> (\<exists>w' until. revoke_single_access_token e j x i w = (Inr (), w')
            \<and> map_of (keys (w_redis w')) (revoked_key j) = Some (''1'', until)
            \<and> x - 1 < until - (set_at - now) \<and> until - (set_at - now) \<le> x))
     \<and> (x < now + 1 \<longrightarrow> (\<exists>m w'. revoke_single_access_token e j x i w = (Inl (RedisError m), w') \<and> w_redis w' = w_redis w))"
proof (intro conjI impI)
  assume late: "now + 1 \<le> x"
  then have ttl: "time_to_live x (clock e (w_steps w)) = \<lfloor>x - now\<rfloor>" "0 < \<lfloor>x - now\<rfloor>"
    using assms(2) by (auto simp: time_to_live_def trunc_def)
  have until: "x - 1 < set_at + of_int \<lfloor>x - now\<rfloor> - (set_at - now)" "set_at + of_int \<lfloor>x - now\<rfloor> - (set_at - now) \<le> x"
    using floor_correct [of "x - now"] by linarith+
  show "\<exists>w' until. revoke_single_access_token e j x i w = (Inr (), w')
      \<and> map_of (keys (w_redis w')) (revoked_key j) = Some (''1'', until) \<and> x - 1 < until - (set_at - now) \<and> until - (set_at - now) \<le> x"
    using ttl until assms(1,3)
    by (auto simp: revoke_single_access_token_def now_utc_def redis_setex_def redis_zrem_def redis_do_def wtick_def bnd_def
        ret_def put_key_def put_zset_def update_conv)
next
  assume soon: "x < now + 1"
  then have "time_to_live x (clock e (w_steps w)) \<le> 0"
    using assms(2) by (auto simp: time_to_live_def trunc_def floor_less_iff)
  then show "\<exists>m w'. revoke_single_access_token e j x i w = (Inl (RedisError m), w') \<and> w_redis w' = w_redis w"
    using assms(1)
    by (auto simp: revoke_single_access_token_def now_utc_def redis_setex_def redis_do_def wtick_def bnd_def ret_def)
qed

lemma revocation_lasts_witness:
  "(\<exists>w' until. revoke_single_access_token small_env ''t'' 2000 1 small_web = (Inr (), w')
      \<and> map_of (keys (w_redis w')) (revoked_key ''t'') = Some (''1'', until))
   \<and> (\<exists>m w'. revoke_single_access_token small_env ''t'' 1000 1 small_web = (Inl (RedisError m), w')
      \<and> w_redis w' = w_redis small_web)"
proof -
  have env: "seconds (clock small_env n) = 1000" "redis_fault small_env n = None" for n
    by (simp_all add: small_env_def seconds_def)
  show ?thesis
    using revocation_lasts [OF env(2) refl refl, of small_web 2000 "''t''" 1]
      revocation_lasts [OF env(2) refl refl, of small_web 1000 "''t''" 1]
    by (auto simp: env)
qed

end
