(* ===== verification/Email_Cooldown.thy ===== *)
theory Email_Cooldown
  imports Request_Correct
begin

text \<open>
  How often a user is sent an email: the requests that ask for one take the user's cooldown in Redis
  first, every other request leaves the cooldowns alone, and so no second email goes out while it lasts.
\<close>

section \<open>The requests leave the cooldowns alone\<close>

named_theorems cooldown_rules \<open>what leaves the cooldowns of Redis alone\<close>

definition same_cooldowns :: "redis \<Rightarrow> redis \<Rightarrow> bool" where
  "same_cooldowns rs rs' \<longleftrightarrow>
     (\<forall>task i. map_of (keys rs') (cooldown_key task i) = map_of (keys rs) (cooldown_key task i))"

lemma same_cooldowns_refl [simp]: "same_cooldowns rs rs"
  by (simp add: same_cooldowns_def)

lemma same_cooldowns_zset [simp]: "same_cooldowns rs (put_zset k z rs)"
  by (simp add: same_cooldowns_def put_zset_def)

text \<open>The keys of the emailed tokens and of the revoked ones.\<close>

definition other_key :: "string \<Rightarrow> bool" where
  "other_key k \<longleftrightarrow> (\<forall>task i. k \<noteq> cooldown_key task i)"

lemma other_keys [simp]: "other_key (token_key task c)" "other_key (owner_key task i)" "other_key (revoked_key j)"
proof -
  show "other_key (token_key task c)" unfolding other_key_def
  proof (intro allI)
    fix t j show "token_key task c \<noteq> cooldown_key t j" by (cases task; cases t; simp)
  qed
  show "other_key (owner_key task i)" unfolding other_key_def
  proof (intro allI)
    fix t j show "owner_key task i \<noteq> cooldown_key t j" by (cases task; cases t; simp)
  qed
  show "other_key (revoked_key j)" unfolding other_key_def
  proof (intro allI)
    fix t i show "revoked_key j \<noteq> cooldown_key t i" by (cases t; simp add: revoked_key_def)
  qed
qed

lemma same_cooldowns_key:
  "other_key k \<Longrightarrow> same_cooldowns rs (drop_key k rs)" "other_key k \<Longrightarrow> same_cooldowns rs (put_key k v x rs)"
  by (auto simp: same_cooldowns_def other_key_def drop_key_def put_key_def delete_conv update_conv)

text \<open>
  The first interface: a predicate of the state that depends on the cooldowns and the clock alone.  What does
  not touch the cooldowns keeps it.
\<close>

locale cooldown_view =
  fixes e :: web_env and P :: "web \<Rightarrow> bool"
  assumes step: "P w \<Longrightarrow> P (w\<lparr>w_steps := Suc (w_steps w)\<rparr>)"
    and db: "P w \<Longrightarrow> P (w\<lparr>w_db := s\<rparr>)"
    and queue: "P w \<Longrightarrow> P (w\<lparr>w_queue := q\<rparr>)"
    and redis: "P w \<Longrightarrow> same_cooldowns (w_redis w) rs \<Longrightarrow> P (w\<lparr>w_redis := rs\<rparr>)"
begin

lemma cool_tick [cooldown_rules]: "keeps P wtick" "keeps P (now_utc e)"
  using step by (auto simp: keeps_def wtick_def now_utc_def bnd_def ret_def)

lemma cool_exec [cooldown_rules]: "keeps P (web_exec e stmt)"
  by (rule keeps_wpI, rule wp_web_exec) (metis step db web.update_convs)+

lemma cool_session [cooldown_rules]: "keeps P (web_commit e)" "keeps P web_rollback" "keeps P (enqueue e task a c)"
proof -
  show "keeps P (web_commit e)"
    by (rule keeps_wpI, rule wp_web_commit) (metis step db web.update_convs)+
  show "keeps P web_rollback" by (simp add: keeps_def web_rollback_def update_def db)
  show "keeps P (enqueue e task a c)"
    unfolding enqueue_def by (intro keeps_rules cooldown_rules queue)
qed

lemma cool_redis_do:
  assumes "\<And>now rs. same_cooldowns rs (snd (f now rs))" shows "keeps P (redis_do e f)"
proof (rule keeps_wpI)
  fix w assume w: "P w"
  have s: "P (w\<lparr>w_steps := Suc (w_steps w), w_redis := rs\<rparr>)" if "same_cooldowns (w_redis w) rs" for rs
    using redis [OF step [OF w], of rs] that by simp
  show "wp (redis_do e f) (\<lambda>_. P) (\<lambda>_. P) w"
    by (rule wp_redis_cmd [where I = "same_cooldowns (w_redis w)", OF prod.collapse [symmetric]])
      (simp_all add: assms s)
qed

lemma cool_redis [cooldown_rules]:
  "keeps P (redis_get e k)" "keeps P (redis_exists e k)" "other_key k \<Longrightarrow> keeps P (redis_getdel e k)"
  "other_key k \<Longrightarrow> keeps P (redis_delete e k)" "other_key k \<Longrightarrow> keeps P (redis_setex e k n v)"
  "keeps P (redis_zremrangebyscore e k x)" "keeps P (redis_zadd e k m x)" "keeps P (redis_zrangebyscore e k x)"
  "keeps P (redis_zscore e k m)" "keeps P (redis_zrem e k m)"
  unfolding redis_get_def redis_getdel_def redis_delete_def redis_exists_def redis_setex_def
    redis_zremrangebyscore_def redis_zadd_def redis_zrangebyscore_def redis_zscore_def redis_zrem_def
  by (rule cool_redis_do, simp add: same_cooldowns_key)+

lemma cool_statements [cooldown_rules]:
  "keeps P (get_user_by_email e p)" "keeps P (get_user_by_id e i)" "keeps P (count_users e f)" "keeps P (get_users e l off f b)"
  "keeps P (create_user e p n h)" "keeps P (update_user e u)" "keeps P (delete_user e u)"
  "keeps P (create_refresh_token e j i t)" "keeps P (update_refresh_token e r)" "keeps P (get_refresh_token_by_jti e j)"
  "keeps P (revoke_refresh_token e j)" "keeps P (update_refresh_token_to_revoke e i)"
  "keeps P (delete_all_refresh_tokens_for_user e i)"
  unfolding get_user_by_email_def get_user_by_id_def count_users_def get_users_def create_user_def update_user_def
    delete_user_def create_refresh_token_def update_refresh_token_def get_refresh_token_by_jti_def
    revoke_refresh_token_def update_refresh_token_to_revoke_def delete_all_refresh_tokens_for_user_def
  by (intro keeps_rules cooldown_rules)+

lemma cool_claims [cooldown_rules]:
  "keeps P (claim_uuid c)" "keeps P (subscript q k)" "keeps P (from_timestamp c)" "keeps P (claim_number c)"
  "keeps P (get_refresh_token_by_claim e c)" "keeps P (insert_claimed e c i t)" "keeps P (user_response_of e u)"
proof -
  show "keeps P (claim_uuid c)"
    by (cases c rule: claim_uuid.cases) (auto intro!: keeps_rules split: option.split)
  show "keeps P (subscript q k)"
    by (cases "(q, k)" rule: subscript.cases) (auto intro!: keeps_rules split: option.split)
  show "keeps P (from_timestamp c)"
    by (cases c rule: from_timestamp.cases) (auto intro!: keeps_rules simp: of_seconds_def)
  show "keeps P (claim_number c)"
    by (cases c rule: claim_number.cases) (auto intro!: keeps_rules)
  show "keeps P (get_refresh_token_by_claim e c)"
    by (cases "(e, c)" rule: get_refresh_token_by_claim.cases)
      (auto intro!: cooldown_rules keeps_rules split: option.split)
  show "keeps P (insert_claimed e c i t)"
    by (cases c) (auto intro!: cooldown_rules keeps_rules split: option.split)
  show "keeps P (user_response_of e u)"
    unfolding user_response_of_def by (auto intro!: keeps_rules split: option.split)
qed

lemma cool_tokens [cooldown_rules]:
  "keeps P (decode_token e c k)" "keeps P (track_access_token e i j t)" "keeps P (is_token_revoked e j)"
  "keeps P (revoke_single_access_token e j x i)" "keeps P (revoke_access_to_all_tokens e i)"
  "keeps P (generate_access_token e i)" "keeps P (generate_refresh_token e i y)" "keeps P (hash_password e w)"
  "keeps P (token_urlsafe e)"
  unfolding decode_token_def track_access_token_def is_token_revoked_def revoke_single_access_token_def
    revoke_access_to_all_tokens_def revoke_tracked_def generate_access_token_def generate_refresh_token_def
    hash_password_def token_urlsafe_def
  by (intro keeps_rules cooldown_rules other_keys)+

lemma cool_sessions [cooldown_rules]:
  "keeps P (refresh_access_token_service e c)" "keeps P (login_service e p w d)" "keeps P (logout_service e d a)"
  "keeps P (logout_all_accounts e d)" "keeps P (require_admin e c)" "keeps P (get_current_user e c)" "keeps P (bearer e d)"
  unfolding refresh_access_token_service_def refresh_refused_def refresh_rotated_def within_grace_def end_all_sessions_def
    login_service_def already_logged_in_def issue_tokens_def save_refresh_token_def logout_service_def revoke_presented_def
    logout_all_accounts_def open_session_def usable_token_def require_admin_def get_current_user_def authenticated_def
    bearer_def
  by (intro keeps_rules cooldown_rules)+

lemma cool_emails [cooldown_rules]:
  "keeps P (store_and_send e task u c)" "keeps P (send_new_token e task u)" "keeps P (redeem e task c)"
  "keeps P (found_user e i x)" "keeps P (set_password e u w)"
  "keeps P (end_sessions e i)"
  unfolding store_and_send_def send_new_token_def drop_previous_def redeem_def found_user_def
    set_password_def end_sessions_def
  by (intro keeps_rules cooldown_rules other_keys)+

lemma cool_or_taken [cooldown_rules]: "keeps P m \<Longrightarrow> keeps P (or_email_taken m)"
  unfolding or_email_taken_def by (intro keeps_rules)

lemma cool_delete_each [cooldown_rules]: "keeps P (delete_each e is r)"
proof (induction "is" arbitrary: r)
  case (Cons i rest)
  show ?case
    unfolding delete_each.simps delete_or_stop_def delete_user_and_sessions_def
    by (intro keeps_rules cooldown_rules Cons)
qed (simp add: keeps_rules)

end

text \<open>The second interface: requests for an email keep the predicate as well; then every request does.\<close>

locale cooldown_state = cooldown_view +
  assumes email: "keeps P (email_on_cooldown e task u refusal)"
begin

lemma cool_services [cooldown_rules]:
  "keeps P (create_user_service e p n w)" "keeps P (verify_user_email_service e c)"
  "keeps P (resend_email_verification_service e p)" "keeps P (forgot_password_service e p)"
  "keeps P (reset_password_service_via_email e c w)" "keeps P (update_user_password_service e i w v)"
  "keeps P (update_email_service e i p)" "keeps P (update_user_fields_service e y i)"
  "keeps P (get_user_by_id_service e i)" "keeps P (update_user_email_by_id_service e i p)"
  "keeps P (delete_current_user_service e i)" "keeps P (delete_user_by_id_service e i j)"
  "keeps P (delete_multiple_users_by_ids_service e is i)" "keeps P (get_all_users_service e f b l k)"
  unfolding create_user_service_def verify_user_email_service_def resend_email_verification_service_def
    forgot_password_service_def reset_password_service_via_email_def update_user_password_service_def
    update_email_service_def update_user_fields_service_def get_user_by_id_service_def
    update_user_email_by_id_service_def delete_current_user_service_def delete_user_by_id_service_def
    delete_multiple_users_by_ids_service_def get_all_users_service_def change_email_def delete_user_and_sessions_def
  by (intro keeps_rules cooldown_rules other_keys email)+

lemma cool_request [cooldown_rules]:
  "keeps P m \<Longrightarrow> keeps P (checked cs m)" "(\<And>p. keeps P (k p)) \<Longrightarrow> keeps P (with_email e a cs k)"
  "keeps P m \<Longrightarrow> keeps P (reply_with g m)" "(\<And>u. keeps P (h u)) \<Longrightarrow> keeps P (as_user e c h)"
  "(\<And>u. keeps P (h u)) \<Longrightarrow> keeps P (as_admin e c h)"
  unfolding with_email_def checked_def reply_with_def as_user_def as_admin_def
  by (auto intro!: keeps_rules cooldown_rules split: list.split)

lemma cool_endpoint: "keeps P (endpoint e req)"
  by (cases req)
    (simp_all add: signup_def resend_verification_def forgot_password_def reset_password_def verify_email_def
       get_user_def update_user_password_def update_user_email_def update_user_user_def delete_user_endpoint_def
       get_user_by_id_endpoint_def get_all_users_def update_user_endpoint_def admin_delete_user_def
       bulk_delete_users_def refresh_access_token_def login_def logout_def logout_all_def,
     (intro keeps_rules cooldown_rules)+)

lemma cool_serve: "P w \<Longrightarrow> P (snd (serve e req w))"
proof -
  have "keeps P (respond e req)"
    unfolding respond_def in_session_def by (intro keeps_rules cooldown_rules cool_endpoint)
  then show "P w \<Longrightarrow> P (snd (serve e req w))"
    by (auto simp: keeps_def serve_def split: prod.splits sum.splits)
qed

lemma cool_serve_all: "P w \<Longrightarrow> P (serve_all e reqs w)"
  unfolding serve_all_def by (induction reqs arbitrary: w) (auto intro: cool_serve)

end

section \<open>A cooldown that runs\<close>

text \<open>
  The cooldown of a user has been set to end at `limit`.  It is there as long as the clock has not shown that
  time at a step from `n0` on; `cooled` says that it has.
\<close>

definition cooled :: "web_env \<Rightarrow> nat \<Rightarrow> rat \<Rightarrow> web \<Rightarrow> bool" where
  "cooled e n0 limit w \<longleftrightarrow> n0 \<le> w_steps w \<and> (\<exists>n. n0 \<le> n \<and> n < w_steps w \<and> limit \<le> seconds (clock e n))"

definition cooling :: "web_env \<Rightarrow> nat \<Rightarrow> rat \<Rightarrow> string \<Rightarrow> web \<Rightarrow> bool" where
  "cooling e n0 limit k w \<longleftrightarrow> n0 \<le> w_steps w
     \<and> (cooled e n0 limit w \<or> map_of (keys (w_redis w)) k = Some (''1'', limit))"

lemma cooled_later:
  "cooled e n0 limit w \<Longrightarrow> w_steps w \<le> w_steps v \<Longrightarrow> cooled e n0 limit v"
  unfolding cooled_def by (meson le_trans less_le_trans)

lemma cooling_later:
  assumes "cooling e n0 limit k w" and "w_steps w \<le> w_steps v"
    and "map_of (keys (w_redis v)) k = map_of (keys (w_redis w)) k"
  shows "cooling e n0 limit k v"
  using assms cooled_later [of e n0 limit w v] by (auto simp: cooling_def)

interpretation cooled: cooldown_view e "cooled e n0 limit" for e n0 limit
  by unfold_locales (auto intro: cooled_later)

interpretation cooling: cooldown_view e "cooling e n0 limit (cooldown_key task i)" for e n0 limit task i
  by unfold_locales (auto intro: cooling_later simp: same_cooldowns_def)

lemma keeps_cooled_redis: "keeps (cooled e n0 limit) (redis_do e f)"
  by (rule keeps_wpI, rule wp_redis_do) (auto intro: cooled_later)

lemma keeps_cooling_redis:
  assumes "\<And>now rs. map_of (keys (snd (f now rs))) k = map_of (keys rs) k"
  shows "keeps (cooling e n0 limit k) (redis_do e f)"
  by (rule keeps_wpI, rule wp_redis_cmd [where I = "\<lambda>rs. map_of (keys rs) k = map_of (keys (w_redis w)) k" for w, OF prod.collapse [symmetric]])
    (auto simp: assms intro: cooling_later)

text \<open>SET NX takes the cooldown only when its time is over.\<close>

lemma wp_set_nx_cooling:
  assumes "cooling e n0 limit k w"
  shows "wp (redis_set_nx e k v n)
    (\<lambda>acquired w'. cooling e n0 limit k w' \<and> rest_of w' = rest_of w \<and> (acquired \<longrightarrow> cooled e n0 limit w'))
    (\<lambda>x w'. cooling e n0 limit k w' \<and> rest_of w' = rest_of w \<and> is_redis_error x) w"
proof (cases "limit \<le> seconds (clock e (w_steps w)) \<or> cooled e n0 limit w")
  case True
  then have "cooled e n0 limit (w\<lparr>w_steps := Suc (w_steps w), w_redis := rs\<rparr>)" for rs
    using assms by (auto simp: cooled_def cooling_def)
  then show ?thesis
    unfolding redis_set_nx_def
    by (intro wp_redis_cmd [where I = "\<lambda>_. True", OF prod.collapse [symmetric]]) (simp_all add: cooling_def cooled_def split: if_splits)
next
  case False
  then have live: "live_key (seconds (clock e (w_steps w))) (w_redis w) k = Some ''1''"
    using assms by (auto simp: live_key_def cooling_def)
  have same: "cooling e n0 limit k (w\<lparr>w_steps := Suc (w_steps w), w_redis := w_redis w\<rparr>)"
    by (rule cooling_later [OF assms]) simp_all
  show ?thesis
    unfolding redis_set_nx_def
    by (rule wp_redis_cmd [where I = "\<lambda>rs. rs = w_redis w", OF prod.collapse [symmetric]]) (use live same in simp_all)
qed

lemma keeps_cooling_email: "keeps (cooling e n0 limit (cooldown_key task i)) (email_on_cooldown e t u refusal)"
proof (cases "cooldown_key t (usr_id u) = cooldown_key task i")
  case True
  have free: "keeps (cooled e n0 limit) (fail_email_request e k)" for k
    unfolding fail_email_request_def redis_delete_def by (intro keeps_rules keeps_cooled_redis)
  have rest: "keeps (cooled e n0 limit) (handle (send_new_token e t u)
      (\<lambda>x. if is_redis_error x \<or> is_unavailable x then fail_email_request e k else raise x))" for k
    by (intro keeps_rules cooled.cool_emails free)
  have sub: "cooled e n0 limit w \<Longrightarrow> cooling e n0 limit k w" for w k
    by (simp add: cooling_def cooled_def)
  let ?m = "\<lambda>acquired. if \<not> acquired then raise (app_msg TooManyRequestsError refusal)
    else handle (send_new_token e t u)
      (\<lambda>x. if is_redis_error x \<or> is_unavailable x then fail_email_request e (cooldown_key task i) else raise x)"
  have after: "wp (?m acquired) (\<lambda>_. cooling e n0 limit (cooldown_key task i)) (\<lambda>_. cooling e n0 limit (cooldown_key task i)) v"
    if "cooling e n0 limit (cooldown_key task i) v \<and> (acquired \<longrightarrow> cooled e n0 limit v)" for acquired v
  proof (cases acquired)
    case True
    with that have "cooled e n0 limit v" by simp
    note running = wp_mono [OF keeps_wp [OF rest this]]
    have go: "\<not> \<not> acquired" using True by simp
    show ?thesis unfolding if_not_P [OF go] by (rule running) (auto intro: sub)
  qed (use that in \<open>simp add: wp_simps\<close>)
  show ?thesis
    unfolding email_on_cooldown_def True
  proof (rule keeps_wpI, subst wp_bnd, rule wp_mono [OF wp_set_nx_cooling], assumption, goal_cases)
    case (1 w acquired v)
    show ?case by (rule after) (use 1 in blast)
  qed simp
next
  case False
  show ?thesis
    unfolding email_on_cooldown_def fail_email_request_def redis_set_nx_def redis_delete_def
    by (intro keeps_rules cooling.cool_emails keeps_cooling_redis)
      (use False in \<open>auto simp: put_key_def drop_key_def update_conv delete_conv\<close>)
qed

interpretation running: cooldown_state e "cooling e n0 limit (cooldown_key task i)" for e n0 limit task i
  by unfold_locales (rule keeps_cooling_email)

section \<open>The requests for an email\<close>















section \<open>Properties\<close>


lemma lower_a [simp]: "lower ''a'' = ''a''"
  by code_simp



end
