(* ===== verification/Process_Correct.thy ===== *)
theory Process_Correct
  imports Service_Process Email_Cooldown
begin

text \<open>
  The start of the service: it comes up when its dependencies answer one of the three attempts, how long it
  waits for them; and that its clients are closed at the end.
\<close>

section \<open>The attempts\<close>

text \<open>
  What an attempt needs: the database answers at its first step and Redis at its second.  An attempt whose
  database check fails takes one step, any other takes two; the delays take none.
\<close>

definition checks_pass :: "web_env \<Rightarrow> nat \<Rightarrow> bool" where
  "checks_pass e n \<longleftrightarrow> web_db_fault e n = None \<and> redis_fault e (Suc n) = None"

primrec attempt_start :: "web_env \<Rightarrow> nat \<Rightarrow> nat \<Rightarrow> nat" where
  "attempt_start e n 0 = n"
| "attempt_start e n (Suc i) =
     (if web_db_fault e (attempt_start e n i) = None then attempt_start e n i + 2 else attempt_start e n i + 1)"

lemma check_passes:
  assumes "checks_pass e (w_steps w)"
  shows "\<exists>v. check_dependencies e w = (Inr (), v) \<and> w_slept v = w_slept w"
  using assms by (auto simp: checks_pass_def check_dependencies_def check_database_def check_redis_def redis_do_def
      wtick_def bnd_def ret_def)

lemma check_fails:
  assumes "\<not> checks_pass e (w_steps w)"
  shows "\<exists>x v. check_dependencies e w = (Inl x, v) \<and> w_slept v = w_slept w
    \<and> w_steps v = attempt_start e (w_steps w) (Suc 0)"
  using assms by (auto simp: checks_pass_def check_dependencies_def check_database_def check_redis_def redis_do_def
      wtick_def bnd_def ret_def raise_def split: option.splits)

lemma attempt_passes:
  assumes "checks_pass e (w_steps w)"
  shows "\<exists>v. wait_attempts e (Suc k) attempt w = (Inr (), v) \<and> w_slept v = w_slept w"
  using check_passes [OF assms] by (auto simp: handle_def)

lemma attempt_fails:
  assumes "\<not> checks_pass e (w_steps w)" and "attempt \<noteq> startup_attempts"
  shows "\<exists>v. wait_attempts e (Suc k) attempt w = wait_attempts e k (attempt + 1) v
     \<and> w_steps v = attempt_start e (w_steps w) (Suc 0) \<and> w_slept v = w_slept w @ [startup_retry_delay_s * attempt]"
  using check_fails [OF assms(1)] assms(2) by (auto simp: handle_def bnd_def web_sleep_def update_def)

lemma last_attempt_fails:
  assumes "\<not> checks_pass e (w_steps w)"
  shows "\<exists>x v. wait_attempts e (Suc k) startup_attempts w = (Inl x, v) \<and> w_slept v = w_slept w"
  using check_fails [OF assms] by (auto simp: handle_def raise_def)

lemma startup_waits:
  assumes "i \<le> 3" and "\<forall>j<i. \<not> checks_pass e (attempt_start e (w_steps w) j)"
    and "i < 3 \<longrightarrow> checks_pass e (attempt_start e (w_steps w) i)"
  shows "\<exists>r v. wait_for_dependencies e w = (r, v) \<and> w_slept v = w_slept w @ take i [2, 4]
     \<and> (if i < 3 then r = Inr () else \<exists>x. r = Inl x)"
proof -
  have three: "wait_for_dependencies e w = wait_attempts e (Suc (Suc (Suc 0))) 1 w"
    by (simp only: wait_for_dependencies_def startup_attempts_def numeral_3_eq_3 nat_numeral)
  note settings = startup_attempts_def startup_retry_delay_s_def
  show ?thesis
  proof (cases "checks_pass e (w_steps w)")
    case True
    with assms(2) have "i = 0" by (cases i) auto
    then show ?thesis using attempt_passes [OF True, of "Suc (Suc 0)" 1] unfolding three by auto
  next
    case 1: False
    with attempt_fails [of e w 1 "Suc (Suc 0)"] obtain v where
      v: "wait_attempts e (Suc (Suc (Suc 0))) 1 w = wait_attempts e (Suc (Suc 0)) 2 v"
        "w_steps v = attempt_start e (w_steps w) (Suc 0)" "w_slept v = w_slept w @ [2]"
      by (auto simp: settings simp del: wait_attempts.simps attempt_start.simps)
    have "i \<noteq> 0" using assms(3) 1 by (cases i) auto
    show ?thesis
    proof (cases "checks_pass e (w_steps v)")
      case True
      with assms(2) v(2) \<open>i \<noteq> 0\<close> have "i = 1" by (cases i) (auto simp del: attempt_start.simps)
      then show ?thesis using attempt_passes [OF True, of "Suc 0" 2] v(3) unfolding three v(1) by auto
    next
      case 2: False
      with attempt_fails [of e v 2 "Suc 0"] obtain u where
        u: "wait_attempts e (Suc (Suc 0)) 2 v = wait_attempts e (Suc 0) 3 u"
          "w_steps u = attempt_start e (w_steps v) (Suc 0)" "w_slept u = w_slept v @ [4]"
        by (auto simp: settings simp del: wait_attempts.simps attempt_start.simps)
      have u_start: "w_steps u = attempt_start e (w_steps w) (Suc (Suc 0))"
        using u(2) v(2) by simp
      have "i \<noteq> 1" using assms(3) 2 v(2) by auto
      show ?thesis
      proof (cases "checks_pass e (w_steps u)")
        case True
        with assms(1,2) u_start \<open>i \<noteq> 0\<close> \<open>i \<noteq> 1\<close> have "i = 2"
          by (cases "i = 3") (auto simp del: attempt_start.simps simp: numeral_2_eq_2 numeral_3_eq_3)
        then show ?thesis using attempt_passes [OF True, of 0 3] u(3) v(3) unfolding three v(1) u(1) by auto
      next
        case 3: False
        have "i \<noteq> 2" using assms(3) 3 u_start by (auto simp: numeral_2_eq_2 simp del: attempt_start.simps)
        with assms(1) \<open>i \<noteq> 0\<close> \<open>i \<noteq> 1\<close> have "i = 3" by linarith
        then show ?thesis using last_attempt_fails [OF 3, of 0] u(3) v(3) unfolding three v(1) u(1) settings by auto
      qed
    qed
  qed
qed

section \<open>The end\<close>

text \<open>Both clients are closed, unless the close of the one itself fails.\<close>

lemma close_clients_both:
  "\<exists>v. close_clients e (w, c) = (Inr (), (v,
     \<lparr>redis_open = redis_open c \<and> redis_fault e (w_steps w) \<noteq> None,
      pool_open = pool_open c \<and> web_db_fault e (Suc (w_steps w)) \<noteq> None\<rparr>))"
  by (cases c; cases "redis_fault e (w_steps w)"; cases "web_db_fault e (Suc (w_steps w))")
    (auto simp: close_clients_def close_redis_def dispose_pool_def check_redis_def check_database_def redis_do_def wtick_def
      handle_def bnd_def ret_def raise_def lifted_def locals_def update_def split: prod.splits)

lemma lifespan_closes:
  assumes "wait_for_dependencies e w = (r, v)"
  shows "\<exists>u. lifespan e running (w, c) = (case r of Inl x \<Rightarrow> Inl x | Inr _ \<Rightarrow> fst (running v), (u,
     (let n = w_steps (case r of Inl _ \<Rightarrow> v | Inr _ \<Rightarrow> snd (running v)) in
       \<lparr>redis_open = redis_open c \<and> redis_fault e n \<noteq> None, pool_open = pool_open c \<and> web_db_fault e (Suc n) \<noteq> None\<rparr>)))"
proof -
  obtain q u where body: "bnd (lifted (wait_for_dependencies e)) (\<lambda>_. lifted running) (w, c) = (q, (u, c))"
    and q: "q = (case r of Inl x \<Rightarrow> Inl x | Inr _ \<Rightarrow> fst (running v))" and u: "u = (case r of Inl _ \<Rightarrow> v | Inr _ \<Rightarrow> snd (running v))"
    using assms by (cases r; cases "running v") (auto simp: bnd_def lifted_def)
  show ?thesis
    using close_clients_both [of e u c] body
    by (auto simp: lifespan_def outcome_of_def bnd_def lift_sum_def q u Let_def)
qed

section \<open>Properties\<close>

text \<open>
  C33. The service starts with the first of its three attempts at which Postgres and Redis both answer,
  attempt `i` (from 0), after delays of 2 and 4 seconds between the attempts; what it serves is what the
  process ends with.  If no attempt succeeds it has waited both delays and ends with an error.  Either way
  the Redis client and the pool of the engine are closed at the end, each unless its own close fails.
\<close>

theorem startup_ready:
  assumes "i \<le> 3" and "\<forall>j<i. \<not> checks_pass e (attempt_start e (w_steps w) j)"
    and "i < 3 \<longrightarrow> checks_pass e (attempt_start e (w_steps w) i)"
  shows "\<exists>r v u d. wait_for_dependencies e w = (r, v) \<and> w_slept v = w_slept w @ take i [2, 4]
     \<and> (if i < 3 then r = Inr () else \<exists>x. r = Inl x)
     \<and> lifespan e running (w, c) = (case r of Inl x \<Rightarrow> Inl x | Inr _ \<Rightarrow> fst (running v), (u, d))
     \<and> (let n = w_steps (case r of Inl _ \<Rightarrow> v | Inr _ \<Rightarrow> snd (running v)) in
         redis_open d = (redis_open c \<and> redis_fault e n \<noteq> None)
         \<and> pool_open d = (pool_open c \<and> web_db_fault e (Suc n) \<noteq> None))"
proof -
  from startup_waits [OF assms] obtain r v where
    v: "wait_for_dependencies e w = (r, v)" "w_slept v = w_slept w @ take i [2, 4]"
      "if i < 3 then r = Inr () else \<exists>x. r = Inl x" by blast
  from lifespan_closes [OF v(1), of running c] obtain u where
    u: "lifespan e running (w, c) = (case r of Inl x \<Rightarrow> Inl x | Inr _ \<Rightarrow> fst (running v), (u,
     (let n = w_steps (case r of Inl _ \<Rightarrow> v | Inr _ \<Rightarrow> snd (running v)) in
       \<lparr>redis_open = redis_open c \<and> redis_fault e n \<noteq> None, pool_open = pool_open c \<and> web_db_fault e (Suc n) \<noteq> None\<rparr>)))"
    by blast
  show ?thesis
    by (intro exI conjI, rule v(1), rule v(2), rule v(3), rule u) (simp add: Let_def)
qed

definition late_redis_env :: web_env where
  "late_redis_env = small_env\<lparr>redis_fault := \<lambda>n. if n < 4 then Some (''refused'', False) else None\<rparr>"

lemma late_redis_steps: "w_steps (snd (wait_for_dependencies late_redis_env small_web)) = 6"
  by code_simp

lemma startup_ready_witness:
  "\<exists>r v u d. wait_for_dependencies late_redis_env small_web = (r, v) \<and> w_slept v = w_slept small_web @ [2, 4] \<and> r = Inr ()
     \<and> lifespan late_redis_env (ret (7 :: int)) (small_web, \<lparr>redis_open = True, pool_open = True\<rparr>) = (Inr 7, (u, d))
     \<and> \<not> redis_open d \<and> \<not> pool_open d"
proof -
  have faults: "web_db_fault late_redis_env n = None"
    "redis_fault late_redis_env n = (if n < 4 then Some (''refused'', False) else None)" for n
    by (simp_all add: late_redis_env_def small_env_def)
  have zero: "w_steps small_web = 0" by (simp add: small_web_def world_of_def)
  have "\<forall>j<2. \<not> checks_pass late_redis_env (attempt_start late_redis_env (w_steps small_web) j)"
    by (auto simp: checks_pass_def faults zero numeral_2_eq_2 less_Suc_eq)
  moreover have "checks_pass late_redis_env (attempt_start late_redis_env (w_steps small_web) 2)"
    by (simp add: checks_pass_def faults zero numeral_2_eq_2)
  ultimately show ?thesis
    using startup_ready [of 2 late_redis_env small_web "ret (7 :: int)" "\<lparr>redis_open = True, pool_open = True\<rparr>"]
      late_redis_steps
    by (auto simp: ret_def Let_def faults)
qed

end
