(* ===== verification/Schema.thy ===== *)
theory Schema
  imports Ingest_Model
begin

text \<open>
  The operations of Alembic's `op` that the migrations of src/alembic use, on a Postgres database: its
  tables with their columns, constraints and indexes, its enum types, and the rows.  An operation
  checks what Postgres checks, of the schema (`exec_schema`) and of the rows that are there
  (`exec_rows`), and fails with its error.

  A row is a function on column names; what is no column of its table is `NullV`.  The name of a
  constraint without one is the name Postgres gives it.  A foreign key refers to a primary key.
\<close>

section \<open>Values and types\<close>

datatype sqlval = NullV | IntV int | TextV string | BoolV bool | TimeV datetime | NumV decimal
  | JsonV json | UuidV nat

text \<open>
  The column types; `SqlEnum name values native` is `sa.Enum` with its `native_enum` option: a type of the
  database, or a VARCHAR as long as the longest value.
\<close>

datatype sqltype = SqlInteger | SqlBigInteger | SqlBoolean | SqlText | SqlString "nat option" | SqlDateTime
  | SqlUuid | SqlJsonb | SqlNumeric nat nat | SqlEnum string "string list" bool

definition sql_text :: "string \<Rightarrow> bool" where
  "sql_text s \<longleftrightarrow> CHR 0x00 \<notin> set s"

fun has_type :: "sqltype \<Rightarrow> sqlval \<Rightarrow> bool" where
  "has_type SqlInteger (IntV i) = (- (2 ^ 31) \<le> i \<and> i < 2 ^ 31)"
| "has_type SqlBigInteger (IntV i) = (- (2 ^ 63) \<le> i \<and> i < 2 ^ 63)"
| "has_type SqlBoolean (BoolV b) = True"
| "has_type SqlText (TextV s) = sql_text s"
| "has_type (SqlString n) (TextV s) = (sql_text s \<and> (case n of None \<Rightarrow> True | Some m \<Rightarrow> length s \<le> m))"
| "has_type SqlDateTime (TimeV t) = True"
| "has_type SqlUuid (UuidV n) = (n < 2 ^ 128)"
| "has_type SqlJsonb (JsonV q) = True"
| "has_type (SqlNumeric p s) (NumV DNaN) = True"
| "has_type (SqlNumeric p s) (NumV (DNum q)) = (\<bar>q\<bar> < 10 ^ (p - s) \<and> of_int \<lfloor>q * 10 ^ s\<rfloor> = q * 10 ^ s)"
| "has_type (SqlEnum name vs native) (TextV s) =
     (if native then s \<in> set vs else sql_text s \<and> length s \<le> foldr max (map length vs) 0)"
| "has_type _ _ = False"

section \<open>Tables\<close>

text \<open>The server default of a column: none, a literal, `now()`, or the sequence of a SERIAL column.\<close>

datatype server_default = NoDefault | Literal sqlval | DefaultNow | Sequence

record sa_column =
  cd_name :: string
  cd_type :: sqltype
  cd_nullable :: bool
  cd_default :: server_default

definition sa_column :: "string \<Rightarrow> sqltype \<Rightarrow> bool \<Rightarrow> server_default \<Rightarrow> sa_column" where
  "sa_column n ty nullable d = \<lparr>cd_name = n, cd_type = ty, cd_nullable = nullable, cd_default = d\<rparr>"

definition opt :: "string \<Rightarrow> sqltype \<Rightarrow> sa_column" where "opt n ty = sa_column n ty True NoDefault"
definition req :: "string \<Rightarrow> sqltype \<Rightarrow> sa_column" where "req n ty = sa_column n ty False NoDefault"

record sa_fk =
  fk_name :: string
  fk_columns :: "string list"
  fk_parent :: string
  fk_parent_columns :: "string list"
  fk_cascade :: bool

record sa_table =
  st_columns :: "sa_column list"
  st_pk :: "(string \<times> string list) option"
  st_fks :: "sa_fk list"
  st_checks :: "(string \<times> string \<times> string list) list"  \<comment> \<open>name, column, its values\<close>
  st_indexes :: "(string \<times> string list \<times> bool) list"  \<comment> \<open>name, columns, unique\<close>

record schema =
  sch_tables :: "(string, sa_table) dict"
  sch_types :: "(string, string list) dict"

definition column_names :: "sa_table \<Rightarrow> string list" where
  "column_names t = map cd_name (st_columns t)"

section \<open>Operations\<close>

datatype table_constraint =
    PrimaryKeyConstraint "string list"
  | ForeignKeyConstraint "string list" string "string list" bool  \<comment> \<open>ondelete CASCADE\<close>
  | CheckIn string string "string list"

datatype constraint_kind = PrimaryKind | ForeignKind

datatype ddl =
    CreateTable string "sa_column list" "table_constraint list"
  | DropTable string
  | AddColumn string sa_column
  | DropColumn string string
  | AlterDefault string string server_default
  | CreateIndex string string "string list" bool
  | DropIndex string string
  | DropConstraint string string constraint_kind
  | CreatePrimaryKey string string "string list"
  | CreateForeignKey string string string "string list" "string list" bool
  | DeleteWhereNot string string string  \<comment> \<open>DELETE FROM table WHERE column <> value\<close>

datatype ddl_error = DuplicateTable | UndefinedTable | DuplicateColumn | UndefinedColumn | DuplicateType
  | UndefinedType | UndefinedConstraint | InvalidDefinition | DependentObjects | DatatypeMismatch
  | NotNullViolation | UniqueViolation | ForeignKeyViolation

definition require :: "bool \<Rightarrow> ddl_error \<Rightarrow> ddl_error + 'a \<Rightarrow> ddl_error + 'a" where
  "require b x k = (if b then k else Inl x)"

lemma require_Inr [simp]: "require b x k = Inr y \<longleftrightarrow> b \<and> k = Inr y"
  by (simp add: require_def)

section \<open>What an operation does to the schema\<close>

fun add_constraint :: "string \<Rightarrow> table_constraint \<Rightarrow> sa_table \<Rightarrow> sa_table" where
  "add_constraint n (PrimaryKeyConstraint cs) t = t\<lparr>st_pk := Some (n @ ''_pkey'', cs)\<rparr>"
| "add_constraint n (ForeignKeyConstraint cs p pcs cascade) t =
     t\<lparr>st_fks := st_fks t @ [\<lparr>fk_name = n @ ''_'' @ hd cs @ ''_fkey'', fk_columns = cs, fk_parent = p,
       fk_parent_columns = pcs, fk_cascade = cascade\<rparr>]\<rparr>"
| "add_constraint n (CheckIn name c vs) t = t\<lparr>st_checks := st_checks t @ [(name, c, vs)]\<rparr>"

definition new_table :: "string \<Rightarrow> sa_column list \<Rightarrow> table_constraint list \<Rightarrow> sa_table" where
  "new_table n cols cons =
     foldl (\<lambda>t c. add_constraint n c t) \<lparr>st_columns = cols, st_pk = None, st_fks = [], st_checks = [], st_indexes = []\<rparr> cons"

text \<open>`a.c` in a foreign key of the table: the parent's primary key.\<close>

definition fk_target_ok :: "schema \<Rightarrow> sa_fk \<Rightarrow> bool" where
  "fk_target_ok s f = (case map_of (sch_tables s) (fk_parent f) of None \<Rightarrow> False
     | Some p \<Rightarrow> (case st_pk p of None \<Rightarrow> False | Some (_, cs) \<Rightarrow> cs = fk_parent_columns f))"

definition columns_needed :: "sa_table \<Rightarrow> string list" where
  "columns_needed t = (case st_pk t of None \<Rightarrow> [] | Some (_, cs) \<Rightarrow> cs) @ concat (map fk_columns (st_fks t))
     @ map (fst \<circ> snd) (st_checks t) @ concat (map (fst \<circ> snd) (st_indexes t))"

definition not_null_in :: "sa_table \<Rightarrow> string list \<Rightarrow> bool" where
  "not_null_in t cs \<longleftrightarrow> (\<forall>c\<in>set (st_columns t). cd_name c \<in> set cs \<longrightarrow> \<not> cd_nullable c)"

definition pk_not_null :: "sa_table \<Rightarrow> bool" where
  "pk_not_null t = (case st_pk t of None \<Rightarrow> True | Some (_, cs) \<Rightarrow> not_null_in t cs)"

definition default_fits :: "sa_column \<Rightarrow> bool" where
  "default_fits c = (case cd_default c of Literal v \<Rightarrow> has_type (cd_type c) v | DefaultNow \<Rightarrow> cd_type c = SqlDateTime
     | Sequence \<Rightarrow> cd_type c = SqlInteger | NoDefault \<Rightarrow> True)"

fun native_type :: "sqltype \<Rightarrow> (string \<times> string list) option" where
  "native_type (SqlEnum n vs native) = (if native then Some (n, vs) else None)"
| "native_type _ = None"

definition native_types :: "sa_column list \<Rightarrow> (string \<times> string list) list" where
  "native_types cols = List.map_filter (native_type \<circ> cd_type) cols"

definition all_indexes :: "schema \<Rightarrow> string list" where
  "all_indexes s = concat (map (map fst \<circ> st_indexes \<circ> snd) (sch_tables s))"

text \<open>The foreign keys of other tables that refer to a table.\<close>

definition referring :: "schema \<Rightarrow> string \<Rightarrow> (string \<times> sa_fk) list" where
  "referring s n = concat (map (\<lambda>(m, t). map (Pair m) (filter (\<lambda>f. fk_parent f = n) (st_fks t))) (sch_tables s))"

definition with_table :: "string \<Rightarrow> schema \<Rightarrow> (sa_table \<Rightarrow> ddl_error + sa_table) \<Rightarrow> ddl_error + schema" where
  "with_table n s f = (case map_of (sch_tables s) n of None \<Rightarrow> Inl UndefinedTable
     | Some t \<Rightarrow> map_sum id (\<lambda>t'. s\<lparr>sch_tables := AList.update n t' (sch_tables s)\<rparr>) (f t))"

definition drop_mentions :: "string \<Rightarrow> sa_table \<Rightarrow> sa_table" where
  "drop_mentions c t = t\<lparr>st_pk := (case st_pk t of None \<Rightarrow> None | Some (n, cs) \<Rightarrow> if c \<in> set cs then None else Some (n, cs)),
     st_fks := filter (\<lambda>f. c \<notin> set (fk_columns f)) (st_fks t),
     st_checks := filter (\<lambda>(_, d, _). d \<noteq> c) (st_checks t),
     st_indexes := filter (\<lambda>(_, cs, _). c \<notin> set cs) (st_indexes t)\<rparr>"

fun exec_schema :: "ddl \<Rightarrow> schema \<Rightarrow> ddl_error + schema" where
  "exec_schema (CreateTable n cols cons) s = (let t = new_table n cols cons in
     require (n \<notin> fst ` set (sch_tables s)) DuplicateTable
    (require (distinct (column_names t)) DuplicateColumn
    (require (set (columns_needed t) \<subseteq> set (column_names t) \<and> pk_not_null t) InvalidDefinition
    (require (\<forall>f\<in>set (st_fks t). fk_target_ok s f) UndefinedTable
    (require (\<forall>c\<in>set cols. default_fits c) DatatypeMismatch
    (require (distinct (map fst (native_types cols)) \<and> fst ` set (native_types cols) \<inter> fst ` set (sch_types s) = {}) DuplicateType
    (Inr (s\<lparr>sch_tables := sch_tables s @ [(n, t)], sch_types := sch_types s @ native_types cols\<rparr>))))))))"
| "exec_schema (DropTable n) s =
    require (n \<in> fst ` set (sch_tables s)) UndefinedTable
   (require (\<forall>(m, f)\<in>set (referring s n). m = n) DependentObjects
   (Inr (s\<lparr>sch_tables := AList.delete n (sch_tables s)\<rparr>)))"
| "exec_schema (AddColumn n c) s = with_table n s (\<lambda>t.
    require (cd_name c \<notin> set (column_names t)) DuplicateColumn
   (require (default_fits c) DatatypeMismatch
   (require (\<forall>p\<in>set (native_types [c]). map_of (sch_types s) (fst p) = Some (snd p)) UndefinedType
   (Inr (t\<lparr>st_columns := st_columns t @ [c]\<rparr>)))))"
| "exec_schema (DropColumn n c) s = with_table n s (\<lambda>t.
    require (c \<in> set (column_names t)) UndefinedColumn
   (require (\<forall>(m, f)\<in>set (referring s n). c \<notin> set (fk_parent_columns f)) DependentObjects
   (Inr ((drop_mentions c t)\<lparr>st_columns := filter (\<lambda>d. cd_name d \<noteq> c) (st_columns t)\<rparr>))))"
| "exec_schema (AlterDefault n c d) s = with_table n s (\<lambda>t.
    require (c \<in> set (column_names t)) UndefinedColumn
   (let cols = map (\<lambda>x. if cd_name x = c then x\<lparr>cd_default := d\<rparr> else x) (st_columns t) in
    require (\<forall>x\<in>set cols. default_fits x) DatatypeMismatch (Inr (t\<lparr>st_columns := cols\<rparr>))))"
| "exec_schema (CreateIndex i n cs u) s = with_table n s (\<lambda>t.
    require (i \<notin> set (all_indexes s)) DuplicateTable
   (require (set cs \<subseteq> set (column_names t)) UndefinedColumn
   (Inr (t\<lparr>st_indexes := st_indexes t @ [(i, cs, u)]\<rparr>))))"
| "exec_schema (DropIndex i n) s = with_table n s (\<lambda>t.
    require (i \<in> set (map fst (st_indexes t))) UndefinedConstraint
   (Inr (t\<lparr>st_indexes := filter (\<lambda>x. fst x \<noteq> i) (st_indexes t)\<rparr>)))"
| "exec_schema (DropConstraint k n PrimaryKind) s = with_table n s (\<lambda>t.
    require (map fst (case st_pk t of None \<Rightarrow> [] | Some p \<Rightarrow> [p]) = [k]) UndefinedConstraint
   (require (referring s n = []) DependentObjects
   (Inr (t\<lparr>st_pk := None\<rparr>))))"
| "exec_schema (DropConstraint k n ForeignKind) s = with_table n s (\<lambda>t.
    require (k \<in> set (map fk_name (st_fks t))) UndefinedConstraint
   (Inr (t\<lparr>st_fks := filter (\<lambda>f. fk_name f \<noteq> k) (st_fks t)\<rparr>)))"
| "exec_schema (CreatePrimaryKey k n cs) s = with_table n s (\<lambda>t.
    require (st_pk t = None) InvalidDefinition
   (require (set cs \<subseteq> set (column_names t)) UndefinedColumn
   (Inr (t\<lparr>st_pk := Some (k, cs),
     st_columns := map (\<lambda>x. if cd_name x \<in> set cs then x\<lparr>cd_nullable := False\<rparr> else x) (st_columns t)\<rparr>))))"
| "exec_schema (CreateForeignKey k n p cs pcs cascade) s = with_table n s (\<lambda>t.
    let f = \<lparr>fk_name = k, fk_columns = cs, fk_parent = p, fk_parent_columns = pcs, fk_cascade = cascade\<rparr> in
    require (k \<notin> set (map fk_name (st_fks t))) InvalidDefinition
   (require (set cs \<subseteq> set (column_names t)) UndefinedColumn
   (require (fk_target_ok s f) UndefinedTable
   (Inr (t\<lparr>st_fks := st_fks t @ [f]\<rparr>)))))"
| "exec_schema (DeleteWhereNot n c v) s = with_table n s (\<lambda>t.
    require (c \<in> set (column_names t)) UndefinedColumn (Inr t))"

section \<open>What it does to the rows\<close>

type_synonym sql_row = "string \<Rightarrow> sqlval"
type_synonym sql_rows = "string \<Rightarrow> sql_row list"

definition project :: "string list \<Rightarrow> sql_row \<Rightarrow> sqlval list" where
  "project cs r = map r cs"

text \<open>Rows with a NULL in the columns are all different in a unique index, and pass a foreign key.\<close>

definition unique_on :: "string list \<Rightarrow> sql_row list \<Rightarrow> bool" where
  "unique_on cs rs \<longleftrightarrow> distinct (filter (\<lambda>k. NullV \<notin> set k) (map (project cs) rs))"

definition not_null_on :: "string list \<Rightarrow> sql_row list \<Rightarrow> bool" where
  "not_null_on cs rs \<longleftrightarrow> (\<forall>r\<in>set rs. NullV \<notin> set (project cs r))"

definition refers_to :: "string list \<Rightarrow> sql_row list \<Rightarrow> string list \<Rightarrow> sql_row list \<Rightarrow> bool" where
  "refers_to cs rs pcs ps \<longleftrightarrow> (\<forall>r\<in>set rs. NullV \<in> set (project cs r) \<or> project cs r \<in> project pcs ` set ps)"

text \<open>
  The value a new column has in the rows that are there.  (No migration adds a column with `now()` or
  a sequence to a table with rows, whose values would be the time of the migration or a numbering.)
\<close>

fun filled_with :: "server_default \<Rightarrow> sqlval option" where
  "filled_with (Literal v) = Some v"
| "filled_with NoDefault = Some NullV"
| "filled_with _ = None"

definition fill :: "sa_column \<Rightarrow> sql_row list \<Rightarrow> ddl_error + sql_row list" where
  "fill c rs = (if rs = [] then Inr [] else case filled_with (cd_default c) of
      None \<Rightarrow> Inl InvalidDefinition
    | Some v \<Rightarrow> require (cd_nullable c \<or> v \<noteq> NullV) NotNullViolation (Inr (map (\<lambda>r. r(cd_name c := v)) rs)))"

fun exec_rows :: "ddl \<Rightarrow> schema \<Rightarrow> sql_rows \<Rightarrow> ddl_error + sql_rows" where
  "exec_rows (CreateTable n _ _) s d = Inr (d(n := []))"
| "exec_rows (DropTable n) s d = Inr (d(n := []))"
| "exec_rows (AddColumn n c) s d = map_sum id (\<lambda>rs. d(n := rs)) (fill c (d n))"
| "exec_rows (DropColumn n c) s d = Inr (d(n := map (\<lambda>r. r(c := NullV)) (d n)))"
| "exec_rows (AlterDefault _ _ _) s d = Inr d"
| "exec_rows (CreateIndex _ n cs u) s d = require (u \<longrightarrow> unique_on cs (d n)) UniqueViolation (Inr d)"
| "exec_rows (DropIndex _ _) s d = Inr d"
| "exec_rows (DropConstraint _ _ _) s d = Inr d"
| "exec_rows (CreatePrimaryKey _ n cs) s d =
     require (not_null_on cs (d n)) NotNullViolation (require (unique_on cs (d n)) UniqueViolation (Inr d))"
| "exec_rows (CreateForeignKey _ n p cs pcs _) s d = require (refers_to cs (d n) pcs (d p)) ForeignKeyViolation (Inr d)"
| "exec_rows (DeleteWhereNot n c v) s d =
     (let d' = d(n := filter (\<lambda>r. r c = NullV \<or> r c = TextV v) (d n)) in
      require (\<forall>(m, f)\<in>set (referring s n). refers_to (fk_columns f) (d' m) (fk_parent_columns f) (d' n))
        ForeignKeyViolation (Inr d'))"

section \<open>A database and its migrations\<close>

record database =
  d_schema :: schema
  d_rows :: sql_rows
  d_version :: "string option"

definition exec_ddl :: "ddl \<Rightarrow> database \<Rightarrow> ddl_error + database" where
  "exec_ddl o1 d = (case exec_schema o1 (d_schema d) of Inl x \<Rightarrow> Inl x
     | Inr s \<Rightarrow> (case exec_rows o1 (d_schema d) (d_rows d) of Inl x \<Rightarrow> Inl x
        | Inr rows \<Rightarrow> Inr (d\<lparr>d_schema := s, d_rows := rows\<rparr>)))"

fun exec_all :: "ddl list \<Rightarrow> database \<Rightarrow> ddl_error + database" where
  "exec_all [] d = Inr d"
| "exec_all (o1 # ops) d = (case exec_ddl o1 d of Inl x \<Rightarrow> Inl x | Inr d' \<Rightarrow> exec_all ops d')"

end
