(* ===== verification/Migrations.thy ===== *)
theory Migrations
  imports Schema Imdb
begin

text \<open>
  src/alembic: the migrations of alembic/versions, each the list of its operations up and down, and the
  run of env.py that applies them in one transaction.  Next to them stand the tables that the models
  declare (src/app/*/models.py), as the operations that would create them; and the URL
  that alembic connects with.
\<close>

section \<open>The migrations\<close>

record migration =
  mig_revision :: string
  mig_down :: "string option"
  mig_upgrade :: "ddl list"
  mig_downgrade :: "ddl list"

text \<open>The columns that many tables have.\<close>

definition stamped :: "string \<Rightarrow> bool \<Rightarrow> sa_column" where
  "stamped n nullable = sa_column n SqlDateTime nullable DefaultNow"

definition flag :: "string \<Rightarrow> sa_column" where
  "flag n = sa_column n SqlBoolean False (Literal (BoolV False))"

definition f1_teams :: sqltype where
  "f1_teams = SqlEnum ''f1teams'' [''MERCEDES'', ''FERRARI'', ''RED_BULL'', ''MCLAREN'', ''ALPINE'', ''ASTON_MARTIN'',
     ''RACING_BULLS'', ''HAAS'', ''WILLIAMS'', ''AUDI'', ''CADILLAC''] True"

definition user_rank :: sqltype where
  "user_rank = SqlEnum ''userrank'' [''ROOKIE'', ''AMATEUR'', ''PRO'', ''WORLD_CLASS'', ''CHAMPION''] True"

definition created_user_model :: migration where
  "created_user_model = \<lparr>mig_revision = ''a6c1eb602edc'', mig_down = None,
     mig_upgrade = [
       CreateTable ''users''
         [req ''id'' SqlUuid, req ''email'' (SqlString None), req ''username'' (SqlString None),
          req ''password'' (SqlString None), req ''f1_team'' f1_teams, opt ''rank'' user_rank,
          opt ''rank_elo'' SqlInteger, opt ''is_admin'' SqlBoolean, stamped ''created_at'' True]
         [PrimaryKeyConstraint [''id'']],
       CreateIndex ''ix_users_email'' ''users'' [''email''] True,
       CreateIndex ''ix_users_id'' ''users'' [''id''] False],
     mig_downgrade = [DropIndex ''ix_users_id'' ''users'', DropIndex ''ix_users_email'' ''users'', DropTable ''users'']\<rparr>"

definition created_refresh_token_model :: migration where
  "created_refresh_token_model = \<lparr>mig_revision = ''3e213479d3ea'', mig_down = Some ''a6c1eb602edc'',
     mig_upgrade = [], mig_downgrade = []\<rparr>"

definition created_refresh_token_model2 :: migration where
  "created_refresh_token_model2 = \<lparr>mig_revision = ''504b08293020'', mig_down = Some ''3e213479d3ea'',
     mig_upgrade = [
       CreateTable ''refresh_token''
         [req ''jti'' SqlUuid, req ''user_id'' SqlUuid, opt ''revoke'' SqlBoolean, req ''expires_at'' SqlDateTime,
          stamped ''created_at'' True]
         [ForeignKeyConstraint [''user_id''] ''users'' [''id''] False, PrimaryKeyConstraint [''jti'']],
       CreateIndex ''ix_refresh_token_jti'' ''refresh_token'' [''jti''] False,
       CreateIndex ''ix_refresh_token_user_id'' ''refresh_token'' [''user_id''] False],
     mig_downgrade = [DropIndex ''ix_refresh_token_user_id'' ''refresh_token'',
       DropIndex ''ix_refresh_token_jti'' ''refresh_token'', DropTable ''refresh_token'']\<rparr>"

definition updated_user_model_for_email :: migration where
  "updated_user_model_for_email = \<lparr>mig_revision = ''e5fc16ed8fca'', mig_down = Some ''504b08293020'',
     mig_upgrade = [
       AddColumn ''users'' (opt ''email_verification_code'' (SqlString None)),
       AddColumn ''users'' (opt ''is_verified'' SqlBoolean),
       AddColumn ''users'' (opt ''email_verification_expiry'' SqlDateTime),
       CreateIndex ''ix_users_email_verification_code'' ''users'' [''email_verification_code''] True],
     mig_downgrade = [
       DropIndex ''ix_users_email_verification_code'' ''users'',
       DropColumn ''users'' ''email_verification_expiry'',
       DropColumn ''users'' ''is_verified'',
       DropColumn ''users'' ''email_verification_code'']\<rparr>"

definition add_cascade_delete :: migration where
  "add_cascade_delete = \<lparr>mig_revision = ''e2d938aaf932'', mig_down = Some ''e5fc16ed8fca'',
     mig_upgrade = [
       DropConstraint ''refresh_token_user_id_fkey'' ''refresh_token'' ForeignKind,
       CreateForeignKey ''refresh_token_user_id_fkey'' ''refresh_token'' ''users'' [''user_id''] [''id''] True],
     mig_downgrade = [
       DropConstraint ''refresh_token_user_id_fkey'' ''refresh_token'' ForeignKind,
       CreateForeignKey ''refresh_token_user_id_fkey'' ''refresh_token'' ''users'' [''user_id''] [''id''] False]\<rparr>"

definition refactored_f1_user_table :: migration where
  "refactored_f1_user_table = \<lparr>mig_revision = ''9d76c03afd2b'', mig_down = Some ''e2d938aaf932'',
     mig_upgrade = [
       DropIndex ''ix_users_email_verification_code'' ''users'',
       DropColumn ''users'' ''rank_elo'',
       DropColumn ''users'' ''f1_team'',
       DropColumn ''users'' ''email_verification_expiry'',
       DropColumn ''users'' ''email_verification_code'',
       DropColumn ''users'' ''rank''],
     mig_downgrade = [
       AddColumn ''users'' (opt ''rank'' user_rank),
       AddColumn ''users'' (opt ''email_verification_code'' (SqlString None)),
       AddColumn ''users'' (opt ''email_verification_expiry'' SqlDateTime),
       AddColumn ''users'' (req ''f1_team'' f1_teams),
       AddColumn ''users'' (opt ''rank_elo'' SqlInteger),
       CreateIndex ''ix_users_email_verification_code'' ''users'' [''email_verification_code''] True]\<rparr>"

definition add_revoked_at :: migration where
  "add_revoked_at = \<lparr>mig_revision = ''b7a41c9e2d10'', mig_down = Some ''9d76c03afd2b'',
     mig_upgrade = [AddColumn ''refresh_token'' (opt ''revoked_at'' SqlDateTime)],
     mig_downgrade = [DropColumn ''refresh_token'' ''revoked_at'']\<rparr>"

definition resource_names :: "string list" where
  "resource_names = [''details'', ''statistics'', ''reviews'', ''episodes'', ''characters'']"

definition add_ingestion_task :: migration where
  "add_ingestion_task = \<lparr>mig_revision = ''4138a76d7f0b'', mig_down = Some ''b7a41c9e2d10'',
     mig_upgrade = [
       CreateTable ''ingestion_task''
         [req ''mal_id'' SqlInteger, req ''resource'' (SqlEnum ''resource'' resource_names False),
          sa_column ''status'' (SqlEnum ''taskstatus'' [''pending'', ''done'', ''failed'', ''dead'', ''gone''] False) False
            (Literal (TextV ''pending'')),
          sa_column ''attempts'' SqlInteger False (Literal (IntV 0)),
          opt ''next_attempt_at'' SqlDateTime, opt ''last_error'' SqlText,
          stamped ''created_at'' False, stamped ''updated_at'' False]
         [CheckIn ''ck_ingestion_task_resource'' ''resource'' resource_names,
          CheckIn ''ck_ingestion_task_status'' ''status'' [''pending'', ''done'', ''failed'', ''dead'', ''gone''],
          PrimaryKeyConstraint [''mal_id'', ''resource'']]],
     mig_downgrade = [DropTable ''ingestion_task'']\<rparr>"

definition add_raw_tenrai :: migration where
  "add_raw_tenrai = \<lparr>mig_revision = ''5318523285a5'', mig_down = Some ''4138a76d7f0b'',
     mig_upgrade = [
       CreateTable ''raw_tenrai''
         [req ''mal_id'' SqlInteger, req ''resource'' (SqlEnum ''resource'' resource_names False),
          req ''payload'' SqlJsonb, stamped ''fetched_at'' False]
         [CheckIn ''ck_raw_tenrai_resource'' ''resource'' resource_names,
          PrimaryKeyConstraint [''mal_id'', ''resource'']]],
     mig_downgrade = [DropTable ''raw_tenrai'']\<rparr>"

definition to_anime :: table_constraint where
  "to_anime = ForeignKeyConstraint [''anime_id''] ''anime'' [''mal_id''] True"

definition score :: "string \<Rightarrow> sa_column" where
  "score n = opt n (SqlNumeric 4 2)"

definition add_catalogue_tables :: migration where
  "add_catalogue_tables = \<lparr>mig_revision = ''78f3013b67fa'', mig_down = Some ''5318523285a5'',
     mig_upgrade = [
       CreateTable ''anime''
         [req ''mal_id'' SqlInteger, req ''title'' SqlText, opt ''title_english'' SqlText, opt ''title_japanese'' SqlText,
          opt ''type'' SqlText, opt ''status'' SqlText, opt ''rating'' SqlText, opt ''source_material'' SqlText,
          opt ''season'' SqlText, opt ''year'' SqlInteger, opt ''episodes'' SqlInteger, opt ''duration_minutes'' SqlInteger,
          opt ''aired_from'' SqlDateTime, opt ''aired_to'' SqlDateTime, score ''mal_score'', score ''anilist_score'',
          score ''imdb_score'', opt ''scored_by_mal'' SqlInteger, opt ''members_mal'' SqlInteger,
          opt ''favorites_mal'' SqlInteger, opt ''rank_mal'' SqlInteger, opt ''popularity_mal'' SqlInteger,
          opt ''synopsis'' SqlText, opt ''synopsis_hash'' SqlText, opt ''background'' SqlText, opt ''image_url'' SqlText,
          stamped ''created_at'' False, stamped ''updated_at'' False]
         [PrimaryKeyConstraint [''mal_id'']],
       CreateTable ''studio'' [req ''mal_id'' SqlInteger, req ''name'' SqlText] [PrimaryKeyConstraint [''mal_id'']],
       CreateTable ''tag'' [req ''mal_id'' SqlInteger, req ''name'' SqlText] [PrimaryKeyConstraint [''mal_id'']],
       CreateTable ''anime_relation''
         [req ''anime_id'' SqlInteger, req ''relation'' SqlText, req ''related_type'' SqlText, req ''related_mal_id'' SqlInteger]
         [to_anime, PrimaryKeyConstraint [''anime_id'', ''relation'', ''related_type'', ''related_mal_id'']],
       CreateTable ''anime_statistics_mal''
         [req ''anime_id'' SqlInteger, req ''watching'' SqlInteger, req ''completed'' SqlInteger, req ''on_hold'' SqlInteger,
          req ''dropped'' SqlInteger, req ''plan_to_watch'' SqlInteger, req ''total'' SqlInteger,
          opt ''votes_1'' SqlInteger, opt ''votes_2'' SqlInteger, opt ''votes_3'' SqlInteger, opt ''votes_4'' SqlInteger,
          opt ''votes_5'' SqlInteger, opt ''votes_6'' SqlInteger, opt ''votes_7'' SqlInteger, opt ''votes_8'' SqlInteger,
          opt ''votes_9'' SqlInteger, opt ''votes_10'' SqlInteger, stamped ''updated_at'' False]
         [to_anime, PrimaryKeyConstraint [''anime_id'']],
       CreateTable ''anime_studio'' [req ''anime_id'' SqlInteger, req ''studio_id'' SqlInteger]
         [to_anime, ForeignKeyConstraint [''studio_id''] ''studio'' [''mal_id''] True,
          PrimaryKeyConstraint [''anime_id'', ''studio_id'']],
       CreateTable ''anime_tag'' [req ''anime_id'' SqlInteger, req ''tag_id'' SqlInteger]
         [to_anime, ForeignKeyConstraint [''tag_id''] ''tag'' [''mal_id''] True,
          PrimaryKeyConstraint [''anime_id'', ''tag_id'']],
       CreateTable ''episode''
         [req ''anime_id'' SqlInteger, req ''episode_number'' SqlInteger, opt ''title'' SqlText, opt ''title_japanese'' SqlText,
          opt ''title_romanji'' SqlText, opt ''aired'' SqlDateTime, opt ''duration_seconds'' SqlInteger, opt ''synopsis'' SqlText,
          opt ''synopsis_hash'' SqlText, flag ''filler'', flag ''recap'', score ''mal_score'', score ''anilist_score'',
          score ''imdb_score'']
         [to_anime, PrimaryKeyConstraint [''anime_id'', ''episode_number'']],
       CreateTable ''review''
         [req ''mal_id'' SqlInteger, req ''anime_id'' SqlInteger, opt ''score'' SqlInteger, req ''review'' SqlText,
          opt ''review_url'' SqlText, opt ''username'' SqlText, opt ''username_url'' SqlText, opt ''date'' SqlDateTime,
          flag ''is_spoiler'', flag ''is_preliminary'', opt ''episodes_watched'' SqlInteger,
          opt ''reaction_overall'' SqlInteger, opt ''reaction_nice'' SqlInteger, opt ''reaction_love_it'' SqlInteger,
          opt ''reaction_funny'' SqlInteger, opt ''reaction_confusing'' SqlInteger, opt ''reaction_informative'' SqlInteger,
          opt ''reaction_well_written'' SqlInteger, opt ''reaction_creative'' SqlInteger, stamped ''updated_at'' False]
         [to_anime, PrimaryKeyConstraint [''mal_id'']]],
     mig_downgrade = [DropTable ''review'', DropTable ''episode'', DropTable ''anime_tag'', DropTable ''anime_studio'',
       DropTable ''anime_statistics_mal'', DropTable ''anime_relation'', DropTable ''tag'', DropTable ''studio'',
       DropTable ''anime'']\<rparr>"

definition deleted_related_type :: migration where
  "deleted_related_type = \<lparr>mig_revision = ''84b981b0d01a'', mig_down = Some ''78f3013b67fa'',
     mig_upgrade = [
       DeleteWhereNot ''anime_relation'' ''related_type'' ''anime'',
       DropConstraint ''anime_relation_pkey'' ''anime_relation'' PrimaryKind,
       DropColumn ''anime_relation'' ''related_type'',
       CreatePrimaryKey ''anime_relation_pkey'' ''anime_relation'' [''anime_id'', ''relation'', ''related_mal_id'']],
     mig_downgrade = [
       DropConstraint ''anime_relation_pkey'' ''anime_relation'' PrimaryKind,
       AddColumn ''anime_relation'' (sa_column ''related_type'' SqlText False (Literal (TextV ''anime''))),
       AlterDefault ''anime_relation'' ''related_type'' NoDefault,
       CreatePrimaryKey ''anime_relation_pkey'' ''anime_relation''
         [''anime_id'', ''relation'', ''related_type'', ''related_mal_id'']]\<rparr>"

definition add_ingestion_run :: migration where
  "add_ingestion_run = \<lparr>mig_revision = ''3bd5db36b875'', mig_down = Some ''84b981b0d01a'',
     mig_upgrade = [
       CreateTable ''ingestion_run''
         [sa_column ''id'' SqlInteger False Sequence, req ''job'' (SqlString (Some 50)),
          sa_column ''status'' (SqlEnum ''runstatus'' [''running'', ''succeeded'', ''failed''] False) False
            (Literal (TextV ''running'')),
          stamped ''started_at'' False, opt ''finished_at'' SqlDateTime, opt ''summary'' SqlJsonb, opt ''error'' SqlText]
         [CheckIn ''ck_ingestion_run_status'' ''status'' [''running'', ''succeeded'', ''failed''],
          PrimaryKeyConstraint [''id'']]],
     mig_downgrade = [DropTable ''ingestion_run'']\<rparr>"

definition raw_payload_moves_to_s3 :: migration where
  "raw_payload_moves_to_s3 = \<lparr>mig_revision = ''c4f1a7d95e20'', mig_down = Some ''3bd5db36b875'',
     mig_upgrade = [
       AddColumn ''raw_tenrai'' (sa_column ''size_bytes'' SqlInteger False (Literal (IntV 0))),
       AlterDefault ''raw_tenrai'' ''size_bytes'' NoDefault,
       DropColumn ''raw_tenrai'' ''payload''],
     mig_downgrade = [
       AddColumn ''raw_tenrai'' (sa_column ''payload'' SqlJsonb False (Literal (JsonV (JObj [])))),
       AlterDefault ''raw_tenrai'' ''payload'' NoDefault,
       DropColumn ''raw_tenrai'' ''size_bytes'']\<rparr>"

definition add_imdb_tables :: migration where
  "add_imdb_tables = \<lparr>mig_revision = ''94794cdb7738'', mig_down = Some ''c4f1a7d95e20'',
     mig_upgrade = [
       CreateTable ''imdb_snapshot''
         [sa_column ''id'' SqlInteger False Sequence, opt ''finished_at'' SqlDateTime,
          opt ''basics_etag'' SqlText, opt ''basics_size_bytes'' SqlBigInteger,
          opt ''episode_etag'' SqlText, opt ''episode_size_bytes'' SqlBigInteger,
          opt ''ratings_etag'' SqlText, opt ''ratings_size_bytes'' SqlBigInteger,
          sa_column ''status'' (SqlEnum ''snapshotstatus'' [''running'', ''archived'', ''skipped'', ''failed''] False) False
            (Literal (TextV ''running''))]
         [CheckIn ''ck_imdb_snapshot_status'' ''status'' [''running'', ''archived'', ''skipped'', ''failed''],
          PrimaryKeyConstraint [''id'']],
       CreateTable ''anime_imdb_match''
         [req ''anime_id'' SqlInteger, opt ''imdb_tconst'' SqlText, opt ''season_number'' SqlInteger,
          opt ''episode_from'' SqlInteger, opt ''episode_to'' SqlInteger, opt ''score'' (SqlNumeric 5 4),
          req ''method'' (SqlEnum ''matchmethod'' [''override'', ''title'', ''chain''] False),
          req ''status'' (SqlEnum ''matchstatus'' [''accepted'', ''review'', ''unmatched''] False),
          opt ''candidates'' SqlJsonb, opt ''snapshot_id'' SqlInteger, stamped ''decided_at'' False]
         [CheckIn ''ck_anime_imdb_match_method'' ''method'' [''override'', ''title'', ''chain''],
          CheckIn ''ck_anime_imdb_match_status'' ''status'' [''accepted'', ''review'', ''unmatched''],
          to_anime, ForeignKeyConstraint [''snapshot_id''] ''imdb_snapshot'' [''id''] False,
          PrimaryKeyConstraint [''anime_id'']]],
     mig_downgrade = [DropTable ''anime_imdb_match'', DropTable ''imdb_snapshot'']\<rparr>"

text \<open>The directory, in the order of the file names.\<close>

definition versions :: "migration list" where
  "versions = [add_ingestion_run, created_refresh_token_model, add_ingestion_task, created_refresh_token_model2,
     add_raw_tenrai, add_catalogue_tables, deleted_related_type, add_imdb_tables, refactored_f1_user_table,
     created_user_model, add_revoked_at, raw_payload_moves_to_s3, add_cascade_delete, updated_user_model_for_email]"

section \<open>Running them\<close>

text \<open>
  The migrations from a revision to the head, by their `down_revision`; a fork has no single next one.
  The fuel is the number of migrations.
\<close>

definition next_migration :: "string option \<Rightarrow> migration option" where
  "next_migration v = (case filter (\<lambda>m. mig_down m = v) versions of [m] \<Rightarrow> Some m | _ \<Rightarrow> None)"

fun path_to_head :: "nat \<Rightarrow> string option \<Rightarrow> migration list" where
  "path_to_head 0 v = []"
| "path_to_head (Suc k) v = (case next_migration v of None \<Rightarrow> []
     | Some m \<Rightarrow> m # path_to_head k (Some (mig_revision m)))"

definition upgrade_by :: "migration \<Rightarrow> database \<Rightarrow> ddl_error + database" where
  "upgrade_by m d = map_sum id (\<lambda>d'. d'\<lparr>d_version := Some (mig_revision m)\<rparr>) (exec_all (mig_upgrade m) d)"

definition downgrade_by :: "migration \<Rightarrow> database \<Rightarrow> ddl_error + database" where
  "downgrade_by m d = map_sum id (\<lambda>d'. d'\<lparr>d_version := mig_down m\<rparr>) (exec_all (mig_downgrade m) d)"

fun run_migrations :: "(database \<Rightarrow> ddl_error + database) list \<Rightarrow> database \<Rightarrow> ddl_error + database" where
  "run_migrations [] d = Inr d"
| "run_migrations (m # ms) d = (case m d of Inl x \<Rightarrow> Inl x | Inr d' \<Rightarrow> run_migrations ms d')"

text \<open>`run_migrations_online`: one transaction around them, which an error rolls back.\<close>

definition run_migrations_online :: "(database \<Rightarrow> ddl_error + database) list \<Rightarrow> database \<Rightarrow> ddl_error option \<times> database" where
  "run_migrations_online ms d = (case run_migrations ms d of Inl x \<Rightarrow> (Some x, d) | Inr d' \<Rightarrow> (None, d'))"

text \<open>`alembic upgrade head` and `alembic downgrade base`.\<close>

definition upgrade_head :: "database \<Rightarrow> ddl_error option \<times> database" where
  "upgrade_head d = run_migrations_online (map upgrade_by (path_to_head (length versions) (d_version d))) d"

definition downgrade_base :: "database \<Rightarrow> ddl_error option \<times> database" where
  "downgrade_base d = run_migrations_online (map downgrade_by (rev (takeWhile (\<lambda>m. mig_down m \<noteq> d_version d)
     (path_to_head (length versions) None)))) d"

definition empty_database :: database where
  "empty_database = \<lparr>d_schema = \<lparr>sch_tables = [], sch_types = []\<rparr>, d_rows = (\<lambda>_. []), d_version = None\<rparr>"

section \<open>The tables of the models\<close>

datatype match_method = OVERRIDE | TITLE | CHAIN

fun match_method_value :: "match_method \<Rightarrow> string" where
  "match_method_value OVERRIDE = ''override''"
| "match_method_value TITLE = ''title''"
| "match_method_value CHAIN = ''chain''"

datatype match_status = ACCEPTED | REVIEW | UNMATCHED

fun match_status_value :: "match_status \<Rightarrow> string" where
  "match_status_value ACCEPTED = ''accepted''"
| "match_status_value REVIEW = ''review''"
| "match_status_value UNMATCHED = ''unmatched''"

fun run_status_value :: "run_status \<Rightarrow> string" where
  "run_status_value RUNNING = ''running''"
| "run_status_value RUN_SUCCEEDED = ''succeeded''"
| "run_status_value RUN_FAILED = ''failed''"

text \<open>`Enum(..., native_enum=False, values_callable=_enum_values)`, and the check of `_in_list`.\<close>

definition resource_type :: sqltype where
  "resource_type = SqlEnum ''resource'' (map resource_value all_resources) False"

definition task_status_type :: sqltype where
  "task_status_type = SqlEnum ''taskstatus'' (map task_status_value all_task_statuses) False"

definition run_status_type :: sqltype where
  "run_status_type = SqlEnum ''runstatus'' (map run_status_value [RUNNING, RUN_SUCCEEDED, RUN_FAILED]) False"

definition snapshot_status_type :: sqltype where
  "snapshot_status_type = SqlEnum ''snapshotstatus''
     (map snapshot_status_value [SNAPSHOT_RUNNING, ARCHIVED, SKIPPED, SNAPSHOT_FAILED]) False"

definition match_method_type :: sqltype where
  "match_method_type = SqlEnum ''matchmethod'' (map match_method_value [OVERRIDE, TITLE, CHAIN]) False"

definition match_status_type :: sqltype where
  "match_status_type = SqlEnum ''matchstatus'' (map match_status_value [ACCEPTED, REVIEW, UNMATCHED]) False"

fun enum_values :: "sqltype \<Rightarrow> string list" where
  "enum_values (SqlEnum _ vs _) = vs"
| "enum_values _ = []"

definition in_list :: "string \<Rightarrow> string \<Rightarrow> sqltype \<Rightarrow> table_constraint" where
  "in_list name c ty = CheckIn name c (enum_values ty)"

text \<open>A model's table and its indexes; `index=True` on a column makes the index `ix_<table>_<column>`.\<close>

definition user_table :: "ddl list" where
  "user_table = [
     CreateTable ''users''
       [req ''id'' SqlUuid, req ''email'' (SqlString None), req ''username'' (SqlString None),
        req ''password'' (SqlString None), opt ''is_admin'' SqlBoolean, opt ''is_verified'' SqlBoolean,
        stamped ''created_at'' True]
       [PrimaryKeyConstraint [''id'']],
     CreateIndex ''ix_users_id'' ''users'' [''id''] False,
     CreateIndex ''ix_users_email'' ''users'' [''email''] True]"

definition refresh_token_table :: "ddl list" where
  "refresh_token_table = [
     CreateTable ''refresh_token''
       [req ''jti'' SqlUuid, req ''user_id'' SqlUuid, opt ''revoke'' SqlBoolean, opt ''revoked_at'' SqlDateTime,
        req ''expires_at'' SqlDateTime, stamped ''created_at'' True]
       [PrimaryKeyConstraint [''jti''], ForeignKeyConstraint [''user_id''] ''users'' [''id''] True],
     CreateIndex ''ix_refresh_token_jti'' ''refresh_token'' [''jti''] False,
     CreateIndex ''ix_refresh_token_user_id'' ''refresh_token'' [''user_id''] False]"

definition anime_table :: "ddl list" where
  "anime_table = [CreateTable ''anime''
     [req ''mal_id'' SqlInteger, req ''title'' SqlText, opt ''title_english'' SqlText, opt ''title_japanese'' SqlText,
      opt ''type'' SqlText, opt ''status'' SqlText, opt ''rating'' SqlText, opt ''source_material'' SqlText,
      opt ''season'' SqlText, opt ''year'' SqlInteger, opt ''episodes'' SqlInteger, opt ''duration_minutes'' SqlInteger,
      opt ''aired_from'' SqlDateTime, opt ''aired_to'' SqlDateTime, score ''mal_score'', score ''anilist_score'',
      score ''imdb_score'', opt ''scored_by_mal'' SqlInteger, opt ''members_mal'' SqlInteger,
      opt ''favorites_mal'' SqlInteger, opt ''rank_mal'' SqlInteger, opt ''popularity_mal'' SqlInteger,
      opt ''synopsis'' SqlText, opt ''synopsis_hash'' SqlText, opt ''background'' SqlText, opt ''image_url'' SqlText,
      stamped ''created_at'' False, stamped ''updated_at'' False]
     [PrimaryKeyConstraint [''mal_id'']]]"

definition tag_table :: "ddl list" where
  "tag_table = [CreateTable ''tag'' [req ''mal_id'' SqlInteger, req ''name'' SqlText] [PrimaryKeyConstraint [''mal_id'']]]"

definition studio_table :: "ddl list" where
  "studio_table = [CreateTable ''studio'' [req ''mal_id'' SqlInteger, req ''name'' SqlText] [PrimaryKeyConstraint [''mal_id'']]]"

definition anime_tag_table :: "ddl list" where
  "anime_tag_table = [CreateTable ''anime_tag'' [req ''anime_id'' SqlInteger, req ''tag_id'' SqlInteger]
     [to_anime, ForeignKeyConstraint [''tag_id''] ''tag'' [''mal_id''] True, PrimaryKeyConstraint [''anime_id'', ''tag_id'']]]"

definition anime_studio_table :: "ddl list" where
  "anime_studio_table = [CreateTable ''anime_studio'' [req ''anime_id'' SqlInteger, req ''studio_id'' SqlInteger]
     [to_anime, ForeignKeyConstraint [''studio_id''] ''studio'' [''mal_id''] True,
      PrimaryKeyConstraint [''anime_id'', ''studio_id'']]]"

definition anime_statistics_table :: "ddl list" where
  "anime_statistics_table = [CreateTable ''anime_statistics_mal''
     [req ''anime_id'' SqlInteger, req ''watching'' SqlInteger, req ''completed'' SqlInteger, req ''on_hold'' SqlInteger,
      req ''dropped'' SqlInteger, req ''plan_to_watch'' SqlInteger, req ''total'' SqlInteger,
      opt ''votes_1'' SqlInteger, opt ''votes_2'' SqlInteger, opt ''votes_3'' SqlInteger, opt ''votes_4'' SqlInteger,
      opt ''votes_5'' SqlInteger, opt ''votes_6'' SqlInteger, opt ''votes_7'' SqlInteger, opt ''votes_8'' SqlInteger,
      opt ''votes_9'' SqlInteger, opt ''votes_10'' SqlInteger, stamped ''updated_at'' False]
     [to_anime, PrimaryKeyConstraint [''anime_id'']]]"

definition anime_relation_table :: "ddl list" where
  "anime_relation_table = [CreateTable ''anime_relation''
     [req ''anime_id'' SqlInteger, req ''relation'' SqlText, req ''related_mal_id'' SqlInteger]
     [to_anime, PrimaryKeyConstraint [''anime_id'', ''relation'', ''related_mal_id'']]]"

definition episode_table :: "ddl list" where
  "episode_table = [CreateTable ''episode''
     [req ''anime_id'' SqlInteger, req ''episode_number'' SqlInteger, opt ''title'' SqlText, opt ''title_japanese'' SqlText,
      opt ''title_romanji'' SqlText, opt ''aired'' SqlDateTime, opt ''duration_seconds'' SqlInteger, opt ''synopsis'' SqlText,
      opt ''synopsis_hash'' SqlText, flag ''filler'', flag ''recap'', score ''mal_score'', score ''anilist_score'',
      score ''imdb_score'']
     [to_anime, PrimaryKeyConstraint [''anime_id'', ''episode_number'']]]"

definition review_table :: "ddl list" where
  "review_table = [CreateTable ''review''
     [req ''mal_id'' SqlInteger, req ''anime_id'' SqlInteger, opt ''score'' SqlInteger, req ''review'' SqlText,
      opt ''review_url'' SqlText, opt ''username'' SqlText, opt ''username_url'' SqlText, opt ''date'' SqlDateTime,
      flag ''is_spoiler'', flag ''is_preliminary'', opt ''episodes_watched'' SqlInteger,
      opt ''reaction_overall'' SqlInteger, opt ''reaction_nice'' SqlInteger, opt ''reaction_love_it'' SqlInteger,
      opt ''reaction_funny'' SqlInteger, opt ''reaction_confusing'' SqlInteger, opt ''reaction_informative'' SqlInteger,
      opt ''reaction_well_written'' SqlInteger, opt ''reaction_creative'' SqlInteger, stamped ''updated_at'' False]
     [to_anime, PrimaryKeyConstraint [''mal_id'']]]"

definition ingestion_task_table :: "ddl list" where
  "ingestion_task_table = [CreateTable ''ingestion_task''
     [req ''mal_id'' SqlInteger, req ''resource'' resource_type,
      sa_column ''status'' task_status_type False (Literal (TextV (task_status_value PENDING))),
      sa_column ''attempts'' SqlInteger False (Literal (IntV 0)), opt ''next_attempt_at'' SqlDateTime,
      opt ''last_error'' SqlText, stamped ''created_at'' False, stamped ''updated_at'' False]
     [in_list ''ck_ingestion_task_resource'' ''resource'' resource_type,
      in_list ''ck_ingestion_task_status'' ''status'' task_status_type,
      PrimaryKeyConstraint [''mal_id'', ''resource'']]]"

definition ingestion_run_table :: "ddl list" where
  "ingestion_run_table = [CreateTable ''ingestion_run''
     [sa_column ''id'' SqlInteger False Sequence, req ''job'' (SqlString (Some 50)),
      sa_column ''status'' run_status_type False (Literal (TextV (run_status_value RUNNING))),
      stamped ''started_at'' False, opt ''finished_at'' SqlDateTime, opt ''summary'' SqlJsonb, opt ''error'' SqlText]
     [in_list ''ck_ingestion_run_status'' ''status'' run_status_type, PrimaryKeyConstraint [''id'']]]"

definition raw_tenrai_table :: "ddl list" where
  "raw_tenrai_table = [CreateTable ''raw_tenrai''
     [req ''mal_id'' SqlInteger, req ''resource'' resource_type, req ''size_bytes'' SqlInteger, stamped ''fetched_at'' False]
     [in_list ''ck_raw_tenrai_resource'' ''resource'' resource_type, PrimaryKeyConstraint [''mal_id'', ''resource'']]]"

definition imdb_snapshot_table :: "ddl list" where
  "imdb_snapshot_table = [CreateTable ''imdb_snapshot''
     [sa_column ''id'' SqlInteger False Sequence, opt ''finished_at'' SqlDateTime,
      opt ''basics_etag'' SqlText, opt ''basics_size_bytes'' SqlBigInteger,
      opt ''episode_etag'' SqlText, opt ''episode_size_bytes'' SqlBigInteger,
      opt ''ratings_etag'' SqlText, opt ''ratings_size_bytes'' SqlBigInteger,
      sa_column ''status'' snapshot_status_type False (Literal (TextV (snapshot_status_value SNAPSHOT_RUNNING)))]
     [in_list ''ck_imdb_snapshot_status'' ''status'' snapshot_status_type, PrimaryKeyConstraint [''id'']]]"

definition anime_imdb_match_table :: "ddl list" where
  "anime_imdb_match_table = [CreateTable ''anime_imdb_match''
     [req ''anime_id'' SqlInteger, opt ''imdb_tconst'' SqlText, opt ''season_number'' SqlInteger,
      opt ''episode_from'' SqlInteger, opt ''episode_to'' SqlInteger, opt ''score'' (SqlNumeric 5 4),
      req ''method'' match_method_type, req ''status'' match_status_type,
      opt ''candidates'' SqlJsonb, opt ''snapshot_id'' SqlInteger, stamped ''decided_at'' False]
     [in_list ''ck_anime_imdb_match_method'' ''method'' match_method_type,
      in_list ''ck_anime_imdb_match_status'' ''status'' match_status_type,
      to_anime, ForeignKeyConstraint [''snapshot_id''] ''imdb_snapshot'' [''id''] False,
      PrimaryKeyConstraint [''anime_id'']]]"

text \<open>`Base.metadata`, in an order that creates the parents first.\<close>

definition declared :: "ddl list" where
  "declared = user_table @ refresh_token_table @ anime_table @ tag_table @ studio_table @ anime_tag_table
     @ anime_studio_table @ anime_statistics_table @ anime_relation_table @ episode_table @ review_table
     @ ingestion_task_table @ ingestion_run_table @ raw_tenrai_table @ imdb_snapshot_table @ anime_imdb_match_table"

definition declared_database :: "ddl_error + database" where
  "declared_database = exec_all declared empty_database"

text \<open>What `alembic check` compares: the tables by name, each regardless of the order of its parts.\<close>

definition same_table :: "sa_table \<Rightarrow> sa_table \<Rightarrow> bool" where
  "same_table t u \<longleftrightarrow> set (st_columns t) = set (st_columns u) \<and> st_pk t = st_pk u \<and> set (st_fks t) = set (st_fks u)
     \<and> set (st_checks t) = set (st_checks u) \<and> set (st_indexes t) = set (st_indexes u)"

definition same_tables :: "schema \<Rightarrow> schema \<Rightarrow> bool" where
  "same_tables s s' \<longleftrightarrow> fst ` set (sch_tables s) = fst ` set (sch_tables s')
     \<and> (\<forall>(n, t)\<in>set (sch_tables s). case map_of (sch_tables s') n of None \<Rightarrow> False | Some u \<Rightarrow> same_table t u)"

section \<open>The database's URL\<close>

text \<open>
  `_sync_db_url`: the driver is exchanged, and the option `ssl` of asyncpg becomes `sslmode`, at the end of the
  options.  Reading a URL and writing it out are SQLAlchemy's.
\<close>

record 'v db_url =
  url_drivername :: string
  url_address :: string                \<comment> \<open>user, password, host, port and database\<close>
  url_query :: "(string, 'v) dict"

definition sync_db_url :: "'v db_url \<Rightarrow> 'v db_url" where
  "sync_db_url u = u\<lparr>url_drivername := ''postgresql+psycopg2'',
     url_query := (case map_of (url_query u) ''ssl'' of None \<Rightarrow> url_query u
       | Some v \<Rightarrow> AList.update ''sslmode'' v (AList.delete ''ssl'' (url_query u)))\<rparr>"

text \<open>`replace("%", "%%")`, and how `configparser` reads such a value back (None is a syntax error).\<close>

definition escape_percent :: "string \<Rightarrow> string" where
  "escape_percent s = concat (map (\<lambda>c. if c = CHR ''%'' then ''%%'' else [c]) s)"

text \<open>`refs` gives the values of the other options of the section, for `%(name)s`.\<close>

function interpolate :: "(string \<Rightarrow> string option) \<Rightarrow> string \<Rightarrow> string option" where
  "interpolate refs s = (case s of [] \<Rightarrow> Some []
     | c # rest \<Rightarrow> if c \<noteq> CHR ''%'' then map_option ((#) c) (interpolate refs rest)
       else case rest of [] \<Rightarrow> None
         | d # ds \<Rightarrow> if d = CHR ''%'' then map_option ((#) d) (interpolate refs ds)
             else if d = CHR ''('' then
               (case dropWhile (\<lambda>x. x \<noteq> CHR '')'') ds of p # k # after \<Rightarrow>
                  if k = CHR ''s'' then (case refs (takeWhile (\<lambda>x. x \<noteq> CHR '')'') ds) of None \<Rightarrow> None
                    | Some v \<Rightarrow> map_option ((@) v) (interpolate refs after)) else None
                | _ \<Rightarrow> None)
             else None)"
  by auto
termination
proof (relation "measure (\<lambda>(refs, s). length s)", simp_all, goal_cases)
  case (1 refs s c rest d ds p q k after v)
  have "length (dropWhile (\<lambda>x. x \<noteq> CHR '')'') ds) \<le> length ds" by (rule length_dropWhile_le)
  with 1 show ?case by simp
qed

declare interpolate.simps [simp del]

end
