(* ===== verification/Schema_Correct.thy ===== *)
theory Schema_Correct
  imports Schema
begin

text \<open>
  Well-formed schemas and databases, and that an operation which succeeds keeps them: the rows fit
  their tables' columns and constraints after it.
\<close>

section \<open>Well-formedness\<close>

definition table_ok :: "schema \<Rightarrow> sa_table \<Rightarrow> bool" where
  "table_ok s t \<longleftrightarrow> distinct (column_names t) \<and> set (columns_needed t) \<subseteq> set (column_names t) \<and> pk_not_null t
     \<and> (\<forall>f\<in>set (st_fks t). fk_target_ok s f) \<and> (\<forall>c\<in>set (st_columns t). default_fits c)"

definition schema_ok :: "schema \<Rightarrow> bool" where
  "schema_ok s \<longleftrightarrow> distinct (map fst (sch_tables s)) \<and> (\<forall>(n, t)\<in>set (sch_tables s). table_ok s t)"

definition cell_ok :: "sa_column \<Rightarrow> sqlval \<Rightarrow> bool" where
  "cell_ok c v \<longleftrightarrow> (if v = NullV then cd_nullable c else has_type (cd_type c) v)"

definition row_ok :: "sa_table \<Rightarrow> sql_row \<Rightarrow> bool" where
  "row_ok t r \<longleftrightarrow> (\<forall>c\<in>set (st_columns t). cell_ok c (r (cd_name c)))
     \<and> (\<forall>(_, c, vs)\<in>set (st_checks t). r c = NullV \<or> r c \<in> TextV ` set vs)
     \<and> (\<forall>c. c \<notin> set (column_names t) \<longrightarrow> r c = NullV)"

definition keys_ok :: "sa_table \<Rightarrow> sql_row list \<Rightarrow> bool" where
  "keys_ok t rs \<longleftrightarrow> (\<forall>k cs. st_pk t = Some (k, cs) \<longrightarrow> unique_on cs rs)
     \<and> (\<forall>(_, cs, u)\<in>set (st_indexes t). u \<longrightarrow> unique_on cs rs)"

definition fks_ok :: "sa_table \<Rightarrow> sql_row list \<Rightarrow> sql_rows \<Rightarrow> bool" where
  "fks_ok t rs d \<longleftrightarrow> (\<forall>f\<in>set (st_fks t). refers_to (fk_columns f) rs (fk_parent_columns f) (d (fk_parent f)))"

definition rows_ok :: "schema \<Rightarrow> sql_rows \<Rightarrow> bool" where
  "rows_ok s d \<longleftrightarrow> (\<forall>n. case map_of (sch_tables s) n of None \<Rightarrow> d n = []
     | Some t \<Rightarrow> (\<forall>r\<in>set (d n). row_ok t r) \<and> keys_ok t (d n) \<and> fks_ok t (d n) d)"

definition database_ok :: "database \<Rightarrow> bool" where
  "database_ok d \<longleftrightarrow> schema_ok (d_schema d) \<and> rows_ok (d_schema d) (d_rows d)"

lemma rows_okD:
  assumes "rows_ok s d" and "map_of (sch_tables s) n = Some t"
  shows "r \<in> set (d n) \<Longrightarrow> row_ok t r" and "keys_ok t (d n)" and "fks_ok t (d n) d"
  using assms by (auto simp: rows_ok_def dest: spec [of _ n])

lemma rows_ok_empty: "rows_ok s d \<Longrightarrow> map_of (sch_tables s) n = None \<Longrightarrow> d n = []"
  by (auto simp: rows_ok_def dest: spec [of _ n])

lemma schema_okD: "schema_ok s \<Longrightarrow> map_of (sch_tables s) n = Some t \<Longrightarrow> table_ok s t"
  by (auto simp: schema_ok_def dest: map_of_SomeD)

lemma row_ok_absent: "row_ok t r \<Longrightarrow> c \<notin> set (column_names t) \<Longrightarrow> r c = NullV"
  by (simp add: row_ok_def)

lemma fk_column_needed: "f \<in> set (st_fks t) \<Longrightarrow> set (fk_columns f) \<subseteq> set (columns_needed t)"
  and pk_column_needed: "st_pk t = Some (k, cs) \<Longrightarrow> set cs \<subseteq> set (columns_needed t)"
  and index_column_needed: "(i, cs, u) \<in> set (st_indexes t) \<Longrightarrow> set cs \<subseteq> set (columns_needed t)"
  and check_column_needed: "(n, c, vs) \<in> set (st_checks t) \<Longrightarrow> c \<in> set (columns_needed t)"
  by (force simp: columns_needed_def split: option.splits)+

lemma pk_row_not_null:
  assumes "table_ok s t" and "row_ok t r" and "st_pk t = Some (k, cs)" and "c \<in> set cs"
  shows "r c \<noteq> NullV"
proof -
  have "c \<in> set (column_names t)"
    using assms(1,3,4) pk_column_needed by (fastforce simp: table_ok_def)
  then obtain x where x: "x \<in> set (st_columns t)" "cd_name x = c" by (auto simp: column_names_def)
  with assms(1,3,4) have "\<not> cd_nullable x" by (auto simp: table_ok_def pk_not_null_def not_null_in_def)
  moreover have "cell_ok x (r c)" using assms(2) x by (auto simp: row_ok_def)
  ultimately show ?thesis by (auto simp: cell_ok_def)
qed

section \<open>Projections\<close>

lemma project_cong: "(\<And>c. c \<in> set cs \<Longrightarrow> r c = r' c) \<Longrightarrow> project cs r = project cs r'"
  by (simp add: project_def)

lemma project_upd [simp]: "c \<notin> set cs \<Longrightarrow> project cs (r(c := v)) = project cs r"
  by (rule project_cong) auto

lemma project_upd_map [simp]: "c \<notin> set cs \<Longrightarrow> map (project cs) (map (\<lambda>r. r(c := v)) rs) = map (project cs) rs"
  by simp

lemma unique_on_cong: "map (project cs) rs = map (project cs) rs' \<Longrightarrow> unique_on cs rs = unique_on cs rs'"
  by (simp only: unique_on_def)

lemma unique_on_filter: "unique_on cs rs \<Longrightarrow> unique_on cs (filter p rs)"
proof (induction rs)
  case (Cons r rs)
  then show ?case by (auto simp: unique_on_def)
qed simp

lemma unique_on_Nil [simp]: "unique_on cs []"
  by (simp add: unique_on_def)

lemma unique_on_null: "(\<And>r. r \<in> set rs \<Longrightarrow> NullV \<in> set (project cs r)) \<Longrightarrow> unique_on cs rs"
  by (simp add: unique_on_def)

lemma refers_to_Nil [simp]: "refers_to cs [] pcs ps"
  by (simp add: refers_to_def)

lemma refers_to_cong:
  assumes "refers_to cs rs pcs ps" and "\<And>k. k \<in> project cs ` set rs' \<Longrightarrow> NullV \<in> set k \<or> k \<in> project cs ` set rs"
    and "project pcs ` set ps \<subseteq> project pcs ` set ps'"
  shows "refers_to cs rs' pcs ps'"
  unfolding refers_to_def
proof
  fix r assume "r \<in> set rs'"
  with assms(2) [of "project cs r"] have "NullV \<in> set (project cs r) \<or> project cs r \<in> project cs ` set rs" by blast
  then show "NullV \<in> set (project cs r) \<or> project cs r \<in> project pcs ` set ps'"
  proof
    assume "project cs r \<in> project cs ` set rs"
    then obtain q where "q \<in> set rs" and q: "project cs r = project cs q" by blast
    with assms(1) have "NullV \<in> set (project cs q) \<or> project cs q \<in> project pcs ` set ps" by (simp add: refers_to_def)
    with assms(3) show ?thesis unfolding q by blast
  qed simp
qed

section \<open>Changing one table\<close>

lemma referring_iff: "(m, f) \<in> set (referring s n) \<longleftrightarrow> (\<exists>u. (m, u) \<in> set (sch_tables s) \<and> f \<in> set (st_fks u) \<and> fk_parent f = n)"
  by (auto simp: referring_def)

lemma referring_Nil: "referring s n = [] \<longleftrightarrow> (\<forall>(m, u)\<in>set (sch_tables s). \<forall>f\<in>set (st_fks u). fk_parent f \<noteq> n)"
  by (fastforce simp: referring_def filter_empty_conv)

lemma map_of_update: "map_of (AList.update n t xs) = (map_of xs)(n \<mapsto> t)"
  by (rule update_conv')

text \<open>
  What a replacement of one table and its rows has to keep: the table's own well-formedness, and the
  keys that the foreign keys of other tables refer to.
\<close>

lemma replace_table:
  assumes ok: "schema_ok s" "rows_ok s d" and t: "map_of (sch_tables s) n = Some t"
    and s': "sch_tables s' = AList.update n t' (sch_tables s)"
    and t': "table_ok s t'"
    and pk: "referring s n \<noteq> [] \<or> (\<exists>f\<in>set (st_fks t'). fk_parent f = n) \<Longrightarrow> st_pk t' = st_pk t"
    and rows: "\<And>r. r \<in> set rs \<Longrightarrow> row_ok t' r" "keys_ok t' rs" "fks_ok t' rs (d(n := rs))"
    and keys: "\<And>m f. (m, f) \<in> set (referring s n) \<Longrightarrow>
      project (fk_parent_columns f) ` set (d n) \<subseteq> project (fk_parent_columns f) ` set rs"
  shows "schema_ok s'" and "rows_ok s' (d(n := rs))"
proof -
  have lookup: "map_of (sch_tables s') m = (if m = n then Some t' else map_of (sch_tables s) m)" for m
    by (simp add: s' map_of_update)
  have referred: "(m, f) \<in> set (referring s n)" if "map_of (sch_tables s) m = Some u" "f \<in> set (st_fks u)" "fk_parent f = n" for m u f
    using map_of_SomeD [OF that(1)] that(2,3) by (auto simp: referring_iff)
  have target: "fk_target_ok s' f" if "fk_target_ok s f" and "fk_parent f = n \<Longrightarrow> st_pk t' = st_pk t" for f
    using that by (cases "fk_parent f = n") (simp_all add: fk_target_ok_def lookup t)
  have own: "table_ok s' t'"
    using t' target pk by (auto simp: table_ok_def)
  have others: "table_ok s' u" if u: "map_of (sch_tables s) m = Some u" for m u
  proof -
    have "fk_target_ok s' f" if f: "f \<in> set (st_fks u)" for f
    proof (rule target)
      show "fk_target_ok s f" using schema_okD [OF ok(1) u] f by (simp add: table_ok_def)
      assume "fk_parent f = n"
      from referred [OF u f this] show "st_pk t' = st_pk t" by (intro pk) auto
    qed
    with schema_okD [OF ok(1) u] show ?thesis by (simp add: table_ok_def)
  qed
  have dist: "distinct (map fst (sch_tables s'))"
    using ok(1) by (simp add: s' schema_ok_def distinct_update)
  have "table_ok s' u" if "(m, u) \<in> set (sch_tables s')" for m u
    using map_of_is_SomeI [OF dist that] others [of m u] own by (auto simp: lookup split: if_splits)
  then show "schema_ok s'" using dist by (auto simp: schema_ok_def)
  have kept: "fks_ok u (d m) (d(n := rs))" if u: "map_of (sch_tables s) m = Some u" for m u
    unfolding fks_ok_def
  proof
    fix f assume f: "f \<in> set (st_fks u)"
    have old: "refers_to (fk_columns f) (d m) (fk_parent_columns f) (d (fk_parent f))"
      using rows_okD(3) [OF ok(2) u] f by (simp add: fks_ok_def)
    show "refers_to (fk_columns f) (d m) (fk_parent_columns f) ((d(n := rs)) (fk_parent f))"
    proof (cases "fk_parent f = n")
      case True
      have "refers_to (fk_columns f) (d m) (fk_parent_columns f) rs"
        by (rule refers_to_cong [OF old]) (use keys [OF referred [OF u f True]] True in auto)
      with True show ?thesis by simp
    qed (use old in simp)
  qed
  have "case map_of (sch_tables s') m of None \<Rightarrow> (d(n := rs)) m = []
      | Some u \<Rightarrow> (\<forall>r\<in>set ((d(n := rs)) m). row_ok u r) \<and> keys_ok u ((d(n := rs)) m) \<and> fks_ok u ((d(n := rs)) m) (d(n := rs))" for m
  proof (cases "m = n")
    case True then show ?thesis by (simp add: lookup rows)
  next
    case False
    show ?thesis
    proof (cases "map_of (sch_tables s) m")
      case None
      then show ?thesis using False rows_ok_empty [OF ok(2) None] by (simp add: lookup)
    next
      case (Some u)
      then show ?thesis using False rows_okD [OF ok(2) Some] kept [OF Some] by (simp add: lookup)
    qed
  qed
  then show "rows_ok s' (d(n := rs))" by (simp add: rows_ok_def)
qed

lemma with_table_Inr: "with_table n s f = Inr s' \<longleftrightarrow>
  (\<exists>t t'. map_of (sch_tables s) n = Some t \<and> f t = Inr t' \<and> s' = s\<lparr>sch_tables := AList.update n t' (sch_tables s)\<rparr>)"
proof (cases "map_of (sch_tables s) n")
  case (Some t)
  then show ?thesis by (cases "f t") (auto simp: with_table_def)
qed (simp add: with_table_def)

text \<open>Operations that change the table's definition only.\<close>

lemma redefine_table:
  assumes "schema_ok s" and "rows_ok s d" and "map_of (sch_tables s) n = Some t" and "table_ok s t'"
    and "referring s n \<noteq> [] \<or> (\<exists>f\<in>set (st_fks t'). fk_parent f = n) \<Longrightarrow> st_pk t' = st_pk t"
    and "\<And>r. r \<in> set (d n) \<Longrightarrow> row_ok t r \<Longrightarrow> row_ok t' r"
    and "keys_ok t (d n) \<Longrightarrow> keys_ok t' (d n)" and "fks_ok t (d n) d \<Longrightarrow> fks_ok t' (d n) d"
  shows "schema_ok (s\<lparr>sch_tables := AList.update n t' (sch_tables s)\<rparr>) \<and> rows_ok (s\<lparr>sch_tables := AList.update n t' (sch_tables s)\<rparr>) d"
proof -
  let ?s = "s\<lparr>sch_tables := AList.update n t' (sch_tables s)\<rparr>"
  note old = rows_okD [OF assms(2,3)]
  have "schema_ok ?s"
    by (rule replace_table(1) [OF assms(1-3), of ?s t' "d n"]) (use assms(4-8) old in simp_all)
  moreover have "rows_ok ?s (d(n := d n))"
    by (rule replace_table(2) [OF assms(1-3), of ?s t' "d n"]) (use assms(4-8) old in simp_all)
  ultimately show ?thesis by simp
qed

lemma referring_pk:
  assumes "schema_ok s" and "map_of (sch_tables s) n = Some t" and "(m, f) \<in> set (referring s n)"
  shows "\<exists>k. st_pk t = Some (k, fk_parent_columns f)"
proof -
  from assms(3) obtain u where u: "(m, u) \<in> set (sch_tables s)" "f \<in> set (st_fks u)" "fk_parent f = n"
    by (auto simp: referring_iff)
  with assms(1) have "fk_target_ok s f" by (auto simp: schema_ok_def table_ok_def)
  with assms(2) u(3) show ?thesis by (auto simp: fk_target_ok_def split: option.splits)
qed

section \<open>Each operation keeps a well formed database\<close>

definition keeps_ok :: "ddl \<Rightarrow> bool" where
  "keeps_ok o1 \<longleftrightarrow> (\<forall>s d s' d'. schema_ok s \<longrightarrow> rows_ok s d \<longrightarrow> exec_schema o1 s = Inr s' \<longrightarrow> exec_rows o1 s d = Inr d'
     \<longrightarrow> schema_ok s' \<and> rows_ok s' d')"

lemma keeps_okI:
  "(\<And>s d s' d'. schema_ok s \<Longrightarrow> rows_ok s d \<Longrightarrow> exec_schema o1 s = Inr s' \<Longrightarrow> exec_rows o1 s d = Inr d'
     \<Longrightarrow> schema_ok s' \<and> rows_ok s' d') \<Longrightarrow> keeps_ok o1"
  unfolding keeps_ok_def by blast

lemma keeps_create_table: "keeps_ok (CreateTable n cols cons)"
proof (rule keeps_okI)
  fix s d s' d'
  assume ok: "schema_ok s" "rows_ok s d" and e: "exec_schema (CreateTable n cols cons) s = Inr s'"
    and r: "exec_rows (CreateTable n cols cons) s d = Inr d'"
  define t where "t = new_table n cols cons"
  from e have n: "n \<notin> fst ` set (sch_tables s)" and s': "sch_tables s' = sch_tables s @ [(n, t)]"
    and t: "distinct (column_names t)" "set (columns_needed t) \<subseteq> set (column_names t)" "pk_not_null t"
      "\<forall>f\<in>set (st_fks t). fk_target_ok s f" "\<forall>c\<in>set cols. default_fits c"
    by (auto simp: t_def Let_def)
  have cols: "st_columns t = cols"
  proof -
    have "st_columns (foldl (\<lambda>t c. add_constraint n c t) u cons) = st_columns u" for u
    proof (induction cons arbitrary: u)
      case (Cons c cs)
      then show ?case by (cases c) simp_all
    qed simp
    then show ?thesis by (simp add: t_def new_table_def)
  qed
  have no: "map_of (sch_tables s) n = None" using n by (simp add: map_of_eq_None_iff)
  have lookup: "map_of (sch_tables s') m = (if m = n then Some t else map_of (sch_tables s) m)" for m
    using no by (auto simp: s' map_add_def split: option.split)
  have target: "fk_target_ok s' f \<and> fk_parent f \<noteq> n" if "fk_target_ok s f" for f
    using that no by (auto simp: fk_target_ok_def lookup split: option.splits)
  have others: "table_ok s' u" if "table_ok s u" for u
    using that target by (auto simp: table_ok_def)
  have new: "table_ok s' t" using t cols target by (auto simp: table_ok_def)
  have schema: "schema_ok s'"
    using ok(1) n others new by (auto simp: schema_ok_def s')
  have d': "d' = d(n := [])" using r by simp
  have "case map_of (sch_tables s') m of None \<Rightarrow> d' m = []
      | Some u \<Rightarrow> (\<forall>r\<in>set (d' m). row_ok u r) \<and> keys_ok u (d' m) \<and> fks_ok u (d' m) d'" for m
  proof (cases "m = n")
    case True
    then show ?thesis by (auto simp: lookup d' keys_ok_def fks_ok_def)
  next
    case False
    show ?thesis
    proof (cases "map_of (sch_tables s) m")
      case None
      then show ?thesis using False rows_ok_empty [OF ok(2) None] by (simp add: lookup d')
    next
      case (Some u)
      have "fk_parent f \<noteq> n" if "f \<in> set (st_fks u)" for f
        using schema_okD [OF ok(1) Some] that target by (auto simp: table_ok_def)
      then have "fks_ok u (d m) d'" using rows_okD(3) [OF ok(2) Some] by (simp add: fks_ok_def d')
      then show ?thesis using False rows_okD [OF ok(2) Some] by (simp add: lookup Some d')
    qed
  qed
  then show "schema_ok s' \<and> rows_ok s' d'" using schema by (simp add: rows_ok_def)
qed

lemma keeps_drop_table: "keeps_ok (DropTable n)"
proof (rule keeps_okI)
  fix s d s' d'
  assume ok: "schema_ok s" "rows_ok s d" and e: "exec_schema (DropTable n) s = Inr s'"
    and r: "exec_rows (DropTable n) s d = Inr d'"
  from e have s': "sch_tables s' = AList.delete n (sch_tables s)" and refs: "\<And>m f. (m, f) \<in> set (referring s n) \<Longrightarrow> m = n"
    by (simp_all, auto)
  have lookup: "map_of (sch_tables s') m = (if m = n then None else map_of (sch_tables s) m)" for m
    by (simp add: s' delete_conv')
  have apart: "fk_parent f \<noteq> n" if "(m, u) \<in> set (sch_tables s)" "m \<noteq> n" "f \<in> set (st_fks u)" for m u f
  proof
    assume "fk_parent f = n"
    with that(1,3) have "(m, f) \<in> set (referring s n)" by (auto simp: referring_iff)
    from refs [OF this] that(2) show False by simp
  qed
  have "table_ok s' u" if "(m, u) \<in> set (sch_tables s')" for m u
  proof -
    from that have mu: "(m, u) \<in> set (sch_tables s)" "m \<noteq> n" by (auto simp: s' AList.delete_eq)
    with ok(1) have "table_ok s u" by (auto simp: schema_ok_def)
    with apart [OF mu] show ?thesis by (simp add: table_ok_def fk_target_ok_def lookup)
  qed
  moreover have "distinct (map fst (sch_tables s'))"
    using ok(1) by (simp add: s' schema_ok_def distinct_delete)
  ultimately have schema: "schema_ok s'" by (auto simp: schema_ok_def)
  have d': "d' = d(n := [])" using r by simp
  have "case map_of (sch_tables s') m of None \<Rightarrow> d' m = []
      | Some u \<Rightarrow> (\<forall>r\<in>set (d' m). row_ok u r) \<and> keys_ok u (d' m) \<and> fks_ok u (d' m) d'" for m
  proof (cases "m = n")
    case False
    show ?thesis
    proof (cases "map_of (sch_tables s) m")
      case None
      then show ?thesis using False rows_ok_empty [OF ok(2) None] by (simp add: lookup d')
    next
      case (Some u)
      have "fks_ok u (d m) d'"
        using rows_okD(3) [OF ok(2) Some] apart [OF map_of_SomeD [OF Some] False] by (simp add: fks_ok_def d')
      then show ?thesis using False rows_okD [OF ok(2) Some] by (simp add: lookup Some d')
    qed
  qed (simp add: lookup d')
  then show "schema_ok s' \<and> rows_ok s' d'" using schema by (simp add: rows_ok_def)
qed

lemma keeps_alter_default: "keeps_ok (AlterDefault n c v)"
proof (rule keeps_okI)
  fix s d s' d'
  let ?cols = "\<lambda>t. map (\<lambda>x. if cd_name x = c then x\<lparr>cd_default := v\<rparr> else x) (st_columns t)"
  assume ok: "schema_ok s" "rows_ok s d" and e: "exec_schema (AlterDefault n c v) s = Inr s'"
    and r: "exec_rows (AlterDefault n c v) s d = Inr d'"
  from e obtain t where t: "map_of (sch_tables s) n = Some t" and fits: "\<forall>x\<in>set (?cols t). default_fits x"
    and s': "s' = s\<lparr>sch_tables := AList.update n (t\<lparr>st_columns := ?cols t\<rparr>) (sch_tables s)\<rparr>"
    by (auto simp: with_table_Inr Let_def)
  let ?t = "t\<lparr>st_columns := ?cols t\<rparr>"
  have names: "column_names ?t = column_names t" by (simp add: column_names_def)
  have needed: "columns_needed ?t = columns_needed t" by (simp add: columns_needed_def)
  have "table_ok s ?t"
    using schema_okD [OF ok(1) t] fits unfolding table_ok_def names needed
    by (auto simp: pk_not_null_def not_null_in_def split: option.splits if_splits)
  moreover have "row_ok ?t x" if "row_ok t x" for x
    using that unfolding row_ok_def names by (auto simp: cell_ok_def)
  moreover have "keys_ok ?t rs = keys_ok t rs" "fks_ok ?t rs d = fks_ok t rs d" for rs by (simp_all add: keys_ok_def fks_ok_def)
  ultimately have "schema_ok s' \<and> rows_ok s' d" unfolding s' by (intro redefine_table [OF ok t]) simp_all
  with r show "schema_ok s' \<and> rows_ok s' d'" by simp
qed

lemma keeps_create_index: "keeps_ok (CreateIndex i n cs u)"
proof (rule keeps_okI)
  fix s d s' d'
  assume ok: "schema_ok s" "rows_ok s d" and e: "exec_schema (CreateIndex i n cs u) s = Inr s'"
    and r: "exec_rows (CreateIndex i n cs u) s d = Inr d'"
  from e obtain t where t: "map_of (sch_tables s) n = Some t" and cs: "set cs \<subseteq> set (column_names t)"
    and s': "s' = s\<lparr>sch_tables := AList.update n (t\<lparr>st_indexes := st_indexes t @ [(i, cs, u)]\<rparr>) (sch_tables s)\<rparr>"
    by (auto simp: with_table_Inr)
  let ?t = "t\<lparr>st_indexes := st_indexes t @ [(i, cs, u)]\<rparr>"
  have names: "column_names ?t = column_names t" by (simp add: column_names_def)
  have "table_ok s ?t"
    using schema_okD [OF ok(1) t] cs unfolding table_ok_def names
    by (auto simp: columns_needed_def pk_not_null_def not_null_in_def split: option.splits)
  moreover have "row_ok ?t x = row_ok t x" for x unfolding row_ok_def names by simp
  moreover have "keys_ok ?t (d n)" if "keys_ok t (d n)" using that r by (auto simp: keys_ok_def)
  moreover have "fks_ok ?t rs d = fks_ok t rs d" for rs by (simp add: fks_ok_def)
  ultimately have "schema_ok s' \<and> rows_ok s' d" unfolding s' by (intro redefine_table [OF ok t]) simp_all
  with r show "schema_ok s' \<and> rows_ok s' d'" by simp
qed

lemma keeps_drop_index: "keeps_ok (DropIndex i n)"
proof (rule keeps_okI)
  fix s d s' d'
  assume ok: "schema_ok s" "rows_ok s d" and e: "exec_schema (DropIndex i n) s = Inr s'"
    and r: "exec_rows (DropIndex i n) s d = Inr d'"
  let ?new = "\<lambda>t. t\<lparr>st_indexes := filter (\<lambda>x. fst x \<noteq> i) (st_indexes t)\<rparr>"
  from e obtain t where t: "map_of (sch_tables s) n = Some t"
    and s': "s' = s\<lparr>sch_tables := AList.update n (?new t) (sch_tables s)\<rparr>"
    by (auto simp: with_table_Inr)
  have names: "column_names (?new t) = column_names t" by (simp add: column_names_def)
  have "set (columns_needed (?new t)) \<subseteq> set (columns_needed t)" by (auto simp: columns_needed_def)
  then have "table_ok s (?new t)"
    using schema_okD [OF ok(1) t] unfolding table_ok_def names by (auto simp: pk_not_null_def not_null_in_def split: option.splits)
  moreover have "row_ok (?new t) x = row_ok t x" for x unfolding row_ok_def names by simp
  moreover have "keys_ok (?new t) (d n)" if "keys_ok t (d n)" using that by (auto simp: keys_ok_def)
  moreover have "fks_ok (?new t) rs d = fks_ok t rs d" for rs by (simp add: fks_ok_def)
  ultimately have "schema_ok s' \<and> rows_ok s' d" unfolding s' by (intro redefine_table [OF ok t]) simp_all
  with r show "schema_ok s' \<and> rows_ok s' d'" by simp
qed

lemma keeps_drop_constraint: "keeps_ok (DropConstraint k n kind)"
proof (rule keeps_okI)
  fix s d s' d'
  assume ok: "schema_ok s" "rows_ok s d" and e: "exec_schema (DropConstraint k n kind) s = Inr s'"
    and r: "exec_rows (DropConstraint k n kind) s d = Inr d'"
  let ?new = "\<lambda>t. case kind of PrimaryKind \<Rightarrow> t\<lparr>st_pk := None\<rparr> | ForeignKind \<Rightarrow> t\<lparr>st_fks := filter (\<lambda>f. fk_name f \<noteq> k) (st_fks t)\<rparr>"
  from e obtain t where t: "map_of (sch_tables s) n = Some t" and refs: "kind = PrimaryKind \<Longrightarrow> referring s n = []"
    and s': "s' = s\<lparr>sch_tables := AList.update n (?new t) (sch_tables s)\<rparr>"
    by (cases kind) (auto simp: with_table_Inr)
  have names: "column_names (?new t) = column_names t" by (cases kind) (simp_all add: column_names_def)
  have cols: "st_columns (?new t) = st_columns t" by (cases kind) simp_all
  have "set (columns_needed (?new t)) \<subseteq> set (columns_needed t)"
    by (cases kind) (auto simp: columns_needed_def split: option.splits)
  then have "table_ok s (?new t)"
    using schema_okD [OF ok(1) t] unfolding table_ok_def names cols
    by (cases kind) (auto simp: pk_not_null_def not_null_in_def split: option.splits)
  moreover have "row_ok (?new t) x = row_ok t x" for x unfolding row_ok_def names cols by (cases kind) simp_all
  moreover have "keys_ok (?new t) rs" if "keys_ok t rs" for rs using that by (cases kind) (auto simp: keys_ok_def)
  moreover have "fks_ok (?new t) rs d" if "fks_ok t rs d" for rs using that by (cases kind) (auto simp: fks_ok_def)
  moreover have "st_pk (?new t) = st_pk t" if "referring s n \<noteq> [] \<or> (\<exists>f\<in>set (st_fks (?new t)). fk_parent f = n)"
  proof (cases kind)
    case PrimaryKind
    with that refs map_of_SomeD [OF t] show ?thesis by (fastforce simp: referring_Nil)
  qed simp
  ultimately have "schema_ok s' \<and> rows_ok s' d" unfolding s' by (intro redefine_table [OF ok t]) blast+
  with r show "schema_ok s' \<and> rows_ok s' d'" by simp
qed

lemma unique_on_injective: "unique_on cs rs \<Longrightarrow> not_null_on cs rs \<Longrightarrow> distinct (map (project cs) rs)"
  by (induction rs) (auto simp: unique_on_def not_null_on_def)

lemma keeps_create_primary_key: "keeps_ok (CreatePrimaryKey k n cs)"
proof (rule keeps_okI)
  fix s d s' d'
  assume ok: "schema_ok s" "rows_ok s d" and e: "exec_schema (CreatePrimaryKey k n cs) s = Inr s'"
    and r: "exec_rows (CreatePrimaryKey k n cs) s d = Inr d'"
  let ?cols = "\<lambda>t. map (\<lambda>x. if cd_name x \<in> set cs then x\<lparr>cd_nullable := False\<rparr> else x) (st_columns t)"
  let ?new = "\<lambda>t. t\<lparr>st_pk := Some (k, cs), st_columns := ?cols t\<rparr>"
  from e obtain t where t: "map_of (sch_tables s) n = Some t" and none: "st_pk t = None" and cs: "set cs \<subseteq> set (column_names t)"
    and s': "s' = s\<lparr>sch_tables := AList.update n (?new t) (sch_tables s)\<rparr>"
    by (auto simp: with_table_Inr)
  from r have key: "not_null_on cs (d n)" "unique_on cs (d n)" and d': "d' = d" by auto
  have names: "column_names (?new t) = column_names t" by (simp add: column_names_def)
  have needed: "set (columns_needed (?new t)) = set cs \<union> set (columns_needed t)"
    by (simp add: columns_needed_def none Un_assoc)
  have nn: "pk_not_null (?new t)" by (auto simp: pk_not_null_def not_null_in_def)
  have fits: "\<forall>c\<in>set (st_columns (?new t)). default_fits c" if "\<forall>c\<in>set (st_columns t). default_fits c"
    using that by (auto simp: default_fits_def split: server_default.splits)
  have "table_ok s (?new t)"
    using schema_okD [OF ok(1) t] cs nn fits unfolding table_ok_def names needed by simp
  moreover have "row_ok (?new t) x" if x: "x \<in> set (d n)" "row_ok t x" for x
  proof -
    have "cell_ok (c\<lparr>cd_nullable := False\<rparr>) (x (cd_name c))" if "c \<in> set (st_columns t)" "cd_name c \<in> set cs" for c
    proof -
      have "x (cd_name c) \<noteq> NullV" using key(1) x(1) that(2) by (force simp: not_null_on_def project_def)
      moreover have "cell_ok c (x (cd_name c))" using x(2) that(1) by (simp add: row_ok_def)
      ultimately show ?thesis by (simp add: cell_ok_def)
    qed
    with x(2) show ?thesis unfolding row_ok_def names by auto
  qed
  moreover have "keys_ok (?new t) (d n)" if "keys_ok t (d n)" using that key(2) by (simp add: keys_ok_def)
  moreover have "fks_ok (?new t) rs d = fks_ok t rs d" for rs by (simp add: fks_ok_def)
  moreover have False if refs: "referring s n \<noteq> [] \<or> (\<exists>f\<in>set (st_fks (?new t)). fk_parent f = n)"
  proof -
    from refs have "referring s n \<noteq> []" using map_of_SomeD [OF t] by (fastforce simp: referring_Nil)
    then obtain m f where "(m, f) \<in> set (referring s n)" by (cases "referring s n") auto
    from referring_pk [OF ok(1) t this] none show False by simp
  qed
  ultimately have "schema_ok s' \<and> rows_ok s' d" unfolding s' by (intro redefine_table [OF ok t]) blast+
  then show "schema_ok s' \<and> rows_ok s' d'" by (simp add: d')
qed

lemma keeps_create_foreign_key: "keeps_ok (CreateForeignKey k n p cs pcs cascade)"
proof (rule keeps_okI)
  fix s d s' d'
  assume ok: "schema_ok s" "rows_ok s d" and e: "exec_schema (CreateForeignKey k n p cs pcs cascade) s = Inr s'"
    and r: "exec_rows (CreateForeignKey k n p cs pcs cascade) s d = Inr d'"
  define f where "f = \<lparr>fk_name = k, fk_columns = cs, fk_parent = p, fk_parent_columns = pcs, fk_cascade = cascade\<rparr>"
  let ?new = "\<lambda>t. t\<lparr>st_fks := st_fks t @ [f]\<rparr>"
  from e obtain t where t: "map_of (sch_tables s) n = Some t" and cs: "set cs \<subseteq> set (column_names t)"
    and f: "fk_target_ok s f" and s': "s' = s\<lparr>sch_tables := AList.update n (?new t) (sch_tables s)\<rparr>"
    by (auto simp: with_table_Inr Let_def f_def)
  from r have refs: "refers_to cs (d n) pcs (d p)" and d': "d' = d" by auto
  have names: "column_names (?new t) = column_names t" by (simp add: column_names_def)
  have "set (columns_needed (?new t)) = set cs \<union> set (columns_needed t)" by (auto simp: columns_needed_def f_def)
  then have "table_ok s (?new t)"
    using schema_okD [OF ok(1) t] cs f unfolding table_ok_def names
    by (auto simp: pk_not_null_def not_null_in_def split: option.splits)
  moreover have "row_ok (?new t) x = row_ok t x" for x unfolding row_ok_def names by simp
  moreover have "keys_ok (?new t) rs = keys_ok t rs" for rs by (simp add: keys_ok_def)
  moreover have "fks_ok (?new t) (d n) d" if "fks_ok t (d n) d" using that refs by (auto simp: fks_ok_def f_def)
  ultimately have "schema_ok s' \<and> rows_ok s' d" unfolding s' by (intro redefine_table [OF ok t]) simp_all
  then show "schema_ok s' \<and> rows_ok s' d'" by (simp add: d')
qed

text \<open>
  A column that no constraint of the new table needs is set to one value in all rows: what adding and
  dropping a column have in common.
\<close>

lemma set_column:
  assumes ok: "schema_ok s" "rows_ok s d" and t: "map_of (sch_tables s) n = Some t"
    and s': "s' = s\<lparr>sch_tables := AList.update n t' (sch_tables s)\<rparr>" and d': "d' = d(n := map (\<lambda>r. r(c := v)) (d n))"
    and new: "table_ok s t'" and apart: "c \<notin> set (columns_needed t')"
    and sub: "\<And>k cs. st_pk t' = Some (k, cs) \<Longrightarrow> st_pk t = Some (k, cs)"
      "set (st_fks t') \<subseteq> set (st_fks t)" "set (st_indexes t') \<subseteq> set (st_indexes t)"
    and refs: "\<And>m f. (m, f) \<in> set (referring s n) \<Longrightarrow> c \<notin> set (fk_parent_columns f) \<and> st_pk t' = st_pk t"
    and rows: "\<And>r. r \<in> set (d n) \<Longrightarrow> row_ok t r \<Longrightarrow> row_ok t' (r(c := v))"
  shows "schema_ok s' \<and> rows_ok s' d'"
proof -
  let ?rs = "map (\<lambda>r. r(c := v)) (d n)"
  have same: "map (project cs) ?rs = map (project cs) (d n)" if "c \<notin> set cs" for cs
    by (rule project_upd_map [OF that])
  have images: "project cs ` set ?rs = project cs ` set (d n)" if "c \<notin> set cs" for cs
    using arg_cong [OF same [OF that], of set] by (simp only: set_map)
  have keys: "keys_ok t' ?rs" unfolding keys_ok_def
  proof (intro conjI allI impI ballI, goal_cases)
    case (1 k cs)
    have "c \<notin> set cs" using apart pk_column_needed [OF 1] by blast
    moreover have "unique_on cs (d n)" using rows_okD(2) [OF ok(2) t] sub(1) [OF 1] by (simp add: keys_ok_def)
    ultimately show ?case using unique_on_cong [OF same] by blast
  next
    case (2 x)
    obtain i cs u where x: "x = (i, cs, u)" by (cases x)
    have "unique_on cs ?rs" if u
    proof -
      have "c \<notin> set cs" using apart index_column_needed [OF 2 [unfolded x]] by blast
      moreover have "unique_on cs (d n)" using rows_okD(2) [OF ok(2) t] sub(3) 2 that by (auto simp: keys_ok_def x)
      ultimately show ?thesis using unique_on_cong [OF same] by blast
    qed
    then show ?case by (simp add: x)
  qed
  have referred: "project (fk_parent_columns f) ` set (d n) \<subseteq> project (fk_parent_columns f) ` set ?rs"
    if "(m, f) \<in> set (referring s n)" for m f
    using images refs [OF that] by simp
  have fks: "fks_ok t' ?rs d'" unfolding fks_ok_def
  proof
    fix f assume f': "f \<in> set (st_fks t')"
    with sub(2) have f: "f \<in> set (st_fks t)" by blast
    have old: "refers_to (fk_columns f) (d n) (fk_parent_columns f) (d (fk_parent f))"
      using rows_okD(3) [OF ok(2) t] f by (simp add: fks_ok_def)
    have parent: "project (fk_parent_columns f) ` set (d (fk_parent f)) \<subseteq> project (fk_parent_columns f) ` set (d' (fk_parent f))"
    proof (cases "fk_parent f = n")
      case True
      with f map_of_SomeD [OF t] have "(n, f) \<in> set (referring s n)" by (auto simp: referring_iff)
      from referred [OF this] True show ?thesis by (simp add: d')
    qed (simp add: d')
    have "c \<notin> set (fk_columns f)" using apart fk_column_needed [OF f'] by blast
    from images [OF this] show "refers_to (fk_columns f) ?rs (fk_parent_columns f) (d' (fk_parent f))"
      by (intro refers_to_cong [OF old _ parent]) blast
  qed
  have row: "row_ok t' r" if "r \<in> set ?rs" for r
    using that rows rows_okD(1) [OF ok(2) t] by auto
  have pk: "st_pk t' = st_pk t" if "referring s n \<noteq> [] \<or> (\<exists>f\<in>set (st_fks t'). fk_parent f = n)"
  proof -
    from that sub(2) map_of_SomeD [OF t] have "referring s n \<noteq> []" by (fastforce simp: referring_Nil)
    then obtain m f where "(m, f) \<in> set (referring s n)" by (cases "referring s n") auto
    from refs [OF this] show ?thesis ..
  qed
  have "schema_ok s'"
    by (rule replace_table(1) [OF ok t _ new pk row keys fks [unfolded d'] referred]) (simp add: s', assumption+)
  moreover have "rows_ok s' d'" unfolding d'
    by (rule replace_table(2) [OF ok t _ new pk row keys fks [unfolded d'] referred]) (simp add: s', assumption+)
  ultimately show ?thesis ..
qed

lemma keeps_add_column: "keeps_ok (AddColumn n c)"
proof (rule keeps_okI)
  fix s d s' d'
  let ?new = "\<lambda>t. t\<lparr>st_columns := st_columns t @ [c]\<rparr>"
  assume ok: "schema_ok s" "rows_ok s d" and e: "exec_schema (AddColumn n c) s = Inr s'"
    and r: "exec_rows (AddColumn n c) s d = Inr d'"
  from e obtain t where t: "map_of (sch_tables s) n = Some t" and fresh: "cd_name c \<notin> set (column_names t)"
    and fits: "default_fits c" and s': "s' = s\<lparr>sch_tables := AList.update n (?new t) (sch_tables s)\<rparr>"
    by (auto simp: with_table_Inr)
  from r obtain rs where rs: "fill c (d n) = Inr rs" and d': "d' = d(n := rs)"
    by (auto simp: map_sum_def split: sum.splits)
  have "\<exists>v. rs = map (\<lambda>r. r(cd_name c := v)) (d n) \<and> (d n \<noteq> [] \<longrightarrow> cell_ok c v)"
  proof (cases "d n = []")
    case False
    with rs obtain v where "filled_with (cd_default c) = Some v" "cd_nullable c \<or> v \<noteq> NullV"
      "rs = map (\<lambda>r. r(cd_name c := v)) (d n)" by (auto simp: fill_def split: option.splits)
    moreover from this(1,2) fits have "cell_ok c v" by (cases "cd_default c") (auto simp: cell_ok_def default_fits_def)
    ultimately show ?thesis by blast
  qed (use rs in \<open>simp add: fill_def\<close>)
  then obtain v where v: "rs = map (\<lambda>r. r(cd_name c := v)) (d n)" "d n \<noteq> [] \<Longrightarrow> cell_ok c v" by blast
  note t_ok = schema_okD [OF ok(1) t]
  have names: "column_names (?new t) = column_names t @ [cd_name c]" by (simp add: column_names_def)
  have needed: "columns_needed (?new t) = columns_needed t" by (simp add: columns_needed_def)
  have apart: "cd_name c \<notin> set (columns_needed t)" using t_ok fresh by (auto simp: table_ok_def)
  have "pk_not_null (?new t)"
    using t_ok apart by (auto simp: table_ok_def pk_not_null_def not_null_in_def columns_needed_def split: option.splits)
  with t_ok fresh fits have new_ok: "table_ok s (?new t)" unfolding table_ok_def names needed by auto
  have refs: "cd_name c \<notin> set (fk_parent_columns f)" if "(m, f) \<in> set (referring s n)" for m f
    using referring_pk [OF ok(1) t that] apart pk_column_needed by blast
  have row: "row_ok (?new t) (y(cd_name c := v))" if y: "y \<in> set (d n)" "row_ok t y" for y
  proof -
    have "cell_ok b ((y(cd_name c := v)) (cd_name b))" if "b \<in> set (st_columns t)" for b
    proof -
      have "cd_name b \<in> set (column_names t)" using that by (simp add: column_names_def)
      with fresh have "cd_name b \<noteq> cd_name c" by auto
      then show ?thesis using that y(2) by (simp add: row_ok_def)
    qed
    moreover have "cell_ok c v" using v(2) y(1) by (cases "d n = []") simp_all
    moreover have "(y(cd_name c := v)) b = NullV \<or> (y(cd_name c := v)) b \<in> TextV ` set vs"
      if "(k, b, vs) \<in> set (st_checks t)" for k b vs
      using that y(2) apart check_column_needed [OF that] by (auto simp: row_ok_def)
    moreover have "y b = NullV" if "b \<notin> set (column_names t)" for b
      using that row_ok_absent [OF y(2)] by simp
    ultimately show ?thesis unfolding row_ok_def names by auto
  qed
  show "schema_ok s' \<and> rows_ok s' d'"
    by (rule set_column [OF ok t s' d' [unfolded v(1)] new_ok]) (use apart refs row in \<open>simp_all add: needed\<close>)
qed

lemma drop_mentions_needed: "c \<notin> set (columns_needed (drop_mentions c t))"
  and drop_mentions_sub: "set (columns_needed (drop_mentions c t)) \<subseteq> set (columns_needed t)"
  by (auto simp: drop_mentions_def columns_needed_def split: option.splits)

lemma keeps_drop_column: "keeps_ok (DropColumn n c)"
proof (rule keeps_okI)
  fix s d s' d'
  let ?new = "\<lambda>t. (drop_mentions c t)\<lparr>st_columns := filter (\<lambda>x. cd_name x \<noteq> c) (st_columns t)\<rparr>"
  assume ok: "schema_ok s" "rows_ok s d" and e: "exec_schema (DropColumn n c) s = Inr s'"
    and r: "exec_rows (DropColumn n c) s d = Inr d'"
  from e obtain t where t: "map_of (sch_tables s) n = Some t"
    and refs: "\<And>m f. (m, f) \<in> set (referring s n) \<Longrightarrow> c \<notin> set (fk_parent_columns f)"
    and s': "s' = s\<lparr>sch_tables := AList.update n (?new t) (sch_tables s)\<rparr>"
    by (auto simp: with_table_Inr)
  note t_ok = schema_okD [OF ok(1) t]
  have names: "column_names (?new t) = filter (\<lambda>x. x \<noteq> c) (column_names t)"
    by (simp add: column_names_def filter_map o_def)
  have needed: "columns_needed (?new t) = columns_needed (drop_mentions c t)" by (simp add: columns_needed_def)
  have "pk_not_null (?new t)"
    using t_ok by (auto simp: table_ok_def pk_not_null_def not_null_in_def drop_mentions_def split: option.splits if_splits)
  moreover have "set (columns_needed (drop_mentions c t)) \<subseteq> set (column_names t) - {c}"
    using t_ok drop_mentions_needed drop_mentions_sub by (fastforce simp: table_ok_def)
  moreover have "set (st_fks (?new t)) \<subseteq> set (st_fks t)" by (auto simp: drop_mentions_def)
  ultimately have new_ok: "table_ok s (?new t)"
    using t_ok unfolding table_ok_def names needed by auto
  have same: "st_pk (?new t) = st_pk t" if "(m, f) \<in> set (referring s n)" for m f
    using referring_pk [OF ok(1) t that] refs [OF that] by (auto simp: drop_mentions_def)
  have row: "row_ok (?new t) (y(c := NullV))" if "row_ok t y" for y
    using that unfolding row_ok_def names by (auto simp: drop_mentions_def)
  have sub: "st_pk t = Some (k, cs)" if "st_pk (?new t) = Some (k, cs)" for k cs
    using that by (auto simp: drop_mentions_def split: option.splits if_splits)
  have subs: "set (st_fks (?new t)) \<subseteq> set (st_fks t)" "set (st_indexes (?new t)) \<subseteq> set (st_indexes t)"
    by (auto simp: drop_mentions_def)
  have d': "d' = d(n := map (\<lambda>r. r(c := NullV)) (d n))" using r by simp
  show "schema_ok s' \<and> rows_ok s' d'"
    by (rule set_column [OF ok t s' d' new_ok _ sub subs])
      (use refs same row drop_mentions_needed in \<open>simp_all only: needed, simp_all\<close>)
qed

lemma keeps_delete: "keeps_ok (DeleteWhereNot n c v)"
proof (rule keeps_okI)
  fix s d s' d'
  let ?rs = "filter (\<lambda>r. r c = NullV \<or> r c = TextV v) (d n)"
  assume ok: "schema_ok s" "rows_ok s d" and e: "exec_schema (DeleteWhereNot n c v) s = Inr s'"
    and r: "exec_rows (DeleteWhereNot n c v) s d = Inr d'"
  from e obtain t where t: "map_of (sch_tables s) n = Some t"
    and s': "s' = s\<lparr>sch_tables := AList.update n t (sch_tables s)\<rparr>" by (auto simp: with_table_Inr)
  from r have d': "d' = d(n := ?rs)"
    and refs: "\<And>m f. (m, f) \<in> set (referring s n) \<Longrightarrow> refers_to (fk_columns f) (d' m) (fk_parent_columns f) (d' n)"
    by (auto simp: Let_def)
  have "AList.update n t xs = xs" if "map_of xs n = Some t" for xs :: "(string, sa_table) dict"
    using that by (induction xs) (auto split: if_splits)
  with t have same: "s' = s" by (simp add: s')
  then have "schema_ok s'" using ok(1) by simp
  moreover have "rows_ok s' d'" unfolding rows_ok_def
  proof
    fix m
    show "case map_of (sch_tables s') m of None \<Rightarrow> d' m = []
      | Some u \<Rightarrow> (\<forall>r\<in>set (d' m). row_ok u r) \<and> keys_ok u (d' m) \<and> fks_ok u (d' m) d'"
    proof (cases "map_of (sch_tables s) m")
      case None
      then show ?thesis using rows_ok_empty [OF ok(2) None] t by (auto simp: same d')
    next
      case (Some u)
      note old = rows_okD [OF ok(2) Some]
      have sub: "set (d' m) \<subseteq> set (d m)" by (simp add: d')
      have "keys_ok u (d' m)" using old(2) by (auto simp: keys_ok_def d' unique_on_filter)
      moreover have "fks_ok u (d' m) d'" unfolding fks_ok_def
      proof
        fix f assume f: "f \<in> set (st_fks u)"
        show "refers_to (fk_columns f) (d' m) (fk_parent_columns f) (d' (fk_parent f))"
        proof (cases "fk_parent f = n")
          case True
          with f map_of_SomeD [OF Some] have "(m, f) \<in> set (referring s n)" by (auto simp: referring_iff)
          from refs [OF this] True show ?thesis by simp
        next
          case False
          have "refers_to (fk_columns f) (d m) (fk_parent_columns f) (d (fk_parent f))"
            using old(3) f by (simp add: fks_ok_def)
          then show ?thesis using sub False by (auto simp: refers_to_def d' split: if_splits)
        qed
      qed
      ultimately show ?thesis using old(1) sub by (auto simp: same Some)
    qed
  qed
  ultimately show "schema_ok s' \<and> rows_ok s' d'" ..
qed

lemmas keeps_every_ok = keeps_create_table keeps_drop_table keeps_add_column keeps_drop_column keeps_alter_default
  keeps_create_index keeps_drop_index keeps_drop_constraint keeps_create_primary_key keeps_create_foreign_key keeps_delete

lemma ddl_keeps_ok: "keeps_ok o1"
  by (cases o1) (simp_all only: keeps_every_ok)

lemma exec_ddl_ok: "exec_ddl o1 d = Inr d' \<Longrightarrow> database_ok d \<Longrightarrow> database_ok d'"
proof -
  assume e: "exec_ddl o1 d = Inr d'" and ok: "database_ok d"
  from e obtain s rows where s: "exec_schema o1 (d_schema d) = Inr s" "exec_rows o1 (d_schema d) (d_rows d) = Inr rows"
    and d': "d' = d\<lparr>d_schema := s, d_rows := rows\<rparr>"
    by (simp add: exec_ddl_def split: sum.splits)
  from ok ddl_keeps_ok s have "schema_ok s \<and> rows_ok s rows" unfolding keeps_ok_def database_ok_def by blast
  then show "database_ok d'" by (simp add: database_ok_def d')
qed

lemma exec_all_ok: "exec_all ops d = Inr d' \<Longrightarrow> database_ok d \<Longrightarrow> database_ok d'"
  by (induction ops arbitrary: d) (auto dest: exec_ddl_ok split: sum.splits)

end
