(* ===== verification/Migrations_Correct.thy ===== *)
theory Migrations_Correct
  imports Migrations Schema_Correct
begin

text \<open>
  What the migrations do to a database in use: the upgrade to the head succeeds from every revision on all
  rows that the constraints of that revision admit, ends with the tables of the models, and carries the
  rows over.
\<close>

section \<open>The chain of revisions\<close>

lemmas migration_defs = created_user_model_def created_refresh_token_model_def created_refresh_token_model2_def
  updated_user_model_for_email_def add_cascade_delete_def refactored_f1_user_table_def add_revoked_at_def
  add_ingestion_task_def add_raw_tenrai_def add_catalogue_tables_def deleted_related_type_def add_ingestion_run_def
  raw_payload_moves_to_s3_def add_imdb_tables_def

definition chain :: "migration list" where
  "chain = [created_user_model, created_refresh_token_model, created_refresh_token_model2, updated_user_model_for_email,
     add_cascade_delete, refactored_f1_user_table, add_revoked_at, add_ingestion_task, add_raw_tenrai, add_catalogue_tables,
     deleted_related_type, add_ingestion_run, raw_payload_moves_to_s3, add_imdb_tables]"

definition version_at :: "nat \<Rightarrow> string option" where
  "version_at k = (if k = 0 then None else Some (mig_revision (chain ! (k - 1))))"

lemma length_chain [simp]: "length chain = 14"
  by (simp add: chain_def)

lemma revisions [simp]:
  "mig_revision created_user_model = ''a6c1eb602edc''"
  "mig_revision created_refresh_token_model = ''3e213479d3ea''"
  "mig_revision created_refresh_token_model2 = ''504b08293020''"
  "mig_revision updated_user_model_for_email = ''e5fc16ed8fca''"
  "mig_revision add_cascade_delete = ''e2d938aaf932''"
  "mig_revision refactored_f1_user_table = ''9d76c03afd2b''"
  "mig_revision add_revoked_at = ''b7a41c9e2d10''"
  "mig_revision add_ingestion_task = ''4138a76d7f0b''"
  "mig_revision add_raw_tenrai = ''5318523285a5''"
  "mig_revision add_catalogue_tables = ''78f3013b67fa''"
  "mig_revision deleted_related_type = ''84b981b0d01a''"
  "mig_revision add_ingestion_run = ''3bd5db36b875''"
  "mig_revision raw_payload_moves_to_s3 = ''c4f1a7d95e20''"
  "mig_revision add_imdb_tables = ''94794cdb7738''"
  by (simp_all add: migration_defs)

lemma down_revisions [simp]:
  "mig_down created_user_model = None"
  "mig_down created_refresh_token_model = Some ''a6c1eb602edc''"
  "mig_down created_refresh_token_model2 = Some ''3e213479d3ea''"
  "mig_down updated_user_model_for_email = Some ''504b08293020''"
  "mig_down add_cascade_delete = Some ''e5fc16ed8fca''"
  "mig_down refactored_f1_user_table = Some ''e2d938aaf932''"
  "mig_down add_revoked_at = Some ''9d76c03afd2b''"
  "mig_down add_ingestion_task = Some ''b7a41c9e2d10''"
  "mig_down add_raw_tenrai = Some ''4138a76d7f0b''"
  "mig_down add_catalogue_tables = Some ''5318523285a5''"
  "mig_down deleted_related_type = Some ''78f3013b67fa''"
  "mig_down add_ingestion_run = Some ''84b981b0d01a''"
  "mig_down raw_payload_moves_to_s3 = Some ''3bd5db36b875''"
  "mig_down add_imdb_tables = Some ''c4f1a7d95e20''"
  by (simp_all add: migration_defs)

lemma next_migration_simps:
  "next_migration None = Some created_user_model"
  "next_migration (Some ''a6c1eb602edc'') = Some created_refresh_token_model"
  "next_migration (Some ''3e213479d3ea'') = Some created_refresh_token_model2"
  "next_migration (Some ''504b08293020'') = Some updated_user_model_for_email"
  "next_migration (Some ''e5fc16ed8fca'') = Some add_cascade_delete"
  "next_migration (Some ''e2d938aaf932'') = Some refactored_f1_user_table"
  "next_migration (Some ''9d76c03afd2b'') = Some add_revoked_at"
  "next_migration (Some ''b7a41c9e2d10'') = Some add_ingestion_task"
  "next_migration (Some ''4138a76d7f0b'') = Some add_raw_tenrai"
  "next_migration (Some ''5318523285a5'') = Some add_catalogue_tables"
  "next_migration (Some ''78f3013b67fa'') = Some deleted_related_type"
  "next_migration (Some ''84b981b0d01a'') = Some add_ingestion_run"
  "next_migration (Some ''3bd5db36b875'') = Some raw_payload_moves_to_s3"
  "next_migration (Some ''c4f1a7d95e20'') = Some add_imdb_tables"
  "next_migration (Some ''94794cdb7738'') = None"
  by (simp_all add: next_migration_def versions_def)

lemma below_14: "(\<forall>k<14. P k) \<longleftrightarrow> P 0 \<and> P 1 \<and> P 2 \<and> P 3 \<and> P 4 \<and> P 5 \<and> P 6 \<and> P 7 \<and> P 8 \<and> P 9 \<and> P 10 \<and> P 11 \<and> P 12 \<and> P (13::nat)"
  by (simp add: numeral_eq_Suc All_less_Suc)  auto

lemma next_at: "\<forall>k<14. next_migration (version_at k) = Some (chain ! k)"
  unfolding below_14 version_at_def chain_def by (simp add: next_migration_simps)

lemma next_at_head: "next_migration (version_at 14) = None"
  by (simp add: version_at_def chain_def next_migration_simps)

section \<open>The schema and the rows apart\<close>

fun exec_schemas :: "ddl list \<Rightarrow> schema \<Rightarrow> ddl_error + schema" where
  "exec_schemas [] s = Inr s"
| "exec_schemas (o1 # ops) s = (case exec_schema o1 s of Inl x \<Rightarrow> Inl x | Inr s' \<Rightarrow> exec_schemas ops s')"

fun no_delete :: "ddl \<Rightarrow> bool" where
  "no_delete (DeleteWhereNot _ _ _) = False"
| "no_delete _ = True"

text \<open>Only a DELETE looks at the schema to change the rows.\<close>

fun exec_all_rows :: "ddl list \<Rightarrow> sql_rows \<Rightarrow> ddl_error + sql_rows" where
  "exec_all_rows [] d = Inr d"
| "exec_all_rows (o1 # ops) d = (case exec_rows o1 (d_schema empty_database) d of Inl x \<Rightarrow> Inl x | Inr d' \<Rightarrow> exec_all_rows ops d')"

lemma exec_rows_schema: "no_delete o1 \<Longrightarrow> exec_rows o1 s d = exec_rows o1 s' d"
  by (cases o1) simp_all

lemma exec_ddl_parts:
  "exec_ddl o1 d = Inr d' \<longleftrightarrow> exec_schema o1 (d_schema d) = Inr (d_schema d')
     \<and> exec_rows o1 (d_schema d) (d_rows d) = Inr (d_rows d') \<and> d_version d' = d_version d"
  by (auto simp: exec_ddl_def split: sum.splits)

lemma exec_all_schema: "exec_all ops d = Inr d' \<Longrightarrow> exec_schemas ops (d_schema d) = Inr (d_schema d') \<and> d_version d' = d_version d"
proof (induction ops arbitrary: d)
  case (Cons o1 ops)
  from Cons.prems obtain e where e: "exec_ddl o1 d = Inr e" "exec_all ops e = Inr d'" by (auto split: sum.splits)
  from e(1) have "exec_schema o1 (d_schema d) = Inr (d_schema e)" "d_version e = d_version d" by (simp_all add: exec_ddl_parts)
  with Cons.IH [OF e(2)] show ?case by simp
qed simp

lemma exec_all_succeeds:
  "list_all no_delete ops \<Longrightarrow> exec_schemas ops (d_schema d) = Inr s \<Longrightarrow> exec_all_rows ops (d_rows d) = Inr rows
     \<Longrightarrow> exec_all ops d = Inr (d\<lparr>d_schema := s, d_rows := rows\<rparr>)"
proof (induction ops arbitrary: d)
  case (Cons o1 ops)
  from Cons.prems obtain s1 r1 where s1: "exec_schema o1 (d_schema d) = Inr s1" "exec_schemas ops s1 = Inr s"
    and r1: "exec_rows o1 (d_schema empty_database) (d_rows d) = Inr r1" "exec_all_rows ops r1 = Inr rows"
    by (auto split: sum.splits)
  have "exec_rows o1 (d_schema d) (d_rows d) = Inr r1" using r1(1) Cons.prems(1) exec_rows_schema [of o1] by simp metis
  with s1(1) have "exec_ddl o1 d = Inr (d\<lparr>d_schema := s1, d_rows := r1\<rparr>)" by (simp add: exec_ddl_def)
  with Cons.IH [of "d\<lparr>d_schema := s1, d_rows := r1\<rparr>"] Cons.prems(1) s1(2) r1(2) show ?case by simp
qed simp

fun schemas :: "migration list \<Rightarrow> schema \<Rightarrow> ddl_error + schema" where
  "schemas [] s = Inr s"
| "schemas (m # ms) s = (case exec_schemas (mig_upgrade m) s of Inl x \<Rightarrow> Inl x | Inr s' \<Rightarrow> schemas ms s')"

lemma schemas_append: "schemas (ms @ ns) s = (case schemas ms s of Inl x \<Rightarrow> Inl x | Inr s' \<Rightarrow> schemas ns s')"
  by (induction ms arbitrary: s) (auto split: sum.splits)

definition empty_schema :: schema where "empty_schema = \<lparr>sch_tables = [], sch_types = []\<rparr>"

text \<open>The schema after the first migrations of the chain.\<close>

definition schema_at :: "nat \<Rightarrow> schema" where
  "schema_at k = (case schemas (take k chain) empty_schema of Inl _ \<Rightarrow> empty_schema | Inr s \<Rightarrow> s)"

text \<open>
  What the proofs need of the schemas along the chain, so that it is computed once: the chain runs, each
  downgrade takes the tables back, and some facts about single tables.
\<close>

definition quick_tables :: "schema \<Rightarrow> schema \<Rightarrow> bool" where
  "quick_tables s s' = ((if map fst (sch_tables s) = map fst (sch_tables s') then True else fst ` set (sch_tables s) = fst ` set (sch_tables s'))
     \<and> list_all (\<lambda>(n, t). case map_of (sch_tables s') n of None \<Rightarrow> False | Some u \<Rightarrow> if t = u then True else same_table t u) (sch_tables s))"

text \<open>The comparison of `same_tables`, with the equal parts first.\<close>

lemma quick_same: "quick_tables s s' = same_tables s s'"
proof -
  have "(if map fst xs = map fst ys then True else fst ` set xs = fst ` set ys) = (fst ` set xs = fst ` set ys)"
    for xs ys :: "(string, sa_table) dict"
    by (metis list.set_map)
  moreover have "(if t = u then True else same_table t u) = same_table t u" for t u
    by (simp add: same_table_def)
  ultimately show ?thesis by (simp only: quick_tables_def same_tables_def list_all_iff)
qed

fun table_name :: "table \<Rightarrow> string" where
  "table_name TAnime = ''anime''"
| "table_name TTag = ''tag''"
| "table_name TAnimeTag = ''anime_tag''"
| "table_name TStudio = ''studio''"
| "table_name TAnimeStudio = ''anime_studio''"
| "table_name TStatistics = ''anime_statistics_mal''"
| "table_name TRelation = ''anime_relation''"
| "table_name TEpisode = ''episode''"
| "table_name TReview = ''review''"

fun column_kind :: "sqltype \<Rightarrow> coltype option" where
  "column_kind SqlInteger = Some CInt"
| "column_kind SqlText = Some CText"
| "column_kind SqlBoolean = Some CBool"
| "column_kind SqlDateTime = Some CTime"
| "column_kind (SqlNumeric p s) = (if p = 4 \<and> s = 2 then Some CNumeric else None)"
| "column_kind _ = None"

definition table_fits :: "table \<Rightarrow> sa_table \<Rightarrow> bool" where
  "table_fits tb t \<longleftrightarrow> map (\<lambda>c. (cd_name c, column_kind (cd_type c), cd_nullable c)) (st_columns t)
       = map (\<lambda>(n, k, nullable). (n, Some k, nullable)) (table_columns tb)
     \<and> map_option snd (st_pk t) = Some (table_keys tb)
     \<and> map (\<lambda>f. (fk_columns f, fk_parent f, fk_parent_columns f)) (st_fks t)
       = map (\<lambda>(c, p). ([c], table_name p, [''mal_id''])) (table_parents tb)"

definition columns_of :: "schema \<Rightarrow> string \<Rightarrow> string list" where
  "columns_of s n = (case map_of (sch_tables s) n of None \<Rightarrow> [] | Some t \<Rightarrow> column_names t)"

definition matches_models :: "schema \<Rightarrow> bool" where
  "matches_models s = (case declared_database of Inl _ \<Rightarrow> False | Inr m \<Rightarrow> same_tables s (d_schema m))"

definition key_is :: "schema \<Rightarrow> string \<Rightarrow> string list \<Rightarrow> bool" where
  "key_is s n cs = (case map_of (sch_tables s) n of None \<Rightarrow> False | Some t \<Rightarrow> st_pk t = Some (n @ ''_pkey'', cs))"

definition tokens_refer :: "schema \<Rightarrow> bool" where
  "tokens_refer s = (case map_of (sch_tables s) ''refresh_token'' of None \<Rightarrow> False
     | Some t \<Rightarrow> map (\<lambda>f. (fk_columns f, fk_parent f, fk_parent_columns f)) (st_fks t) = [([''user_id''], ''users'', [''id''])])"

definition edge_key :: "string list" where
  "edge_key = [''anime_id'', ''relation'', ''related_mal_id'']"

definition typed_edge_key :: "string list" where
  "typed_edge_key = [''anime_id'', ''relation'', ''related_type'', ''related_mal_id'']"

definition milestones :: "nat \<Rightarrow> schema \<Rightarrow> bool" where
  "milestones k s = (if k = 4 then tokens_refer s else if k = 5 then tokens_refer s
     else if k = 10 then referring s ''anime_relation'' = [] \<and> key_is s ''anime_relation'' typed_edge_key
     else if k = 11 then key_is s ''anime_relation'' edge_key
     else if k = 14 then matches_models s
       \<and> columns_of s ''users'' = [''id'', ''email'', ''username'', ''password'', ''is_admin'', ''created_at'', ''is_verified'']
       \<and> columns_of s ''raw_tenrai'' = [''mal_id'', ''resource'', ''fetched_at'', ''size_bytes'']
       \<and> columns_of s ''anime_relation'' = edge_key
       \<and> list_all (\<lambda>tb. case map_of (sch_tables s) (table_name tb) of None \<Rightarrow> False | Some t \<Rightarrow> table_fits tb t)
           [TAnime, TTag, TAnimeTag, TStudio, TAnimeStudio, TStatistics, TRelation, TEpisode, TReview]
     else True)"

fun survey :: "(nat \<Rightarrow> schema \<Rightarrow> bool) \<Rightarrow> nat \<Rightarrow> migration list \<Rightarrow> schema \<Rightarrow> bool" where
  "survey P k [] s = P k s"
| "survey P k (m # ms) s = (P k s \<and> (case exec_schemas (mig_upgrade m) s of Inl _ \<Rightarrow> False
     | Inr s' \<Rightarrow> (case exec_schemas (mig_downgrade m) s' of Inl _ \<Rightarrow> False | Inr s2 \<Rightarrow> quick_tables s2 s) \<and> survey P (Suc k) ms s'))"

lemma chain_surveyed: "survey milestones 0 chain empty_schema"
  by code_simp

lemma survey_at:
  "survey P i ms s \<Longrightarrow> k \<le> length ms \<Longrightarrow> \<exists>s'. schemas (take k ms) s = Inr s' \<and> survey P (i + k) (drop k ms) s'"
proof (induction P i ms s arbitrary: k rule: survey.induct)
  case (2 P i m ms s)
  show ?case
  proof (cases k)
    case (Suc j)
    from "2.prems" obtain s' where s': "exec_schemas (mig_upgrade m) s = Inr s'" "survey P (Suc i) ms s'"
      by (auto split: sum.splits)
    from "2.IH" [OF s'] "2.prems"(2) Suc s'(1) show ?thesis by auto
  qed (use "2.prems" in auto)
qed simp

lemma surveyed: "k \<le> 14 \<Longrightarrow> \<exists>s. schemas (take k chain) empty_schema = Inr s \<and> survey milestones k (drop k chain) s"
  using survey_at [OF chain_surveyed, of k] by simp

lemma schemas_at: "k \<le> 14 \<Longrightarrow> schemas (take k chain) empty_schema = Inr (schema_at k)"
  using surveyed [of k] by (auto simp: schema_at_def)

lemma survey_rest: "k \<le> 14 \<Longrightarrow> survey milestones k (drop k chain) (schema_at k)"
  using surveyed [of k] schemas_at [of k] by auto

lemma milestone: "k \<le> 14 \<Longrightarrow> milestones k (schema_at k)"
  using survey_rest [of k] by (cases "drop k chain") auto

lemma schema_at_0: "schema_at 0 = empty_schema"
  by (simp add: schema_at_def)

lemma schema_at_Suc: "k < 14 \<Longrightarrow> exec_schemas (mig_upgrade (chain ! k)) (schema_at k) = Inr (schema_at (Suc k))"
  using schemas_at [of "Suc k"] schemas_at [of k]
  by (simp add: take_Suc_conv_app_nth schemas_append split: sum.splits)

lemma undone_at: "k < 14 \<Longrightarrow> \<exists>s2. exec_schemas (mig_downgrade (chain ! k)) (schema_at (Suc k)) = Inr s2 \<and> same_tables s2 (schema_at k)"
  using survey_rest [of k] schema_at_Suc [of k]
  by (auto simp: Cons_nth_drop_Suc [symmetric] quick_same split: sum.splits)

lemma head_facts:
  "matches_models (schema_at 14)"
  "columns_of (schema_at 14) ''users'' = [''id'', ''email'', ''username'', ''password'', ''is_admin'', ''created_at'', ''is_verified'']"
  "columns_of (schema_at 14) ''raw_tenrai'' = [''mal_id'', ''resource'', ''fetched_at'', ''size_bytes'']"
  "columns_of (schema_at 14) ''anime_relation'' = edge_key"
  using milestone [of 14] by (simp_all add: milestones_def)

lemma key_at: "key_is (schema_at 10) ''anime_relation'' typed_edge_key" "referring (schema_at 10) ''anime_relation'' = []"
  "key_is (schema_at 11) ''anime_relation'' edge_key"
  using milestone [of 10] milestone [of 11] by (simp_all add: milestones_def)

section \<open>Deployed databases\<close>

text \<open>
  The databases that can be there when an upgrade starts: the empty one, one that a migration made, and
  one whose rows any program has changed within the constraints.
\<close>

inductive deployed :: "database \<Rightarrow> bool" where
  empty: "deployed empty_database"
| migrated: "deployed d \<Longrightarrow> next_migration (d_version d) = Some m \<Longrightarrow> upgrade_by m d = Inr d' \<Longrightarrow> deployed d'"
| written: "deployed d \<Longrightarrow> rows_ok (d_schema d) rows \<Longrightarrow> deployed (d\<lparr>d_rows := rows\<rparr>)"

definition deployed_at :: "nat \<Rightarrow> database \<Rightarrow> bool" where
  "deployed_at k d \<longleftrightarrow> k \<le> 14 \<and> d_version d = version_at k \<and> d_schema d = schema_at k \<and> database_ok d"

lemma upgrade_by_at:
  assumes "deployed_at k d" and "k < 14" and "upgrade_by (chain ! k) d = Inr d'"
  shows "deployed_at (Suc k) d'"
proof -
  from assms(3) obtain e where e: "exec_all (mig_upgrade (chain ! k)) d = Inr e"
    and d': "d' = e\<lparr>d_version := Some (mig_revision (chain ! k))\<rparr>"
    by (auto simp: upgrade_by_def map_sum_def split: sum.splits)
  have "d_schema e = schema_at (Suc k)"
    using exec_all_schema [OF e] schema_at_Suc [OF assms(2)] assms(1) by (simp add: deployed_at_def)
  moreover have "database_ok e" using exec_all_ok [OF e] assms(1) by (simp add: deployed_at_def)
  ultimately show ?thesis using assms(2) by (simp add: deployed_at_def d' version_at_def database_ok_def)
qed

lemma deployed_has_version: "deployed d \<Longrightarrow> \<exists>k. deployed_at k d"
proof (induction rule: deployed.induct)
  case empty
  have "database_ok empty_database"
    by (simp add: empty_database_def database_ok_def schema_ok_def rows_ok_def)
  then have "deployed_at 0 empty_database"
    by (simp add: deployed_at_def version_at_def schema_at_0 empty_database_def empty_schema_def)
  then show ?case ..
next
  case (migrated d m d')
  then obtain k where k: "deployed_at k d" by blast
  have "k \<noteq> 14" using migrated.hyps(2) k next_at_head by (auto simp: deployed_at_def)
  then have "k < 14" using k by (simp add: deployed_at_def)
  moreover have "m = chain ! k" using migrated.hyps(2) k next_at \<open>k < 14\<close> by (simp add: deployed_at_def)
  ultimately show ?case using upgrade_by_at [OF k] migrated.hyps(3) by blast
next
  case (written d rows)
  then show ?case by (auto simp: deployed_at_def database_ok_def)
qed

section \<open>Every upgrade succeeds\<close>

text \<open>Operations that no row can stop.\<close>

fun fine :: "ddl \<Rightarrow> bool" where
  "fine (AddColumn n c) = (case cd_default c of NoDefault \<Rightarrow> cd_nullable c | Literal v \<Rightarrow> v \<noteq> NullV | _ \<Rightarrow> False)"
| "fine (CreateIndex _ _ _ u) = (\<not> u)"
| "fine (CreatePrimaryKey _ _ _) = False"
| "fine (CreateForeignKey _ _ _ _ _ _) = False"
| "fine (DeleteWhereNot _ _ _) = False"
| "fine _ = True"

lemma fine_rows: "fine o1 \<Longrightarrow> \<exists>rows. exec_rows o1 s d = Inr rows"
  by (cases o1) (auto simp: fill_def require_def split: server_default.splits)

lemma fine_all: "list_all fine ops \<Longrightarrow> \<exists>rows. exec_all_rows ops d = Inr rows"
proof (induction ops arbitrary: d)
  case (Cons o1 ops)
  then obtain rows where "exec_rows o1 (d_schema empty_database) d = Inr rows" using fine_rows by (auto simp: list_all_iff) blast
  with Cons show ?case by simp
qed simp

lemma fine_no_delete: "list_all fine ops \<Longrightarrow> list_all no_delete ops"
proof (induction ops)
  case (Cons o1 ops)
  then show ?case by (cases o1) simp_all
qed simp

lemma fill_opt [simp]: "fill (opt n ty) rs = Inr (map (\<lambda>r. r(n := NullV)) rs)"
  by (simp add: fill_def opt_def sa_column_def require_def)

text \<open>Facts about single tables of a deployed database.\<close>

lemma table_of:
  assumes "deployed_at k d" and "map_of (sch_tables (schema_at k)) n = Some t"
  shows "keys_ok t (d_rows d n)" and "fks_ok t (d_rows d n) (d_rows d)" and "table_ok (schema_at k) t"
    and "r \<in> set (d_rows d n) \<Longrightarrow> row_ok t r"
  using assms rows_okD [of "schema_at k" "d_rows d" n t] schema_okD by (auto simp: deployed_at_def database_ok_def)

lemma key_holds:
  assumes k: "deployed_at k d" and key: "key_is (schema_at k) n cs"
  shows "unique_on cs (d_rows d n)" and "not_null_on cs (d_rows d n)"
proof -
  from key obtain t where t: "map_of (sch_tables (schema_at k)) n = Some t" "st_pk t = Some (n @ ''_pkey'', cs)"
    by (auto simp: key_is_def split: option.splits)
  from table_of(1) [OF k t(1)] t(2) show "unique_on cs (d_rows d n)" by (simp add: keys_ok_def)
  show "not_null_on cs (d_rows d n)" unfolding not_null_on_def
  proof (intro ballI notI)
    fix r assume r: "r \<in> set (d_rows d n)" and "NullV \<in> set (project cs r)"
    then obtain c where c: "NullV = r c" "c \<in> set cs" unfolding project_def set_map by (elim imageE)
    from pk_row_not_null [OF table_of(3) [OF k t(1)] table_of(4) [OF k t(1) r] t(2) c(2)] c(1) show False by simp
  qed
qed

lemma tokens_have_users:
  assumes k: "deployed_at k d" and refer: "tokens_refer (schema_at k)"
  shows "refers_to [''user_id''] (d_rows d ''refresh_token'') [''id''] (d_rows d ''users'')"
proof -
  from refer obtain t f where t: "map_of (sch_tables (schema_at k)) ''refresh_token'' = Some t"
    and f: "f \<in> set (st_fks t)" "fk_columns f = [''user_id'']" "fk_parent f = ''users''" "fk_parent_columns f = [''id'']"
    by (auto simp: tokens_refer_def split: option.splits)
  from table_of(2) [OF k t] f show ?thesis by (auto simp: fks_ok_def dest: bspec)
qed

lemma tokens_at: "tokens_refer (schema_at 4)" "tokens_refer (schema_at 5)"
  using milestone [of 4] milestone [of 5] by (simp_all add: milestones_def)

text \<open>Most migrations hold only operations of that kind.\<close>

lemma fine_upgrades: "\<forall>k<14. k \<in> {0, 3, 4, 10} \<or> list_all fine (mig_upgrade (chain ! k))"
  unfolding below_14 chain_def
  by (simp add: migration_defs opt_def sa_column_def)

lemma no_deletes: "\<forall>k<14. k = 10 \<or> list_all no_delete (mig_upgrade (chain ! k))"
  unfolding below_14 chain_def by (simp add: migration_defs)

lemma unique_on_fresh [simp]: "unique_on [c] (map (\<lambda>r. r(c := NullV)) rs)"
  "b \<noteq> c \<Longrightarrow> unique_on [c] (map (\<lambda>r. r(b := v)) rs) = unique_on [c] rs"
proof -
  show "unique_on [c] (map (\<lambda>r. r(c := NullV)) rs)"
    by (rule unique_on_null) (auto simp: project_def)
  show "unique_on [c] (map (\<lambda>r. r(b := v)) rs) = unique_on [c] rs" if "b \<noteq> c"
    by (rule unique_on_cong) (use that in \<open>simp add: project_def\<close>)
qed

lemma upgrade_rows:
  assumes k: "deployed_at k d" "k < 14" "k \<noteq> 10"
  shows "\<exists>rows. exec_all_rows (mig_upgrade (chain ! k)) (d_rows d) = Inr rows"
proof -
  consider "k = 0" | "k = 3" | "k = 4" | "list_all fine (mig_upgrade (chain ! k))"
    using fine_upgrades k(2,3) by blast
  then show ?thesis
  proof cases
    case 1
    then show ?thesis by (simp add: chain_def created_user_model_def require_def)
  next
    case 2
    then show ?thesis by (simp add: chain_def updated_user_model_for_email_def require_def del: map_map)
  next
    case 3
    have "deployed_at 4 d" using k(1) 3 by simp
    from tokens_have_users [OF this tokens_at(1)] show ?thesis by (simp add: 3 chain_def add_cascade_delete_def require_def)
  next
    case 4
    then show ?thesis by (rule fine_all)
  qed
qed

text \<open>
  The migration that drops the type of an edge: the edges that stay have one type, so the shorter key is
  still one.
\<close>

lemma unique_on_const:
  assumes "unique_on cs rs" and "not_null_on cs rs" and "set cs \<subseteq> insert c (set bs)"
    and "\<And>r. r \<in> set rs \<Longrightarrow> r c = v"
  shows "distinct (map (project bs) rs)"
proof -
  have d: "distinct (map (project cs) rs)" by (rule unique_on_injective [OF assms(1,2)])
  have "project cs r = project cs r'" if "r \<in> set rs" "r' \<in> set rs" "project bs r = project bs r'" for r r'
  proof (rule project_cong)
    fix x assume "x \<in> set cs"
    then consider "x = c" | "x \<in> set bs" using assms(3) by blast
    then show "r x = r' x"
      by cases (use that assms(4) in \<open>auto simp: project_def\<close>)
  qed
  then have "inj_on (project bs) (set rs)" using d unfolding distinct_map inj_on_def by blast
  then show ?thesis using d by (simp add: distinct_map)
qed

lemma distinct_unique_on: "distinct (map (project cs) rs) \<Longrightarrow> unique_on cs rs"
  by (simp add: unique_on_def)

definition anime_edge :: "sql_row \<Rightarrow> bool" where
  "anime_edge r \<longleftrightarrow> r ''related_type'' = NullV \<or> r ''related_type'' = TextV ''anime''"

lemma edge_key_shrinks:
  assumes k: "deployed_at 10 d"
  defines "rs \<equiv> map (\<lambda>r. r(''related_type'' := NullV)) (filter anime_edge (d_rows d ''anime_relation''))"
  shows "not_null_on edge_key rs" and "unique_on edge_key rs"
proof -
  let ?rs = "filter anime_edge (d_rows d ''anime_relation'')"
  note key = key_holds [OF k key_at(1)]
  have nn: "not_null_on typed_edge_key ?rs" using key(2) by (simp only: not_null_on_def set_filter) blast
  show "not_null_on edge_key rs"
    using nn by (fastforce simp: rs_def not_null_on_def project_def edge_key_def typed_edge_key_def)
  have "distinct (map (project edge_key) ?rs)"
  proof (rule unique_on_const)
    show "unique_on typed_edge_key ?rs" by (rule unique_on_filter [OF key(1)])
    show "r ''related_type'' = TextV ''anime''" if "r \<in> set ?rs" for r
      using that nn by (auto simp: anime_edge_def not_null_on_def project_def typed_edge_key_def)
  qed (rule nn, simp add: edge_key_def typed_edge_key_def)
  moreover have "map (project edge_key) rs = map (project edge_key) ?rs"
    unfolding rs_def by (rule project_upd_map) (simp add: edge_key_def)
  ultimately show "unique_on edge_key rs" by (intro distinct_unique_on) simp
qed

lemma upgrade_edges:
  assumes k: "deployed_at 10 d"
  shows "\<exists>d'. exec_all (mig_upgrade deleted_related_type) d = Inr d'"
proof -
  let ?del = "DeleteWhereNot ''anime_relation'' ''related_type'' ''anime''"
  let ?edges = "filter anime_edge (d_rows d ''anime_relation'')"
  obtain ops where ops: "mig_upgrade deleted_related_type = ?del # ops"
    and rest: "ops = [DropConstraint ''anime_relation_pkey'' ''anime_relation'' PrimaryKind,
       DropColumn ''anime_relation'' ''related_type'',
       CreatePrimaryKey ''anime_relation_pkey'' ''anime_relation'' [''anime_id'', ''relation'', ''related_mal_id'']]"
    by (simp add: deleted_related_type_def)
  have s: "exec_schemas (?del # ops) (d_schema d) = Inr (schema_at 11)"
    using schema_at_Suc [of 10] k by (simp add: chain_def ops deployed_at_def)
  then obtain s1 where s1: "exec_schema ?del (d_schema d) = Inr s1" "exec_schemas ops s1 = Inr (schema_at 11)"
    by (auto split: sum.splits)
  have "exec_rows ?del (d_schema d) (d_rows d) = Inr ((d_rows d)(''anime_relation'' := ?edges))"
    using key_at(2) k by (simp add: deployed_at_def require_def anime_edge_def [abs_def] Let_def)
  with s1(1) have del: "exec_ddl ?del d = Inr (d\<lparr>d_schema := s1, d_rows := (d_rows d)(''anime_relation'' := ?edges)\<rparr>)"
    by (simp only: exec_ddl_def sum.case)
  have "\<exists>rows. exec_all_rows ops ((d_rows d)(''anime_relation'' := ?edges)) = Inr rows"
    using edge_key_shrinks [OF k] by (simp add: rest require_def edge_key_def)
  then obtain rows where rows: "exec_all_rows ops ((d_rows d)(''anime_relation'' := ?edges)) = Inr rows" ..
  have "exec_all ops (d\<lparr>d_schema := s1, d_rows := (d_rows d)(''anime_relation'' := ?edges)\<rparr>)
      = Inr (d\<lparr>d_schema := s1, d_rows := (d_rows d)(''anime_relation'' := ?edges), d_schema := schema_at 11, d_rows := rows\<rparr>)"
    by (rule exec_all_succeeds) (simp add: rest, simp add: s1(2), simp add: rows)
  with del show ?thesis by (simp only: ops exec_all.simps sum.case) blast
qed

lemma upgrade_succeeds:
  assumes k: "deployed_at k d" "k < 14"
  shows "\<exists>d'. upgrade_by (chain ! k) d = Inr d' \<and> deployed_at (Suc k) d'"
proof -
  have "\<exists>e. exec_all (mig_upgrade (chain ! k)) d = Inr e"
  proof (cases "k = 10")
    case True
    then show ?thesis using upgrade_edges k(1) by (simp add: chain_def)
  next
    case False
    from upgrade_rows [OF k False] obtain rows where rows: "exec_all_rows (mig_upgrade (chain ! k)) (d_rows d) = Inr rows" ..
    have "exec_schemas (mig_upgrade (chain ! k)) (d_schema d) = Inr (schema_at (Suc k))"
      using schema_at_Suc [OF k(2)] k(1) by (simp add: deployed_at_def)
    from exec_all_succeeds [OF _ this rows] no_deletes k(2) False show ?thesis by blast
  qed
  then obtain d' where d': "upgrade_by (chain ! k) d = Inr d'" by (auto simp: upgrade_by_def)
  with upgrade_by_at [OF k d'] show ?thesis by blast
qed

lemma path_from: "k \<le> 14 \<Longrightarrow> path_to_head j (version_at k) = take j (drop k chain)"
proof (induction j arbitrary: k)
  case (Suc j)
  show ?case
  proof (cases "k = 14")
    case True
    then show ?thesis by (simp add: next_at_head)
  next
    case False
    with Suc.prems have k: "k < 14" by simp
    have "Some (mig_revision (chain ! k)) = version_at (Suc k)" by (simp add: version_at_def)
    with Suc.IH [of "Suc k"] k next_at show ?thesis by (simp add: Cons_nth_drop_Suc [symmetric])
  qed
qed simp

section \<open>What happens to the rows\<close>

text \<open>
  The rows of a table after an upgrade: the same rows in the same order, with their values in the columns
  that both have, but for those that may be lost.
\<close>

inductive carried :: "(sql_row \<Rightarrow> bool) \<Rightarrow> string set \<Rightarrow> sql_row list \<Rightarrow> sql_row list \<Rightarrow> bool" for lost cs where
  none: "carried lost cs [] []"
| kept: "(\<forall>c\<in>cs. r' c = r c) \<Longrightarrow> (lost r' \<longrightarrow> lost r) \<Longrightarrow> carried lost cs rs rs' \<Longrightarrow> carried lost cs (r # rs) (r' # rs')"
| gone: "lost r \<Longrightarrow> carried lost cs rs rs' \<Longrightarrow> carried lost cs (r # rs) rs'"

inductive_cases carried_ConsE: "carried lost cs (r # rs) rs'"
inductive_cases carried_NilE: "carried lost cs [] rs'"

lemma carried_map: "(\<And>r c. r \<in> set rs \<Longrightarrow> c \<in> cs \<Longrightarrow> f r c = r c) \<Longrightarrow> (\<And>r. lost (f r) \<Longrightarrow> lost r) \<Longrightarrow> carried lost cs rs (map f rs)"
  by (induction rs) (auto intro!: carried.none carried.kept)

lemma carried_filter: "(\<And>r. \<not> p r \<Longrightarrow> lost r) \<Longrightarrow> carried lost cs rs (filter p rs)"
  by (induction rs) (auto intro: carried.intros)

lemma carried_refl: "carried lost cs rs rs"
  by (induction rs) (auto intro: carried.intros)

lemma carried_trans: "carried lost cs xs ys \<Longrightarrow> carried lost cs ys zs \<Longrightarrow> carried lost cs xs zs"
proof (induction arbitrary: zs rule: carried.induct)
  case none
  then show ?case .
next
  case (kept r' r rs rs')
  from kept.prems show ?case
  proof (rule carried_ConsE)
    fix r'' rs''
    assume "zs = r'' # rs''" "\<forall>c\<in>cs. r'' c = r' c" "lost r'' \<longrightarrow> lost r'" "carried lost cs rs' rs''"
    then show ?case using kept.hyps(1,2) kept.IH by (auto intro!: carried.kept)
  next
    assume "lost r'" "carried lost cs rs' zs"
    then show ?case using kept.hyps(2) kept.IH by (auto intro: carried.gone)
  qed
next
  case (gone r rs rs')
  then show ?case by (auto intro: carried.gone)
qed

definition lost_edge :: "string \<Rightarrow> sql_row \<Rightarrow> bool" where
  "lost_edge n r \<longleftrightarrow> n = ''anime_relation'' \<and> \<not> anime_edge r"

text \<open>Operations that leave the columns `cs` of a table alone.\<close>

fun gentle :: "string \<Rightarrow> string set \<Rightarrow> ddl \<Rightarrow> bool" where
  "gentle n cs (DropTable m) = (m \<noteq> n)"
| "gentle n cs (DropColumn m c) = (m = n \<longrightarrow> c \<notin> cs)"
| "gentle n cs (AddColumn m c) = (m = ''anime_relation'' \<longrightarrow> cd_name c \<noteq> ''related_type'')"
| "gentle n cs (DeleteWhereNot m c v) = (m = n \<longrightarrow> n = ''anime_relation'' \<and> c = ''related_type'' \<and> v = ''anime'')"
| "gentle _ _ _ = True"

lemma columns_replaced [simp]:
  "columns_of (s\<lparr>sch_tables := AList.update m t (sch_tables s)\<rparr>) n = (if n = m then column_names t else columns_of s n)"
  by (simp add: columns_of_def map_of_update)

lemma columns_present: "map_of (sch_tables s) m = Some t \<Longrightarrow> columns_of s m = column_names t"
  by (simp add: columns_of_def)

lemma column_names_simps [simp]:
  "column_names (t\<lparr>st_columns := cols\<rparr>) = map cd_name cols"
  "column_names (t\<lparr>st_pk := pk\<rparr>) = column_names t" "column_names (t\<lparr>st_fks := fks\<rparr>) = column_names t"
  "column_names (t\<lparr>st_indexes := ixs\<rparr>) = column_names t"
  "column_names (t\<lparr>st_pk := pk, st_columns := cols\<rparr>) = map cd_name cols"
  by (simp_all add: column_names_def)

lemma cd_name_if [simp]:
  "cd_name (if b then x\<lparr>cd_default := v\<rparr> else x) = cd_name x"
  "cd_name (if b then x\<lparr>cd_nullable := a\<rparr> else x) = cd_name x"
  by simp_all

lemma gentle_columns:
  assumes e: "exec_schema o1 s = Inr s'" and g: "gentle n cs o1" and cs: "cs \<subseteq> set (columns_of s n)"
  shows "cs \<subseteq> set (columns_of s' n)"
proof -
  have more: ?thesis if "set (columns_of s n) \<subseteq> set (columns_of s' n)" using cs that by (rule subset_trans)
  show ?thesis
  proof (cases o1)
    case (CreateTable m cols cons)
    from e have m: "map_of (sch_tables s) m = None" and s': "sch_tables s' = sch_tables s @ [(m, new_table m cols cons)]"
      by (auto simp: CreateTable Let_def map_of_eq_None_iff)
    show ?thesis
    proof (cases "n = m")
      case True
      then show ?thesis using cs m by (simp add: columns_of_def)
    next
      case False
      then have "columns_of s' n = columns_of s n" by (simp add: columns_of_def s' map_add_def split: option.split)
      with cs show ?thesis by simp
    qed
  next
    case (DropTable m)
    with e g cs show ?thesis by (auto simp: columns_of_def delete_conv')
  next
    case (DropConstraint k m kind)
    with e have "columns_of s' n = columns_of s n" by (cases kind) (auto simp: with_table_Inr columns_present)
    with cs show ?thesis by simp
  next
    case (DropColumn m c)
    with e obtain t where t: "map_of (sch_tables s) m = Some t"
      and s': "s' = s\<lparr>sch_tables := AList.update m ((drop_mentions c t)\<lparr>st_columns := filter (\<lambda>d. cd_name d \<noteq> c) (st_columns t)\<rparr>) (sch_tables s)\<rparr>"
      by (auto simp: with_table_Inr)
    show ?thesis
    proof (cases "n = m")
      case True
      have "cs \<subseteq> cd_name ` set (st_columns t)" using cs True columns_present [OF t] by (simp add: column_names_def)
      moreover have "c \<notin> cs" using g DropColumn True by simp
      ultimately show ?thesis by (force simp: s' True)
    qed (use cs in \<open>simp add: s'\<close>)
  qed ((rule more; use e in \<open>auto simp: with_table_Inr Let_def columns_present column_names_def o_def\<close>)+)
qed

lemma gentle_rows:
  assumes e: "exec_ddl o1 d = Inr d'" and ok: "database_ok d" and g: "gentle n cs o1"
    and cs: "cs \<subseteq> set (columns_of (d_schema d) n)"
  shows "carried (lost_edge n) cs (d_rows d n) (d_rows d' n)"
proof -
  from e have s: "exec_schema o1 (d_schema d) = Inr (d_schema d')"
    and r: "exec_rows o1 (d_schema d) (d_rows d) = Inr (d_rows d')" by (simp_all add: exec_ddl_parts)
  have set_column: "carried (lost_edge n) cs rs (map (\<lambda>r. r(c := v)) rs)"
    if "c \<notin> cs" "c = ''related_type'' \<Longrightarrow> n \<noteq> ''anime_relation'' \<or> v = NullV" for c v rs
    by (rule carried_map) (use that in \<open>auto simp: lost_edge_def anime_edge_def split: if_splits\<close>)
  show ?thesis
  proof (cases o1)
    case (CreateTable m cols cons)
    have "d_rows d m = []" using s ok
      by (auto simp: CreateTable Let_def database_ok_def map_of_eq_None_iff [symmetric] intro!: rows_ok_empty)
    with r CreateTable have "d_rows d' = d_rows d" by (simp add: fun_upd_idem)
    then show ?thesis by (simp add: carried_refl)
  next
    case (DropTable m)
    with r have "d_rows d' = (d_rows d)(m := [])" by simp
    with g DropTable have "d_rows d' n = d_rows d n" by simp
    then show ?thesis by (simp add: carried_refl)
  next
    case (AddColumn m c)
    from s obtain t where t: "map_of (sch_tables (d_schema d)) m = Some t" "cd_name c \<notin> set (column_names t)"
      by (auto simp: AddColumn with_table_Inr)
    from r obtain rs where rs: "fill c (d_rows d m) = Inr rs" and d': "d_rows d' = (d_rows d)(m := rs)"
      by (auto simp: AddColumn map_sum_def split: sum.splits)
    show ?thesis
    proof (cases "m = n")
      case True
      have "\<exists>v. rs = map (\<lambda>r. r(cd_name c := v)) (d_rows d n)"
        using rs True by (auto simp: fill_def split: if_splits option.splits)
      then obtain v where "rs = map (\<lambda>r. r(cd_name c := v)) (d_rows d n)" ..
      moreover have "cd_name c \<notin> cs" using t cs True by (auto simp: columns_of_def)
      ultimately show ?thesis using g AddColumn True set_column [of "cd_name c"] by (auto simp: d')
    qed (simp add: d' carried_refl)
  next
    case (DropColumn m c)
    with r have "d_rows d' = (d_rows d)(m := map (\<lambda>r. r(c := NullV)) (d_rows d m))" by simp
    then show ?thesis using g DropColumn set_column [of c NullV] by (cases "m = n") (auto simp: carried_refl)
  next
    case (DeleteWhereNot m c v)
    with r have d': "d_rows d' = (d_rows d)(m := filter (\<lambda>r. r c = NullV \<or> r c = TextV v) (d_rows d m))"
      by (simp add: Let_def)
    show ?thesis
    proof (cases "m = n")
      case True
      then show ?thesis using g DeleteWhereNot by (simp add: d' carried_filter lost_edge_def anime_edge_def)
    qed (simp add: d' carried_refl)
  qed (use r in \<open>auto simp: carried_refl\<close>)
qed

lemma gentle_all:
  assumes "exec_all ops d = Inr d'" and "database_ok d" and "list_all (gentle n cs) ops"
    and "cs \<subseteq> set (columns_of (d_schema d) n)"
  shows "carried (lost_edge n) cs (d_rows d n) (d_rows d' n) \<and> cs \<subseteq> set (columns_of (d_schema d') n)"
  using assms
proof (induction ops arbitrary: d)
  case (Cons o1 ops)
  from Cons.prems(1) obtain e where e: "exec_ddl o1 d = Inr e" "exec_all ops e = Inr d'" by (auto split: sum.splits)
  from Cons.prems(3) have g: "gentle n cs o1" "list_all (gentle n cs) ops" by simp_all
  have first: "carried (lost_edge n) cs (d_rows d n) (d_rows e n)"
    by (rule gentle_rows [OF e(1) Cons.prems(2) g(1) Cons.prems(4)])
  have "cs \<subseteq> set (columns_of (d_schema e) n)"
    using e(1) gentle_columns [OF _ g(1) Cons.prems(4)] by (simp add: exec_ddl_parts)
  with Cons.IH [OF e(2) exec_ddl_ok [OF e(1) Cons.prems(2)] g(2)] carried_trans [OF first] show ?case by blast
qed (simp add: carried_refl)

lemma gentle_upgrades:
  assumes "cs \<subseteq> set (columns_of (schema_at 14) n)"
  shows "\<forall>k<14. list_all (gentle n cs) (mig_upgrade (chain ! k))"
  unfolding below_14 chain_def using assms
  by (auto simp: migration_defs opt_def sa_column_def head_facts(2,3) head_facts(4) [unfolded edge_key_def])

section \<open>The upgrade to the head\<close>

lemma upgrade_from:
  assumes "deployed_at k d"
  shows "\<exists>d'. run_migrations (map upgrade_by (drop k chain)) d = Inr d' \<and> deployed_at 14 d'
    \<and> (\<forall>n cs. cs \<subseteq> set (columns_of (d_schema d) n) \<longrightarrow> cs \<subseteq> set (columns_of (schema_at 14) n)
        \<longrightarrow> carried (lost_edge n) cs (d_rows d n) (d_rows d' n))"
  using assms
proof (induction "14 - k" arbitrary: k d)
  case 0
  then have "k = 14" by (simp add: deployed_at_def)
  with 0 show ?case by (simp add: carried_refl)
next
  case (Suc j)
  then have k: "k < 14" by simp
  from upgrade_succeeds [OF Suc.prems k] obtain e
    where e: "upgrade_by (chain ! k) d = Inr e" "deployed_at (Suc k) e" by blast
  have "j = 14 - Suc k" using Suc.hyps(2) by simp
  from Suc.hyps(1) [OF this e(2)] obtain d' where d': "run_migrations (map upgrade_by (drop (Suc k) chain)) e = Inr d'" "deployed_at 14 d'"
    and rest: "\<And>n cs. cs \<subseteq> set (columns_of (d_schema e) n) \<Longrightarrow> cs \<subseteq> set (columns_of (schema_at 14) n)
        \<Longrightarrow> carried (lost_edge n) cs (d_rows e n) (d_rows d' n)" by blast
  from e(1) obtain f where f: "exec_all (mig_upgrade (chain ! k)) d = Inr f" and ef: "e = f\<lparr>d_version := Some (mig_revision (chain ! k))\<rparr>"
    by (auto simp: upgrade_by_def map_sum_def split: sum.splits)
  have "carried (lost_edge n) cs (d_rows d n) (d_rows d' n)"
    if cs: "cs \<subseteq> set (columns_of (d_schema d) n)" "cs \<subseteq> set (columns_of (schema_at 14) n)" for n cs
  proof -
    have "list_all (gentle n cs) (mig_upgrade (chain ! k))" using gentle_upgrades [OF cs(2)] k by blast
    from gentle_all [OF f _ this cs(1)] Suc.prems
    have "carried (lost_edge n) cs (d_rows d n) (d_rows e n)" "cs \<subseteq> set (columns_of (d_schema e) n)"
      by (simp_all add: ef deployed_at_def)
    with rest [OF _ cs(2)] show ?thesis by (blast intro: carried_trans)
  qed
  moreover have "drop k chain = chain ! k # drop (Suc k) chain" using k by (simp add: Cons_nth_drop_Suc)
  ultimately show ?case using e(1) d' by auto
qed

text \<open>
  C37. `alembic upgrade head` succeeds on every database that earlier upgrades and any program's writes can
  have left, from every revision: it ends at the head with well formed rows in the tables that the models
  declare, and every row is still there in order with its values in the columns that remain, but for the
  edges of anime_relation to something else than an anime.
\<close>

theorem upgrade_reaches_models:
  assumes "deployed d"
  shows "\<exists>d'. upgrade_head d = (None, d') \<and> d_version d' = Some ''94794cdb7738'' \<and> database_ok d'
    \<and> matches_models (d_schema d')
    \<and> (\<forall>n. carried (lost_edge n) (set (columns_of (d_schema d) n) \<inter> set (columns_of (d_schema d') n)) (d_rows d n) (d_rows d' n))"
proof -
  from deployed_has_version [OF assms] obtain k where k: "deployed_at k d" by blast
  from upgrade_from [OF k] obtain d' where d': "run_migrations (map upgrade_by (drop k chain)) d = Inr d'" "deployed_at 14 d'"
    and rows: "\<And>n cs. cs \<subseteq> set (columns_of (d_schema d) n) \<Longrightarrow> cs \<subseteq> set (columns_of (schema_at 14) n)
        \<Longrightarrow> carried (lost_edge n) cs (d_rows d n) (d_rows d' n)" by blast
  have "length versions = 14" by (simp add: versions_def)
  moreover have "path_to_head 14 (version_at k) = drop k chain"
    using k by (subst path_from) (simp_all add: deployed_at_def)
  ultimately have "path_to_head (length versions) (d_version d) = drop k chain"
    using k by (simp only: deployed_at_def)
  with d'(1) have "upgrade_head d = (None, d')" by (simp add: upgrade_head_def run_migrations_online_def)
  moreover have "d_version d' = Some ''94794cdb7738''" "database_ok d'" "d_schema d' = schema_at 14"
    using d'(2) by (simp_all add: deployed_at_def version_at_def chain_def)
  ultimately show ?thesis using rows head_facts(1) by auto
qed

section \<open>Downgrades\<close>

lemma version_inj: "j \<le> 14 \<Longrightarrow> k < 14 \<Longrightarrow> version_at j = Some (mig_revision (chain ! k)) \<Longrightarrow> j = Suc k"
proof -
  assume j: "j \<le> 14" and k: "k < 14" and same: "version_at j = Some (mig_revision (chain ! k))"
  have d: "distinct (map mig_revision chain)" by (simp add: chain_def)
  from same obtain i where i: "j = Suc i" "map mig_revision chain ! i = map mig_revision chain ! k"
    using j k by (cases j) (auto simp: version_at_def)
  then show "j = Suc k" using nth_eq_iff_index_eq [OF d, of i k] j k by simp
qed

lemma fine_downgrades: "\<forall>k<14. k \<in> {4, 5, 10} \<or> list_all fine (mig_downgrade (chain ! k))"
  unfolding below_14 chain_def
  by (simp add: migration_defs opt_def req_def sa_column_def)

lemma no_deletes_down: "\<forall>k<14. list_all no_delete (mig_downgrade (chain ! k))"
  unfolding below_14 chain_def by (simp add: migration_defs)

lemma long_key:
  assumes nn: "not_null_on [a, b, c] rs" and u: "unique_on [a, b, c] rs" and x: "a \<noteq> x" "b \<noteq> x" "c \<noteq> x" and v: "v \<noteq> NullV"
  shows "not_null_on [a, b, x, c] (map (\<lambda>r. r(x := v)) rs) \<and> unique_on [a, b, x, c] (map (\<lambda>r. r(x := v)) rs)"
proof
  show "not_null_on [a, b, x, c] (map (\<lambda>r. r(x := v)) rs)"
    using nn x v by (auto simp: not_null_on_def project_def)
  have "distinct (map (project [a, b, c]) rs)" by (rule unique_on_injective [OF u nn])
  then have "distinct (map (project [a, b, x, c]) (map (\<lambda>r. r(x := v)) rs))"
    using x by (simp add: distinct_map inj_on_def project_def o_def)
  then show "unique_on [a, b, x, c] (map (\<lambda>r. r(x := v)) rs)" by (rule distinct_unique_on)
qed

lemma downgrade_rows:
  assumes k: "deployed_at (Suc k) d" "k < 14" and users: "k = 5 \<Longrightarrow> d_rows d ''users'' = []"
  shows "\<exists>rows. exec_all_rows (mig_downgrade (chain ! k)) (d_rows d) = Inr rows"
proof -
  consider "k = 4" | "k = 5" | "k = 10" | "list_all fine (mig_downgrade (chain ! k))"
    using fine_downgrades k(2) by blast
  then show ?thesis
  proof cases
    case 1
    have "deployed_at 5 d" using k(1) 1 by simp
    from tokens_have_users [OF this tokens_at(2)] show ?thesis by (simp add: 1 chain_def add_cascade_delete_def require_def)
  next
    case 2
    then show ?thesis using users by (simp add: chain_def refactored_f1_user_table_def require_def fill_def)
  next
    case 3
    have at: "deployed_at 11 d" using k(1) 3 by simp
    have "unique_on edge_key (d_rows d ''anime_relation'')" "not_null_on edge_key (d_rows d ''anime_relation'')"
      by (rule key_holds [OF at key_at(3)])+
    then show ?thesis
      using long_key [of "''anime_id''" "''relation''" "''related_mal_id''" "d_rows d ''anime_relation''" "''related_type''" "TextV ''anime''"]
      by (simp add: 3 chain_def deleted_related_type_def require_def fill_def sa_column_def not_null_on_def edge_key_def)
  next
    case 4
    then show ?thesis by (rule fine_all)
  qed
qed

lemma all_downs: "\<forall>k<14. mig_down (chain ! k) = version_at k"
  unfolding below_14 version_at_def chain_def by simp

lemma downgrade_succeeds:
  assumes k: "deployed_at (Suc k) d" "k < 14" and users: "k = 5 \<Longrightarrow> d_rows d ''users'' = []"
  shows "\<exists>d2. downgrade_by (chain ! k) d = Inr d2 \<and> d_version d2 = version_at k \<and> database_ok d2
    \<and> same_tables (d_schema d2) (schema_at k)"
proof -
  from downgrade_rows [OF assms] obtain rows where rows: "exec_all_rows (mig_downgrade (chain ! k)) (d_rows d) = Inr rows" by blast
  from undone_at [OF k(2)] obtain s2 where s2: "exec_schemas (mig_downgrade (chain ! k)) (d_schema d) = Inr s2" "same_tables s2 (schema_at k)"
    using k(1) by (auto simp: deployed_at_def)
  from exec_all_succeeds [OF _ s2(1) rows] no_deletes_down k(2)
  have e: "exec_all (mig_downgrade (chain ! k)) d = Inr (d\<lparr>d_schema := s2, d_rows := rows\<rparr>)" by blast
  have "database_ok (d\<lparr>d_schema := s2, d_rows := rows\<rparr>)" using exec_all_ok [OF e] k(1) by (simp add: deployed_at_def)
  moreover have "mig_down (chain ! k) = version_at k"
    using k(2) all_downs by blast
  ultimately show ?thesis using e s2(2) by (simp add: downgrade_by_def database_ok_def)
qed

text \<open>
  C38. A downgrade undoes its upgrade: from any rows that a program has written since, it succeeds, goes back
  to the version before, leaves well formed rows and the tables that databases of that version have.  Only
  the one that brings `f1_team` back, a required column without a default, needs a table of users that is
  empty.
\<close>

theorem downgrade_undoes:
  assumes "deployed d" and "next_migration (d_version d) = Some m"
    and "deployed e" and "d_version e = Some (mig_revision m)"
    and "m = refactored_f1_user_table \<longrightarrow> d_rows e ''users'' = []"
  shows "\<exists>d2. downgrade_by m e = Inr d2 \<and> d_version d2 = d_version d \<and> database_ok d2 \<and> same_tables (d_schema d2) (d_schema d)"
proof -
  from deployed_has_version [OF assms(1)] obtain k where k: "deployed_at k d" by blast
  have "k \<noteq> 14" using assms(2) k next_at_head by (auto simp: deployed_at_def)
  then have less: "k < 14" using k by (simp add: deployed_at_def)
  then have m: "m = chain ! k" using assms(2) k next_at by (simp add: deployed_at_def)
  from deployed_has_version [OF assms(3)] obtain j where j: "deployed_at j e" by blast
  with assms(4) less have "j = Suc k" by (intro version_inj) (simp_all add: deployed_at_def m)
  moreover have "d_rows e ''users'' = []" if "k = 5" using assms(5) that by (simp add: m chain_def)
  ultimately show ?thesis using downgrade_succeeds [of k e] j k less by (simp add: m deployed_at_def)
qed

text \<open>The enum types of the first migration outlive its downgrade, and stop it from being run again.\<close>

lemma reinstall_fails:
  "case upgrade_by created_user_model empty_database of Inl _ \<Rightarrow> False
   | Inr d \<Rightarrow> (case downgrade_by created_user_model d of Inl _ \<Rightarrow> False
      | Inr e \<Rightarrow> d_version e = None \<and> sch_tables (d_schema e) = [] \<and> upgrade_by created_user_model e = Inl DuplicateType)"
  by (simp add: upgrade_by_def downgrade_by_def created_user_model_def empty_database_def exec_ddl_def require_def Let_def
      new_table_def column_names_def columns_needed_def pk_not_null_def not_null_in_def req_def opt_def sa_column_def
      stamped_def default_fits_def native_types_def List.map_filter_def f1_teams_def user_rank_def with_table_def
      all_indexes_def referring_def)

section \<open>A deployed database with a user\<close>

definition one_user :: sql_rows where
  "one_user = (\<lambda>_. [])(''users'' := [(\<lambda>_. NullV)(''id'' := UuidV 1, ''email'' := TextV ''a@b.org'', ''username'' := TextV ''ann'',
     ''password'' := TextV ''$2b$12$'', ''f1_team'' := TextV ''FERRARI'')])"

lemma schema_at_1: "sch_tables (schema_at 1) = [(''users'', \<lparr>st_columns = [req ''id'' SqlUuid, req ''email'' (SqlString None),
    req ''username'' (SqlString None), req ''password'' (SqlString None), req ''f1_team'' f1_teams, opt ''rank'' user_rank,
    opt ''rank_elo'' SqlInteger, opt ''is_admin'' SqlBoolean, stamped ''created_at'' True],
    st_pk = Some (''users_pkey'', [''id'']), st_fks = [], st_checks = [],
    st_indexes = [(''ix_users_email'', [''email''], True), (''ix_users_id'', [''id''], False)]\<rparr>)]"
  by code_simp

lemma one_user_ok: "rows_ok (schema_at 1) one_user"
  unfolding rows_ok_def schema_at_1
  by (auto simp: one_user_def row_ok_def keys_ok_def fks_ok_def cell_ok_def column_names_def req_def opt_def stamped_def sa_column_def
      f1_teams_def sql_text_def unique_on_def project_def)

lemma deployed_with_user:
  obtains d where "deployed d" "d_version d = Some ''a6c1eb602edc''" "d_rows d = one_user" "next_migration None = Some created_user_model"
proof -
  have "deployed_at 0 empty_database"
    using deployed_has_version [OF deployed.empty] unfolding deployed_at_def
    by (auto simp: empty_database_def version_at_def schema_at_0 empty_schema_def)
  from upgrade_succeeds [OF this] obtain d where d: "upgrade_by created_user_model empty_database = Inr d" "deployed_at 1 d"
    by (auto simp: chain_def)
  have "deployed d"
    by (rule deployed.migrated [OF deployed.empty _ d(1)]) (simp add: empty_database_def next_migration_simps)
  then have "deployed (d\<lparr>d_rows := one_user\<rparr>)"
    by (rule deployed.written) (use d(2) one_user_ok in \<open>simp add: deployed_at_def\<close>)
  with d(2) show thesis
    by (intro that [of "d\<lparr>d_rows := one_user\<rparr>"]) (simp_all add: deployed_at_def version_at_def chain_def next_migration_simps)
qed

theorem upgrade_reaches_models_witness:
  "\<exists>d d'. d_rows d = one_user \<and> upgrade_head d = (None, d') \<and> d_version d' = Some ''94794cdb7738'' \<and> database_ok d'
    \<and> matches_models (d_schema d')"
proof -
  obtain d where "deployed d" "d_rows d = one_user" by (rule deployed_with_user)
  with upgrade_reaches_models [OF this(1)] show ?thesis by blast
qed

theorem downgrade_undoes_witness:
  "\<exists>d e d2. deployed d \<and> deployed e \<and> d_rows e = one_user \<and> downgrade_by created_user_model e = Inr d2
    \<and> d_version d2 = None \<and> database_ok d2 \<and> same_tables (d_schema d2) (d_schema d)"
proof -
  obtain e where e: "deployed e" "d_version e = Some ''a6c1eb602edc''" "d_rows e = one_user"
    and next_m: "next_migration None = Some created_user_model" by (rule deployed_with_user)
  have v: "d_version empty_database = None" by (simp add: empty_database_def)
  have "\<exists>d2. downgrade_by created_user_model e = Inr d2 \<and> d_version d2 = d_version empty_database \<and> database_ok d2
      \<and> same_tables (d_schema d2) (d_schema empty_database)"
    by (rule downgrade_undoes [OF deployed.empty _ e(1)])
      (simp_all add: v next_m e, simp add: created_user_model_def refactored_f1_user_table_def)
  then obtain d2 where d2: "downgrade_by created_user_model e = Inr d2" "d_version d2 = None" "database_ok d2"
    "same_tables (d_schema d2) (d_schema empty_database)" unfolding v by blast
  show ?thesis
    by (rule exI [of _ empty_database], rule exI [of _ e], rule exI [of _ d2]) (intro conjI deployed.empty e d2)
qed

section \<open>The catalogue's statements and the tables\<close>

text \<open>The columns, keys and parents that the statements of Catalogue work with are those of the migrated tables.\<close>

lemma catalogue_tables_fit:
  "case map_of (sch_tables (schema_at 14)) (table_name tb) of None \<Rightarrow> False | Some t \<Rightarrow> table_fits tb t"
  using milestone [of 14] by (induction tb) (simp_all add: milestones_def)

section \<open>The URL that alembic connects with\<close>

text \<open>A URL-encoded password is full of per cent signs: the config file gives back the URL that was put in.\<close>

lemma interpolate_escaped: "interpolate refs (escape_percent s) = Some s"
  by (induction s) (simp_all add: escape_percent_def interpolate.simps [of _ "_ # _"] interpolate.simps [of _ "[]"])

lemma sync_db_url_options:
  "map_of (url_query (sync_db_url u)) k =
     (if map_of (url_query u) ''ssl'' = None then map_of (url_query u) k
      else if k = ''sslmode'' then map_of (url_query u) ''ssl''
      else if k = ''ssl'' then None else map_of (url_query u) k)"
  by (auto simp: sync_db_url_def update_conv' delete_conv' split: option.split)

end
